theory Spec2Isabelle
  imports Complex_Main
begin

section \<open>The marker tool of \<^verbatim>\<open>app/tools/bezier.py\<close> and its command log\<close>

text \<open>
  The development embeds \<^verbatim>\<open>BezierMarkerTool\<close>, its five commands and the
  \<^verbatim>\<open>CommandManager\<close> of \<^verbatim>\<open>app/core/commands.py\<close>. Coordinates are real
  numbers (the source computes in floating point; rounding error is outside the model).
  Calls into the rendering side that change nothing the tool reads back (\<^verbatim>\<open>render\<close>,
  node colours, the spline tube, named debug actors) are left out; every other statement of
  a modelled method is a step of its definition.
\<close>

subsection \<open>Python values: exceptions, list indexing\<close>

datatype exn = ValueError | IndexError | AttributeError | KeyError | LibraryError

text \<open>A call either returns a value and the state it leaves, or raises, also leaving a state.\<close>

datatype ('a, 's) result = Ok 'a 's | Raise exn 's

fun state_of :: "('a, 's) result \<Rightarrow> 's" where
  "state_of (Ok _ s) = s"
| "state_of (Raise _ s) = s"

fun is_ok :: "('a, 's) result \<Rightarrow> bool" where
  "is_ok (Ok _ _) = True"
| "is_ok (Raise _ _) = False"

text \<open>\<^verbatim>\<open>xs[i]\<close>: a negative index counts from the end, out of range is IndexError.\<close>

definition py_get :: "'a list \<Rightarrow> int \<Rightarrow> 'a option" where
  "py_get xs i =
     (let n = int (length xs); j = (if i < 0 then n + i else i)
      in if 0 \<le> j \<and> j < n then Some (xs ! nat j) else None)"

text \<open>\<^verbatim>\<open>xs[i] = v\<close>, with the same index rule.\<close>

definition py_set :: "'a list \<Rightarrow> int \<Rightarrow> 'a \<Rightarrow> 'a list option" where
  "py_set xs i v =
     (let n = int (length xs); j = (if i < 0 then n + i else i)
      in if 0 \<le> j \<and> j < n then Some (xs[nat j := v]) else None)"

text \<open>\<^verbatim>\<open>xs.index(v)\<close>: the first position of \<open>v\<close>, ValueError (here None) when absent.\<close>

fun py_index :: "'a list \<Rightarrow> 'a \<Rightarrow> nat option" where
  "py_index [] v = None"
| "py_index (x # xs) v =
     (if x = v then Some 0 else (case py_index xs v of None \<Rightarrow> None | Some k \<Rightarrow> Some (Suc k)))"

text \<open>\<^verbatim>\<open>xs.insert(i, v)\<close>: the index is clamped into the list, never an error.\<close>

definition py_insert :: "'a list \<Rightarrow> int \<Rightarrow> 'a \<Rightarrow> 'a list" where
  "py_insert xs i v =
     (let n = int (length xs); j = (if i < 0 then max 0 (n + i) else min i n)
      in take (nat j) xs @ v # drop (nat j) xs)"

text \<open>\<^verbatim>\<open>xs.pop(i)\<close> for an index that \<^verbatim>\<open>index\<close> returned (so never negative).\<close>

definition py_pop :: "'a list \<Rightarrow> nat \<Rightarrow> 'a list option" where
  "py_pop xs i = (if i < length xs then Some (take i xs @ drop (Suc i) xs) else None)"

text \<open>\<^verbatim>\<open>int(x)\<close> on a float truncates towards zero.\<close>

definition py_int :: "real \<Rightarrow> int" where
  "py_int x = (if 0 \<le> x then \<lfloor>x\<rfloor> else \<lceil>x\<rceil>)"

subsection \<open>Points and vectors\<close>

type_synonym point = "real \<times> real \<times> real"

fun vadd :: "point \<Rightarrow> point \<Rightarrow> point" where
  "vadd (x1, y1, z1) (x2, y2, z2) = (x1 + x2, y1 + y2, z1 + z2)"

fun vsub :: "point \<Rightarrow> point \<Rightarrow> point" where
  "vsub (x1, y1, z1) (x2, y2, z2) = (x1 - x2, y1 - y2, z1 - z2)"

fun smul :: "real \<Rightarrow> point \<Rightarrow> point" where
  "smul c (x, y, z) = (c * x, c * y, c * z)"

fun dot :: "point \<Rightarrow> point \<Rightarrow> real" where
  "dot (x1, y1, z1) (x2, y2, z2) = x1 * x2 + y1 * y2 + z1 * z2"

definition norm3 :: "point \<Rightarrow> real" where
  "norm3 v = sqrt (dot v v)"

text \<open>\<^verbatim>\<open>np.linspace(0, 1, num)\<close>.\<close>

definition linspace01 :: "nat \<Rightarrow> real list" where
  "linspace01 num =
     (if num = 0 then [] else if num = 1 then [0]
      else map (\<lambda>k. real k / real (num - 1)) [0..<num])"

subsection \<open>The surface, the library calls on it, and the state of the tool\<close>

datatype array = IntArray "int list" | VecArray "point list"

text \<open>A pyvista dataset: vertex positions, faces as vertex-id lists, named per-vertex arrays.\<close>

record polydata =
  points :: "point list"
  cells :: "nat list list"
  point_data :: "string \<rightharpoonup> array"
  is_unstructured :: bool

type_synonym actor = nat
type_synonym addr = nat

text \<open>
  The library calls the tool makes on a dataset are parameters of the model:
  \<^verbatim>\<open>mesh.find_closest_point(p)\<close>, \<^verbatim>\<open>cKDTree(points).query(p)\<close> and its
  \<^verbatim>\<open>k=5\<close> form, \<^verbatim>\<open>ray_trace\<close>, \<^verbatim>\<open>compute_normals(inplace=True)\<close> (the dataset
  as the call leaves it), and the filters \<^verbatim>\<open>extract_surface\<close>, \<^verbatim>\<open>threshold\<close>,
  \<^verbatim>\<open>connectivity\<close>, \<^verbatim>\<open>clean\<close>, each returning a new dataset. A call that can
  raise returns an option, None for the exception.

  Coordinates are real numbers. The one place where the tool turns a coordinate computation
  into a number of points is \<^verbatim>\<open>int(max(10, dist / 0.5))\<close> with
  \<^verbatim>\<open>dist = np.linalg.norm(p_b - p_a)\<close>: there the result depends on how the floating-point
  distance is rounded (a stored distance next to \<open>6\<close> gives 11 points or 12), so the
  distance as numpy returns it is a parameter too, \<open>point_dist p_a p_b\<close>. Dividing a
  float by \<open>0.5\<close> is exact.
\<close>

record env =
  find_closest_point :: "polydata \<Rightarrow> point \<Rightarrow> int"
  kd_query :: "point list \<Rightarrow> point \<Rightarrow> nat"
  kd_query_k :: "point list \<Rightarrow> point list \<Rightarrow> nat \<Rightarrow> nat list list option"
  ray_trace :: "polydata \<Rightarrow> point \<Rightarrow> point \<Rightarrow> point list option"
  compute_normals :: "polydata \<Rightarrow> polydata"
  extract_surface :: "polydata \<Rightarrow> polydata"
  threshold_value :: "polydata \<Rightarrow> real \<Rightarrow> string \<Rightarrow> bool \<Rightarrow> polydata option"
  threshold_range :: "polydata \<Rightarrow> real \<Rightarrow> real \<Rightarrow> string \<Rightarrow> polydata option"
  connectivity :: "polydata \<Rightarrow> polydata option"
  clean :: "polydata \<Rightarrow> polydata"
  point_dist :: "point \<Rightarrow> point \<Rightarrow> real"

text \<open>
  The fields of \<^verbatim>\<open>BezierMarkerTool\<close>, with the objects it holds references to:
  \<open>heap\<close> stores the datasets by address (\<open>mesh\<close> is \<^verbatim>\<open>self.mesh\<close>,
  \<open>target_dataset\<close> is \<^verbatim>\<open>self.target_actor.mapper.dataset\<close>, the displayed surface);
  an anchor's sphere actor is a handle token, \<open>actor_position\<close> its position and
  \<open>next_actor\<close> the next token \<^verbatim>\<open>plotter.add_mesh\<close> hands out.
\<close>

record tool =
  nodes :: "actor list"
  node_ids :: "int list"
  path_cache :: "(int \<times> int) \<rightharpoonup> point list"
  is_closed :: bool
  node_radius :: real
  mesh :: "addr option"
  target_dataset :: "addr option"
  heap :: "addr \<Rightarrow> polydata"
  next_addr :: addr
  actor_position :: "actor \<Rightarrow> point"
  next_actor :: actor

subsection \<open>Segment paths and their cache\<close>

definition invalidate_neighbors :: "int \<Rightarrow> tool \<Rightarrow> tool" where
  "invalidate_neighbors idx t = t\<lparr>path_cache := Map.empty\<rparr>"

text \<open>\<^verbatim>\<open>self.mesh.points[ids]\<close> for the indices the k-d tree returned.\<close>

definition take_points :: "point list \<Rightarrow> nat list \<Rightarrow> point list option" where
  "take_points P ids = those (map (\<lambda>i. if i < length P then Some (P ! i) else None) ids)"

definition interpolate :: "point \<Rightarrow> point \<Rightarrow> nat \<Rightarrow> point list" where
  "interpolate p_a p_b num = map (\<lambda>s. vadd p_a (smul s (vsub p_b p_a))) (linspace01 num)"

definition segment_num :: "env \<Rightarrow> point \<Rightarrow> point \<Rightarrow> nat" where
  "segment_num E p_a p_b = nat (py_int (max 10 (point_dist E p_a p_b / 0.5)))"

definition get_segment_points :: "env \<Rightarrow> int \<Rightarrow> int \<Rightarrow> tool \<Rightarrow> (point list, tool) result" where
  "get_segment_points E idx_a idx_b t =
     (case py_get (node_ids t) idx_a of None \<Rightarrow> Raise IndexError t | Some pid_a \<Rightarrow>
      case py_get (node_ids t) idx_b of None \<Rightarrow> Raise IndexError t | Some pid_b \<Rightarrow>
      let key = (min pid_a pid_b, max pid_a pid_b) in
      case path_cache t key of Some pts \<Rightarrow> Ok pts t | None \<Rightarrow>
      case mesh t of None \<Rightarrow> Raise AttributeError t | Some m \<Rightarrow>
      let P = points (heap t m) in
      case py_get P pid_a of None \<Rightarrow> Raise IndexError t | Some p_a \<Rightarrow>
      case py_get P pid_b of None \<Rightarrow> Raise IndexError t | Some p_b \<Rightarrow>
      let num = segment_num E p_a p_b;
          interp = interpolate p_a p_b num;
          ids = map (kd_query E P) interp
      in case take_points P ids of None \<Rightarrow> Raise IndexError t
         | Some snapped \<Rightarrow> Ok snapped (t\<lparr>path_cache := (path_cache t)(key \<mapsto> snapped)\<rparr>))"

text \<open>
  The loop of \<^verbatim>\<open>_get_full_path_points\<close> over \<^verbatim>\<open>range(rng)\<close>: every segment but
  the first loses its first point.
\<close>

fun full_path_loop ::
  "env \<Rightarrow> int \<Rightarrow> nat list \<Rightarrow> point list list \<Rightarrow> tool \<Rightarrow> (point list list, tool) result" where
  "full_path_loop E count [] full t = Ok full t"
| "full_path_loop E count (i # is) full t =
     (case get_segment_points E (int i) ((int i + 1) mod count) t of
        Raise e t' \<Rightarrow> Raise e t'
      | Ok pts t' \<Rightarrow> full_path_loop E count is (full @ [if full \<noteq> [] then tl pts else pts]) t')"

definition get_full_path_points :: "env \<Rightarrow> tool \<Rightarrow> (point list, tool) result" where
  "get_full_path_points E t =
     (if length (nodes t) < 2 then Ok [] t
      else let count = length (nodes t);
               rng = (if is_closed t then count else count - 1)
           in case full_path_loop E (int count) [0..<rng] [] t of
                Raise e t' \<Rightarrow> Raise e t'
              | Ok full t' \<Rightarrow> Ok (concat full) t')"

text \<open>\<^verbatim>\<open>update_curve\<close>: the path is recomputed (filling the cache), then drawn.\<close>

definition update_curve :: "env \<Rightarrow> tool \<Rightarrow> (unit, tool) result" where
  "update_curve E t =
     (case get_full_path_points E t of Raise e t' \<Rightarrow> Raise e t' | Ok pts t' \<Rightarrow> Ok () t')"

subsection \<open>The anchor store\<close>

definition internal_add_node :: "env \<Rightarrow> point \<Rightarrow> int \<Rightarrow> tool \<Rightarrow> (actor \<times> int, tool) result" where
  "internal_add_node E pos insert_after_idx t =
     (case mesh t of None \<Rightarrow> Raise AttributeError t | Some m \<Rightarrow>
      let pid = find_closest_point E (heap t m) pos in
      if node_ids t \<noteq> [] \<and> insert_after_idx = -1 \<and> last (node_ids t) = pid
      then (case py_get (nodes t) (-1) of None \<Rightarrow> Raise IndexError t
            | Some a \<Rightarrow> Ok (a, last (node_ids t)) t)
      else
        let actor = next_actor t;
            t1 = t\<lparr>next_actor := Suc actor\<rparr>
        in case py_get (points (heap t m)) pid of None \<Rightarrow> Raise IndexError t1 | Some p \<Rightarrow>
           let t2 = t1\<lparr>actor_position := (actor_position t1)(actor := p)\<rparr>;
               t3 = (if insert_after_idx \<noteq> -1
                     then let idx = insert_after_idx + 1 in
                          invalidate_neighbors idx (invalidate_neighbors insert_after_idx
                            (t2\<lparr>nodes := py_insert (nodes t2) idx actor,
                                node_ids := py_insert (node_ids t2) idx pid\<rparr>))
                     else t2\<lparr>nodes := nodes t2 @ [actor], node_ids := node_ids t2 @ [pid]\<rparr>)
           in case update_curve E t3 of Raise e t4 \<Rightarrow> Raise e t4
              | Ok u t4 \<Rightarrow> Ok (actor, pid) t4)"

text \<open>Only the ValueError of \<^verbatim>\<open>nodes.index\<close> is caught; any other exception leaves the method.\<close>

definition internal_remove_node_by_actor :: "env \<Rightarrow> actor \<Rightarrow> tool \<Rightarrow> (unit, tool) result" where
  "internal_remove_node_by_actor E actor t =
     (case py_index (nodes t) actor of None \<Rightarrow> Ok () t | Some idx \<Rightarrow>
      let t1 = invalidate_neighbors (int idx - 1) t;
          t2 = t1\<lparr>nodes := take idx (nodes t1) @ drop (Suc idx) (nodes t1)\<rparr>
      in case py_pop (node_ids t2) idx of None \<Rightarrow> Raise IndexError t2 | Some ids \<Rightarrow>
         let t3 = t2\<lparr>node_ids := ids\<rparr>;
             t4 = (if length (nodes t3) < 3 then t3\<lparr>is_closed := False\<rparr> else t3)
         in update_curve E t4)"

definition internal_restore_node ::
  "env \<Rightarrow> actor \<Rightarrow> int \<Rightarrow> int \<Rightarrow> bool \<Rightarrow> tool \<Rightarrow> (unit, tool) result" where
  "internal_restore_node E actor pid idx was_closed t =
     (let t1 = t\<lparr>nodes := py_insert (nodes t) idx actor,
                 node_ids := py_insert (node_ids t) idx pid,
                 is_closed := was_closed\<rparr>;
          t2 = invalidate_neighbors idx (invalidate_neighbors (idx - 1) t1)
      in update_curve E t2)"

text \<open>The bare \<^verbatim>\<open>except: pass\<close> swallows every exception and keeps what was done before it.\<close>

definition internal_update_node_pos :: "env \<Rightarrow> actor \<Rightarrow> point \<Rightarrow> int \<Rightarrow> tool \<Rightarrow> (unit, tool) result" where
  "internal_update_node_pos E actor pos pid t =
     (let t1 = t\<lparr>actor_position := (actor_position t)(actor := pos)\<rparr> in
      case py_index (nodes t1) actor of None \<Rightarrow> Ok () t1 | Some idx \<Rightarrow>
      case py_set (node_ids t1) (int idx) pid of None \<Rightarrow> Ok () t1 | Some ids \<Rightarrow>
      let t2 = invalidate_neighbors (int idx) (invalidate_neighbors (int idx - 1)
                 (t1\<lparr>node_ids := ids\<rparr>))
      in Ok () (state_of (update_curve E t2)))"

definition internal_hard_reset :: "bool \<Rightarrow> tool \<Rightarrow> tool" where
  "internal_hard_reset keep_actors t =
     t\<lparr>nodes := [], node_ids := [], path_cache := Map.empty, is_closed := False\<rparr>"

text \<open>
  The loop of \<^verbatim>\<open>_internal_restore_full_state\<close>: the actor is appended first, then
  \<^verbatim>\<open>ids_list[i]\<close> is read, an IndexError when the id list is the shorter one (the actor
  just appended stays in \<^verbatim>\<open>nodes\<close>).
\<close>

fun restore_loop :: "(nat \<times> actor) list \<Rightarrow> int list \<Rightarrow> tool \<Rightarrow> (unit, tool) result" where
  "restore_loop [] ids_list t = Ok () t"
| "restore_loop ((i, a) # rest) ids_list t =
     (let t1 = t\<lparr>nodes := nodes t @ [a]\<rparr> in
      case py_get ids_list (int i) of None \<Rightarrow> Raise IndexError t1
      | Some pid \<Rightarrow> restore_loop rest ids_list (t1\<lparr>node_ids := node_ids t1 @ [pid]\<rparr>))"

definition internal_restore_full_state ::
  "env \<Rightarrow> actor list \<Rightarrow> int list \<Rightarrow> bool \<Rightarrow> tool \<Rightarrow> (unit, tool) result" where
  "internal_restore_full_state E nodes_list ids_list closed_state t =
     (case restore_loop (enumerate 0 nodes_list) ids_list (internal_hard_reset True t) of
        Raise e t1 \<Rightarrow> Raise e t1
      | Ok u t1 \<Rightarrow> update_curve E (t1\<lparr>is_closed := closed_state\<rparr>))"

subsection \<open>Commands and the command manager\<close>

text \<open>
  A command object with the fields its constructor captured. \<^verbatim>\<open>BezierCmdAdd\<close> holds
  \<open>pos\<close>, \<open>insert_idx\<close>, \<open>added_actor\<close>, \<open>added_pid\<close>, \<open>final_idx\<close>;
  \<^verbatim>\<open>BezierCmdDelete\<close> holds \<open>actor\<close>, \<open>idx\<close>, \<open>pid\<close>, \<open>pos\<close>, \<open>was_closed\<close>;
  \<^verbatim>\<open>BezierCmdMove\<close> holds \<open>actor\<close>, \<open>old_pos\<close>, \<open>new_pos\<close>, \<open>old_pid\<close>,
  \<open>new_pid\<close>; \<^verbatim>\<open>BezierCmdCloseLoop\<close> holds \<open>prev_state\<close>; \<^verbatim>\<open>BezierCmdClear\<close>
  holds \<open>saved_nodes\<close>, \<open>saved_ids\<close>, \<open>saved_closed\<close>.
\<close>

datatype cmd =
    BezierCmdAdd point int "actor option" "int option" int
  | BezierCmdDelete actor int int point bool
  | BezierCmdMove actor point point int int
  | BezierCmdCloseLoop bool
  | BezierCmdClear "actor list" "int list" bool

definition new_BezierCmdAdd :: "point \<Rightarrow> int \<Rightarrow> cmd" where
  "new_BezierCmdAdd position insert_idx = BezierCmdAdd position insert_idx None None (-1)"

text \<open>The constructor reads \<^verbatim>\<open>tool.node_ids[self.idx]\<close>, which can raise (None).\<close>

definition new_BezierCmdDelete :: "tool \<Rightarrow> actor \<Rightarrow> cmd option" where
  "new_BezierCmdDelete t actor =
     (let idx = (case py_index (nodes t) actor of None \<Rightarrow> -1 | Some k \<Rightarrow> int k) in
      if idx \<noteq> -1
      then (case py_get (node_ids t) idx of None \<Rightarrow> None
            | Some pid \<Rightarrow> Some (BezierCmdDelete actor idx pid (actor_position t actor) (is_closed t)))
      else Some (BezierCmdDelete actor idx (-1) (actor_position t actor) (is_closed t)))"

definition new_BezierCmdCloseLoop :: "tool \<Rightarrow> cmd" where
  "new_BezierCmdCloseLoop t = BezierCmdCloseLoop (is_closed t)"

definition new_BezierCmdClear :: "tool \<Rightarrow> cmd" where
  "new_BezierCmdClear t = BezierCmdClear (nodes t) (node_ids t) (is_closed t)"

text \<open>\<^verbatim>\<open>execute\<close> returns the command as it left it (\<^verbatim>\<open>BezierCmdAdd\<close> records what it added).\<close>

fun execute :: "env \<Rightarrow> cmd \<Rightarrow> tool \<Rightarrow> (cmd, tool) result" where
  "execute E (BezierCmdAdd pos insert_idx added_actor added_pid final_idx) t =
     (case internal_add_node E pos insert_idx t of
        Raise e t' \<Rightarrow> Raise e t'
      | Ok (a, pid) t' \<Rightarrow>
          (case py_index (nodes t') a of None \<Rightarrow> Raise ValueError t'
           | Some k \<Rightarrow> Ok (BezierCmdAdd pos insert_idx (Some a) (Some pid) (int k)) t'))"
| "execute E (BezierCmdDelete actor idx pid pos was_closed) t =
     (case internal_remove_node_by_actor E actor t of
        Raise e t' \<Rightarrow> Raise e t'
      | Ok u t' \<Rightarrow> Ok (BezierCmdDelete actor idx pid pos was_closed) t')"
| "execute E (BezierCmdMove actor old_pos new_pos old_pid new_pid) t =
     (case internal_update_node_pos E actor new_pos new_pid t of
        Raise e t' \<Rightarrow> Raise e t'
      | Ok u t' \<Rightarrow> Ok (BezierCmdMove actor old_pos new_pos old_pid new_pid) t')"
| "execute E (BezierCmdCloseLoop prev_state) t =
     (case update_curve E (t\<lparr>is_closed := True\<rparr>) of
        Raise e t' \<Rightarrow> Raise e t'
      | Ok u t' \<Rightarrow> Ok (BezierCmdCloseLoop prev_state) t')"
| "execute E (BezierCmdClear saved_nodes saved_ids saved_closed) t =
     Ok (BezierCmdClear saved_nodes saved_ids saved_closed) (internal_hard_reset False t)"

fun undo :: "env \<Rightarrow> cmd \<Rightarrow> tool \<Rightarrow> (unit, tool) result" where
  "undo E (BezierCmdAdd pos insert_idx added_actor added_pid final_idx) t =
     (case added_actor of None \<Rightarrow> Ok () t
      | Some a \<Rightarrow> internal_remove_node_by_actor E a t)"
| "undo E (BezierCmdDelete actor idx pid pos was_closed) t =
     (if idx \<noteq> -1 then internal_restore_node E actor pid idx was_closed t else Ok () t)"
| "undo E (BezierCmdMove actor old_pos new_pos old_pid new_pid) t =
     internal_update_node_pos E actor old_pos old_pid t"
| "undo E (BezierCmdCloseLoop prev_state) t = update_curve E (t\<lparr>is_closed := prev_state\<rparr>)"
| "undo E (BezierCmdClear saved_nodes saved_ids saved_closed) t =
     internal_restore_full_state E saved_nodes saved_ids saved_closed t"

text \<open>The \<^verbatim>\<open>CommandManager\<close> with the tool its commands act on.\<close>

record app =
  undo_stack :: "cmd list"
  redo_stack :: "cmd list"
  bezier :: tool

definition cm_execute :: "env \<Rightarrow> cmd \<Rightarrow> app \<Rightarrow> (unit, app) result" where
  "cm_execute E command a =
     (case execute E command (bezier a) of
        Raise e t' \<Rightarrow> Raise e (a\<lparr>bezier := t'\<rparr>)
      | Ok command' t' \<Rightarrow>
          Ok () (a\<lparr>bezier := t', undo_stack := undo_stack a @ [command'], redo_stack := []\<rparr>))"

definition cm_undo :: "env \<Rightarrow> app \<Rightarrow> (unit, app) result" where
  "cm_undo E a =
     (if undo_stack a = [] then Ok () a
      else let command = last (undo_stack a);
               a1 = a\<lparr>undo_stack := butlast (undo_stack a)\<rparr>
           in case undo E command (bezier a1) of
                Raise e t' \<Rightarrow> Raise e (a1\<lparr>bezier := t'\<rparr>)
              | Ok u t' \<Rightarrow> Ok () (a1\<lparr>bezier := t', redo_stack := redo_stack a1 @ [command]\<rparr>))"

definition cm_redo :: "env \<Rightarrow> app \<Rightarrow> (unit, app) result" where
  "cm_redo E a =
     (if redo_stack a = [] then Ok () a
      else let command = last (redo_stack a);
               a1 = a\<lparr>redo_stack := butlast (redo_stack a)\<rparr>
           in case execute E command (bezier a1) of
                Raise e t' \<Rightarrow> Raise e (a1\<lparr>bezier := t'\<rparr>)
              | Ok command' t' \<Rightarrow>
                  Ok () (a1\<lparr>bezier := t', undo_stack := undo_stack a1 @ [command']\<rparr>))"

text \<open>The public methods of the tool that issue commands.\<close>

definition add_node_at :: "env \<Rightarrow> point \<Rightarrow> int \<Rightarrow> app \<Rightarrow> (unit, app) result" where
  "add_node_at E world_pos insert_idx a = cm_execute E (new_BezierCmdAdd world_pos insert_idx) a"

definition delete_node_cmd :: "env \<Rightarrow> actor \<Rightarrow> app \<Rightarrow> (unit, app) result" where
  "delete_node_cmd E actor a =
     (case new_BezierCmdDelete (bezier a) actor of None \<Rightarrow> Raise IndexError a
      | Some command \<Rightarrow> cm_execute E command a)"

definition close_loop :: "env \<Rightarrow> app \<Rightarrow> (unit, app) result" where
  "close_loop E a =
     (if length (nodes (bezier a)) > 2 \<and> \<not> is_closed (bezier a)
      then cm_execute E (new_BezierCmdCloseLoop (bezier a)) a
      else Ok () a)"

definition clear_markup_cmd :: "tool \<Rightarrow> cmd" where
  "clear_markup_cmd t = new_BezierCmdClear t"

subsection \<open>Resolving where a click inserts\<close>

definition dist_sq_to_segment :: "point \<Rightarrow> point \<Rightarrow> point \<Rightarrow> real" where
  "dist_sq_to_segment p a b =
     (let ab = vsub b a; ap = vsub p a; len_sq = dot ab ab in
      if len_sq = 0 then dot ap ap
      else let t = max 0 (min 1 (dot ap ab / len_sq));
               projection = vadd a (smul t ab);
               dist_vec = vsub p projection
           in dot dist_vec dist_vec)"

text \<open>
  The running pair \<^verbatim>\<open>(best_idx, min_dist_sq)\<close>; \<^verbatim>\<open>float('inf')\<close> is None. The inner
  loop visits the consecutive pairs \<^verbatim>\<open>pts[k], pts[k+1]\<close>.
\<close>

fun scan_polyline :: "point \<Rightarrow> int \<Rightarrow> point list \<Rightarrow> int \<times> real option \<Rightarrow> int \<times> real option" where
  "scan_polyline hit i (p # q # rest) (best_idx, min_dist_sq) =
     (let d_sq = dist_sq_to_segment hit p q in
      scan_polyline hit i (q # rest)
        (if (case min_dist_sq of None \<Rightarrow> True | Some m \<Rightarrow> d_sq < m)
         then (i, Some d_sq) else (best_idx, min_dist_sq)))"
| "scan_polyline hit i pts acc = acc"

fun resolve_loop ::
  "env \<Rightarrow> point \<Rightarrow> int \<Rightarrow> nat list \<Rightarrow> int \<times> real option \<Rightarrow> tool \<Rightarrow> (int \<times> real option, tool) result" where
  "resolve_loop E hit count [] acc t = Ok acc t"
| "resolve_loop E hit count (i # is) acc t =
     (case get_segment_points E (int i) ((int i + 1) mod count) t of
        Raise e t' \<Rightarrow> Raise e t'
      | Ok pts t' \<Rightarrow>
          resolve_loop E hit count is
            (if length pts < 2 then acc else scan_polyline hit (int i) pts acc) t')"

definition resolve_insertion_index :: "env \<Rightarrow> point \<Rightarrow> tool \<Rightarrow> (int, tool) result" where
  "resolve_insertion_index E hit_pos t =
     (if length (nodes t) < 2 then Ok (-1) t
      else let threshold_sq = (node_radius t * 3.5)\<^sup>2;
               count = length (nodes t);
               loop_range = (if is_closed t then count else count - 1)
           in case resolve_loop E hit_pos (int count) [0..<loop_range] (-1, None) t of
                Raise e t' \<Rightarrow> Raise e t'
              | Ok (best_idx, min_dist_sq) t' \<Rightarrow>
                  (case min_dist_sq of
                     None \<Rightarrow> Ok (-1) t'
                   | Some m \<Rightarrow> if m < threshold_sq then Ok best_idx t' else Ok (-1) t'))"

subsection \<open>Region extraction\<close>

fun cross :: "point \<Rightarrow> point \<Rightarrow> point" where
  "cross (x1, y1, z1) (x2, y2, z2) = (y1 * z2 - z1 * y2, z1 * x2 - x1 * z2, x1 * y2 - y1 * x2)"

text \<open>\<^verbatim>\<open>np.mean(pts, axis=0)\<close>.\<close>

definition mean_point :: "point list \<Rightarrow> point" where
  "mean_point pts = smul (1 / real (length pts)) (foldr vadd pts (0, 0, 0))"

text \<open>The centre of the path and the unit normal of the loop, flipped to point up.\<close>

definition loop_normal :: "point list \<Rightarrow> point \<times> point" where
  "loop_normal raw_path_points =
     (let center = mean_point raw_path_points;
          v1 = vsub (raw_path_points ! 0) center;
          v2 = vsub (raw_path_points ! (length raw_path_points div 3)) center;
          normal = cross v1 v2;
          norm_mag = norm3 normal;
          normal1 = (if norm_mag < 1 / 1000000 then (0, 0, 1) else smul (1 / norm_mag) normal);
          normal2 = (if snd (snd normal1) < 0 then smul (-1) normal1 else normal1)
      in (center, normal2))"

text \<open>
  Among the candidates of one path point, the first whose vertex normal is not opposed to the
  loop normal; the first candidate when there is none.
\<close>

fun pick_candidate :: "point list \<Rightarrow> point \<Rightarrow> nat list \<Rightarrow> nat \<Rightarrow> nat" where
  "pick_candidate mesh_normals normal [] best_pid = best_pid"
| "pick_candidate mesh_normals normal (pid # rest) best_pid =
     (if pid < length mesh_normals \<and> dot (mesh_normals ! pid) normal > - 0.2 then pid
      else pick_candidate mesh_normals normal rest best_pid)"

fun clean_path_loop :: "point list \<Rightarrow> point \<Rightarrow> nat list list \<Rightarrow> nat list option" where
  "clean_path_loop mesh_normals normal [] = Some []"
| "clean_path_loop mesh_normals normal (pt_candidates # rest) =
     (case pt_candidates of [] \<Rightarrow> None
      | c0 # cs \<Rightarrow>
          (case clean_path_loop mesh_normals normal rest of None \<Rightarrow> None
           | Some ids \<Rightarrow> Some (pick_candidate mesh_normals normal pt_candidates c0 # ids)))"

text \<open>\<^verbatim>\<open>mesh.point_cell_ids(p)\<close> with \<^verbatim>\<open>GetCell\<close>: the faces that contain vertex \<open>p\<close>.\<close>

definition point_cells :: "nat list list \<Rightarrow> nat \<Rightarrow> nat list list" where
  "point_cells cs p = filter (\<lambda>c. p \<in> set c) cs"

text \<open>
  The breadth-first search of \<^verbatim>\<open>_make_barrier_watertight\<close>. Its state is the queue of
  \<^verbatim>\<open>(vertex, path)\<close> pairs, the visited vertices and \<^verbatim>\<open>found\<close>; \<^verbatim>\<open>if found\<close> is
  true for a non-empty path only.
\<close>

type_synonym bfs_state = "(nat \<times> nat list) list \<times> nat list \<times> nat list option"

fun truthy :: "nat list option \<Rightarrow> bool" where
  "truthy (Some (x # xs)) = True"
| "truthy _ = False"

fun scan_cell :: "nat \<Rightarrow> nat list \<Rightarrow> nat list \<Rightarrow> bfs_state \<Rightarrow> bfs_state" where
  "scan_cell e [] path st = st"
| "scan_cell e (neigh # rest) path (q, vis, found) =
     (if neigh = e then (q, vis, Some path)
      else if neigh \<notin> set vis
           then scan_cell e rest path (q @ [(neigh, path @ [neigh])], vis @ [neigh], found)
           else scan_cell e rest path (q, vis, found))"

fun scan_cells :: "nat \<Rightarrow> nat list list \<Rightarrow> nat list \<Rightarrow> bfs_state \<Rightarrow> bfs_state" where
  "scan_cells e [] path st = st"
| "scan_cells e (cell # rest) path st =
     (let st' = scan_cell e cell path st in
      if truthy (snd (snd st')) then st' else scan_cells e rest path st')"

function bfs :: "nat list list \<Rightarrow> nat \<Rightarrow> bfs_state \<Rightarrow> nat list option" where
  "bfs cs e ([], vis, found) = found"
| "bfs cs e ((cur, path) # q, vis, found) =
     (if length path > 20 then bfs cs e (q, vis, found)
      else let st' = scan_cells e (point_cells cs cur) path (q, vis, found) in
           if truthy (snd (snd st')) then snd (snd st') else bfs cs e st')"
  by pat_completeness auto

text \<open>Termination: a step either shortens the queue or moves vertices of the mesh into \<open>vis\<close>.\<close>

lemma scan_cell_measure:
  assumes "finite U" "set cell \<subseteq> U" "scan_cell e cell path (q, vis, found) = (q', vis', found')"
  shows "2 * card (U - set vis') + length q' \<le> 2 * card (U - set vis) + length q"
  using assms(2,3)
proof (induction cell arbitrary: q vis found)
  case Nil
  then show ?case by simp
next
  case (Cons neigh rest)
  show ?case
  proof (cases "neigh = e")
    case True
    with Cons.prems show ?thesis by simp
  next
    case ne: False
    show ?thesis
    proof (cases "neigh \<in> set vis")
      case True
      with ne Cons.prems have "scan_cell e rest path (q, vis, found) = (q', vis', found')" by simp
      with Cons.IH Cons.prems(1) show ?thesis by simp
    next
      case False
      with ne Cons.prems have eq:
        "scan_cell e rest path (q @ [(neigh, path @ [neigh])], vis @ [neigh], found) = (q', vis', found')"
        by simp
      have rest: "set rest \<subseteq> U" using Cons.prems(1) by simp
      have
        le: "2 * card (U - set vis') + length q'
             \<le> 2 * card (U - set (vis @ [neigh])) + length (q @ [(neigh, path @ [neigh])])"
        by (rule Cons.IH[OF rest eq])
      have mem: "neigh \<in> U - set vis" using False Cons.prems(1) by simp
      have "U - set (vis @ [neigh]) = (U - set vis) - {neigh}" by auto
      then have "card (U - set (vis @ [neigh])) = card (U - set vis) - 1"
        using mem assms(1) by simp
      moreover have "card (U - set vis) \<ge> 1"
        using mem assms(1) by (metis One_nat_def Suc_leI card_gt_0_iff empty_iff finite_Diff)
      ultimately show ?thesis using le by simp
    qed
  qed
qed

lemma scan_cells_measure:
  assumes "finite U" "\<forall>c \<in> set cls. set c \<subseteq> U"
    "scan_cells e cls path (q, vis, found) = (q', vis', found')"
  shows "2 * card (U - set vis') + length q' \<le> 2 * card (U - set vis) + length q"
  using assms(2,3)
proof (induction cls arbitrary: q vis found)
  case Nil
  then show ?case by simp
next
  case (Cons cell rest)
  obtain q1 vis1 found1 where st1: "scan_cell e cell path (q, vis, found) = (q1, vis1, found1)"
    by (metis prod_cases3)
  have m1: "2 * card (U - set vis1) + length q1 \<le> 2 * card (U - set vis) + length q"
    using scan_cell_measure[OF assms(1) _ st1] Cons.prems(1) by simp
  show ?case
  proof (cases "truthy found1")
    case True
    with st1 Cons.prems(2) have "(q', vis', found') = (q1, vis1, found1)" by (simp add: Let_def)
    with m1 show ?thesis by simp
  next
    case False
    with st1 Cons.prems(2) have "scan_cells e rest path (q1, vis1, found1) = (q', vis', found')"
      by (simp add: Let_def)
    with Cons.IH Cons.prems(1) have
      "2 * card (U - set vis') + length q' \<le> 2 * card (U - set vis1) + length q1" by simp
    with m1 show ?thesis by linarith
  qed
qed

termination bfs
proof (relation "measure (\<lambda>(cs, e, q, vis, found). 2 * card (\<Union>(set ` set cs) - set vis) + length q)")
  show "wf (measure (\<lambda>(cs, e, q, vis, found). 2 * card (\<Union>(set ` set cs) - set vis) + length q))"
    by simp
next
  fix cs :: "nat list list" and e cur :: nat and path :: "nat list"
    and q :: "(nat \<times> nat list) list" and vis :: "nat list" and found :: "nat list option"
  show "((cs, e, q, vis, found), (cs, e, (cur, path) # q, vis, found))
        \<in> measure (\<lambda>(cs, e, q, vis, found). 2 * card (\<Union>(set ` set cs) - set vis) + length q)"
    by simp
next
  fix cs :: "nat list list" and e cur :: nat and path :: "nat list"
    and q :: "(nat \<times> nat list) list" and vis :: "nat list" and found :: "nat list option"
    and st' :: bfs_state
  assume st: "st' = scan_cells e (point_cells cs cur) path (q, vis, found)"
  obtain q1 vis1 found1 where st1: "st' = (q1, vis1, found1)" by (metis prod_cases3)
  have fin: "finite (\<Union>(set ` set cs))" by simp
  have sub: "\<forall>c \<in> set (point_cells cs cur). set c \<subseteq> \<Union>(set ` set cs)"
    by (auto simp: point_cells_def)
  have "2 * card (\<Union>(set ` set cs) - set vis1) + length q1
        \<le> 2 * card (\<Union>(set ` set cs) - set vis) + length q"
    using scan_cells_measure[OF fin sub] st st1 by metis
  then show "(( cs, e, st'), (cs, e, (cur, path) # q, vis, found))
        \<in> measure (\<lambda>(cs, e, q, vis, found). 2 * card (\<Union>(set ` set cs) - set vis) + length q)"
    using st1 by simp
qed

text \<open>\<^verbatim>\<open>ordered_ids\<close>: the path ids without immediate repetitions.\<close>

fun ordered_loop :: "nat list \<Rightarrow> nat list \<Rightarrow> nat list" where
  "ordered_loop ordered_ids [] = ordered_ids"
| "ordered_loop ordered_ids (pid # rest) =
     ordered_loop (if pid \<noteq> last ordered_ids then ordered_ids @ [pid] else ordered_ids) rest"

text \<open>
  The loop over consecutive barrier vertices \<open>s\<close>, \<open>e\<close>: vertices sharing a face are
  connected already, otherwise the path the search found is added to \<open>final\<close>.
\<close>

fun barrier_loop :: "nat list list \<Rightarrow> nat list \<Rightarrow> nat list \<Rightarrow> nat list" where
  "barrier_loop cs (s # e # rest) final =
     barrier_loop cs (e # rest)
       (if (\<exists>c \<in> set cs. s \<in> set c \<and> e \<in> set c) then final
        else (case bfs cs e ([(s, [])], [s], None) of
                Some (x # xs) \<Rightarrow> final @ (x # xs)
              | _ \<Rightarrow> final))"
| "barrier_loop cs ids final = final"

text \<open>The returned set is given by the list of its elements.\<close>

definition make_barrier_watertight :: "nat list list \<Rightarrow> nat list \<Rightarrow> nat list" where
  "make_barrier_watertight cs initial_ids =
     (case initial_ids of [] \<Rightarrow> []
      | i0 # rest \<Rightarrow> let ordered_ids = ordered_loop [i0] rest in barrier_loop cs ordered_ids ordered_ids)"

text \<open>
  Steps 5 to 7 after the barrier array is stored: the cut, the connectivity labelling, the
  region nearest to the seed, and the size check. \<open>M\<close> is the dataset \<^verbatim>\<open>self.mesh\<close>.
\<close>

definition region_after_cut :: "env \<Rightarrow> point \<Rightarrow> polydata \<Rightarrow> tool \<Rightarrow> (polydata option, tool) result" where
  "region_after_cut E seed_coords M t =
     (case threshold_value E M 0.5 ''is_barrier'' True of None \<Rightarrow> Raise LibraryError t
      | Some cut_mesh \<Rightarrow>
     case connectivity E cut_mesh of None \<Rightarrow> Raise LibraryError t | Some conn \<Rightarrow>
     let closest_idx = kd_query E (points conn) seed_coords in
     case point_data conn ''RegionId'' of
       None \<Rightarrow> Raise KeyError t
     | Some (VecArray vs) \<Rightarrow> Raise LibraryError t
     | Some (IntArray region_ids) \<Rightarrow>
     case py_get region_ids (int closest_idx) of None \<Rightarrow> Raise IndexError t
     | Some target_region \<Rightarrow>
     case threshold_range E conn (real_of_int target_region - 0.1)
            (real_of_int target_region + 0.1) ''RegionId'' of
       None \<Rightarrow> Raise LibraryError t
     | Some sel \<Rightarrow>
         let final_selection = clean E (extract_surface E sel) in
         if length (points final_selection) < 10 then Ok None t else Ok (Some final_selection) t)"

text \<open>
  The first step of \<^verbatim>\<open>get_selected_region\<close> on a closed loop: \<^verbatim>\<open>self.mesh\<close> becomes the
  dataset of the target actor, or a new surface extracted from it when that is an
  \<^verbatim>\<open>UnstructuredGrid\<close>.
\<close>

definition select_current_mesh :: "env \<Rightarrow> tool \<Rightarrow> tool" where
  "select_current_mesh E t =
     (case target_dataset t of None \<Rightarrow> t
      | Some d \<Rightarrow>
          if is_unstructured (heap t d)
          then t\<lparr>heap := (heap t)(next_addr t := extract_surface E (heap t d)),
                 mesh := Some (next_addr t), next_addr := Suc (next_addr t)\<rparr>
          else t\<lparr>mesh := Some d\<rparr>)"

text \<open>
  Steps 3 to 5 on the dataset \<open>m\<close> that \<^verbatim>\<open>self.mesh\<close> refers to: vertex normals are
  computed in place when the dataset has none, the candidates are filtered, the barrier is
  closed, and the array \<^verbatim>\<open>is_barrier\<close> is stored in the point data of the dataset.
\<close>

definition mark_barrier ::
  "env \<Rightarrow> addr \<Rightarrow> point \<Rightarrow> point \<Rightarrow> nat list list \<Rightarrow> tool \<Rightarrow> (polydata option, tool) result" where
  "mark_barrier E m normal seed_coords candidates t2 =
     (let t3 = (if point_data (heap t2 m) ''Normals'' = None
                then t2\<lparr>heap := (heap t2)(m := compute_normals E (heap t2 m))\<rparr>
                else t2)
      in case point_data (heap t3 m) ''Normals'' of
           None \<Rightarrow> Raise KeyError t3
         | Some (IntArray xs) \<Rightarrow> Raise LibraryError t3
         | Some (VecArray mesh_normals) \<Rightarrow>
         case clean_path_loop mesh_normals normal candidates of
           None \<Rightarrow> Raise IndexError t3
         | Some clean_path_ids \<Rightarrow>
         let barrier_ids = make_barrier_watertight (cells (heap t3 m)) clean_path_ids;
             n_points = length (points (heap t3 m));
             scalars = map (\<lambda>i. if i \<in> set barrier_ids then 1 else 0) [0..<n_points];
             t4 = t3\<lparr>heap := (heap t3)(m := (heap t3 m)
                    \<lparr>point_data := (point_data (heap t3 m))(''is_barrier'' \<mapsto> IntArray scalars)\<rparr>)\<rparr>
         in region_after_cut E seed_coords (heap t4 m) t4)"

definition get_selected_region :: "env \<Rightarrow> tool \<Rightarrow> (polydata option, tool) result" where
  "get_selected_region E t =
     (if \<not> is_closed t then Ok None t
      else
        let t1 = select_current_mesh E t
        in case mesh t1 of None \<Rightarrow> Ok None t1 | Some m \<Rightarrow>
           case get_full_path_points E t1 of Raise e t2 \<Rightarrow> Raise e t2 | Ok raw_path_points t2 \<Rightarrow>
           if length raw_path_points < 3 then Ok None t2
           else
             let center = fst (loop_normal raw_path_points);
                 normal = snd (loop_normal raw_path_points);
                 ray_start = vadd center (smul 200 normal);
                 ray_end = vsub center (smul 200 normal)
             in case ray_trace E (heap t2 m) ray_start ray_end of None \<Rightarrow> Ok None t2
                | Some pts \<Rightarrow>
                let seed_coords = (if length pts > 0 then hd pts else center) in
                case kd_query_k E (points (heap t2 m)) raw_path_points 5 of None \<Rightarrow> Ok None t2
                | Some candidates \<Rightarrow> mark_barrier E m normal seed_coords candidates t2)"

text \<open>\<^verbatim>\<open>clear_all_markup\<close>.\<close>

definition clear_all_markup :: "tool \<Rightarrow> tool" where
  "clear_all_markup t = internal_hard_reset False t"

subsection \<open>Well-formed states\<close>

text \<open>
  What a session that went through \<^verbatim>\<open>start()\<close> maintains: the two anchor lists have the
  same length, the tool has a mesh, the library returns vertex indices of that mesh, and every
  anchor's vertex id is one.
\<close>

definition env_ok :: "env \<Rightarrow> polydata \<Rightarrow> bool" where
  "env_ok E M \<longleftrightarrow>
     (\<forall>q. 0 \<le> find_closest_point E M q \<and> find_closest_point E M q < int (length (points M))) \<and>
     (\<forall>q. kd_query E (points M) q < length (points M))"

definition wf :: "env \<Rightarrow> tool \<Rightarrow> bool" where
  "wf E t \<longleftrightarrow>
     length (nodes t) = length (node_ids t) \<and>
     (case mesh t of None \<Rightarrow> False
      | Some m \<Rightarrow> env_ok E (heap t m) \<and>
          (\<forall>p \<in> set (node_ids t). 0 \<le> p \<and> p < int (length (points (heap t m)))))"

subsection \<open>A brute-force surface provider for the examples\<close>

text \<open>
  The examples run the tool on a flat surface in the plane \<open>z = 0\<close>, with the library calls
  computed by exhaustive search: nearest vertices by comparing all squared distances, the ray
  hit by intersecting with the plane, thresholding by dropping vertices and the faces that
  use them, region ids by propagating the least vertex index along faces. The distance of two
  vertices is the exact one: the examples have vertices with small dyadic coordinates and
  distances (3, 4, 5, 43/8), which floating-point arithmetic computes without rounding.
\<close>

definition dist_sq :: "point \<Rightarrow> point \<Rightarrow> real" where
  "dist_sq p q = dot (vsub p q) (vsub p q)"

fun nearest_index :: "point list \<Rightarrow> point \<Rightarrow> nat" where
  "nearest_index [] q = 0"
| "nearest_index [p] q = 0"
| "nearest_index (p # ps) q =
     (let k = nearest_index ps q in if dist_sq p q \<le> dist_sq (ps ! k) q then 0 else Suc k)"

definition k_nearest :: "point list \<Rightarrow> nat \<Rightarrow> point \<Rightarrow> nat list" where
  "k_nearest P k q =
     take k (sort_key (\<lambda>i. dist_sq (P ! i) q) [0..<length P] @ replicate k (length P))"

definition ray_plane :: "point \<Rightarrow> point \<Rightarrow> point list" where
  "ray_plane a b =
     (let az = snd (snd a); bz = snd (snd b) in
      if az = bz then []
      else let s = az / (az - bz) in
           if 0 \<le> s \<and> s \<le> 1 then [vadd a (smul s (vsub b a))] else [])"

fun restrict_array :: "nat list \<Rightarrow> array \<Rightarrow> array" where
  "restrict_array keep (IntArray xs) = IntArray (map (\<lambda>i. xs ! i) keep)"
| "restrict_array keep (VecArray vs) = VecArray (map (\<lambda>i. vs ! i) keep)"

definition restrict_vertices :: "polydata \<Rightarrow> nat list \<Rightarrow> polydata" where
  "restrict_vertices M keep =
     \<lparr>points = map (\<lambda>i. points M ! i) keep,
      cells = map (map (\<lambda>i. the (py_index keep i)))
                (filter (\<lambda>c. \<forall>i \<in> set c. i \<in> set keep) (cells M)),
      point_data = (\<lambda>name. map_option (restrict_array keep) (point_data M name)),
      is_unstructured = True\<rparr>"

definition keep_by :: "polydata \<Rightarrow> string \<Rightarrow> (real \<Rightarrow> bool) \<Rightarrow> polydata option" where
  "keep_by M name pass =
     (case point_data M name of
        Some (IntArray xs) \<Rightarrow>
          Some (restrict_vertices M (filter (\<lambda>i. pass (real_of_int (xs ! i))) [0..<length (points M)]))
      | _ \<Rightarrow> None)"

definition relabel :: "nat list list \<Rightarrow> nat list \<Rightarrow> nat list" where
  "relabel cs lab =
     map (\<lambda>i. fold (\<lambda>c m. if i \<in> set c then fold (\<lambda>j. min (lab ! j)) c m else m) cs (lab ! i))
       [0..<length lab]"

definition region_labels :: "polydata \<Rightarrow> polydata" where
  "region_labels M =
     M\<lparr>point_data := (point_data M)(''RegionId'' \<mapsto>
          IntArray (map int (((relabel (cells M)) ^^ length (points M)) [0..<length (points M)])))\<rparr>"

definition flat_env :: env where
  "flat_env =
     \<lparr>find_closest_point = (\<lambda>M q. int (nearest_index (points M) q)),
      kd_query = nearest_index,
      kd_query_k = (\<lambda>P qs k. if P = [] then None else Some (map (k_nearest P k) qs)),
      ray_trace = (\<lambda>M a b. Some (ray_plane a b)),
      compute_normals = (\<lambda>M. M\<lparr>point_data := (point_data M)(''Normals'' \<mapsto>
                            VecArray (replicate (length (points M)) (0, 0, 1)))\<rparr>),
      extract_surface = (\<lambda>M. M\<lparr>is_unstructured := False\<rparr>),
      threshold_value = (\<lambda>M v name invert. keep_by M name (\<lambda>x. if invert then x \<le> v else v \<le> x)),
      threshold_range = (\<lambda>M lo hi name. keep_by M name (\<lambda>x. lo \<le> x \<and> x \<le> hi)),
      connectivity = (\<lambda>M. Some (region_labels M)),
      clean = (\<lambda>M. M),
      point_dist = (\<lambda>p q. norm3 (vsub q p))\<rparr>"

definition tri_mesh :: polydata where
  "tri_mesh = \<lparr>points = [(0, 0, 0), (3, 0, 0), (0, 4, 0)], cells = [[0, 1, 2]],
                point_data = Map.empty, is_unstructured = False\<rparr>"

definition tool0 :: tool where
  "tool0 = \<lparr>nodes = [], node_ids = [], path_cache = Map.empty, is_closed = False,
             node_radius = 1 / 10, mesh = Some 0, target_dataset = Some 0,
             heap = (\<lambda>a. tri_mesh), next_addr = 1, actor_position = (\<lambda>a. (0, 0, 0)),
             next_actor = 0\<rparr>"

definition tool2 :: tool where
  "tool2 = tool0\<lparr>nodes := [0, 1], node_ids := [0, 1], next_actor := 2\<rparr>"

definition tri_tool :: tool where
  "tri_tool = tool0\<lparr>nodes := [0, 1, 2], node_ids := [0, 1, 2], is_closed := True, next_actor := 3\<rparr>"

definition seg01_pts :: "point list" where
  "seg01_pts = [(0, 0, 0), (0, 0, 0), (0, 0, 0), (0, 0, 0), (0, 0, 0),
                (3, 0, 0), (3, 0, 0), (3, 0, 0), (3, 0, 0), (3, 0, 0)]"

definition tool1 :: tool where
  "tool1 = tool0\<lparr>nodes := [0], node_ids := [0], next_actor := 1\<rparr>"

definition tool1_added :: tool where
  "tool1_added = tool0\<lparr>nodes := [0, 1], node_ids := [0, 1], next_actor := 2,
     actor_position := (\<lambda>a. (0, 0, 0))(1 := (3, 0, 0)),
     path_cache := [(0, 1) \<mapsto> seg01_pts]\<rparr>"

definition tri_open :: tool where
  "tri_open = tri_tool\<lparr>is_closed := False\<rparr>"

definition app_of :: "tool \<Rightarrow> app" where
  "app_of t = \<lparr>undo_stack = [], redo_stack = [], bezier = t\<rparr>"

definition noop_add_cmd :: cmd where
  "noop_add_cmd = BezierCmdAdd (0, 0, 0) (-1) (Some 0) (Some 0) 0"

text \<open>
  The cache key of curve segment \<open>i\<close>, and the keys of all segments of the current curve
  (the closing segment included exactly when the loop is closed).
\<close>

definition seg_key :: "int list \<Rightarrow> nat \<Rightarrow> nat \<Rightarrow> int \<times> int" where
  "seg_key ids count i =
     (min (ids ! i) (ids ! ((i + 1) mod count)), max (ids ! i) (ids ! ((i + 1) mod count)))"

definition segment_keys :: "tool \<Rightarrow> (int \<times> int) set" where
  "segment_keys t =
     (if length (nodes t) < 2 then {}
      else seg_key (node_ids t) (length (nodes t)) `
             set [0..<(if is_closed t then length (nodes t) else length (nodes t) - 1)])"

definition tool1_stale :: tool where
  "tool1_stale = tool1\<lparr>path_cache := [(7, 9) \<mapsto> []]\<rparr>"

definition seg12_pts :: "point list" where
  "seg12_pts = [(3, 0, 0), (3, 0, 0), (3, 0, 0), (3, 0, 0), (3, 0, 0),
                (0, 4, 0), (0, 4, 0), (0, 4, 0), (0, 4, 0), (0, 4, 0)]"

definition seg20_pts :: "point list" where
  "seg20_pts = [(0, 4, 0), (0, 4, 0), (0, 4, 0), (0, 4, 0), (0, 4, 0),
                (0, 0, 0), (0, 0, 0), (0, 0, 0), (0, 0, 0), (0, 0, 0)]"

definition tri_cache :: "(int \<times> int) \<rightharpoonup> point list" where
  "tri_cache = [(0, 1) \<mapsto> seg01_pts, (1, 2) \<mapsto> seg12_pts, (0, 2) \<mapsto> seg20_pts]"

definition tool1_stale_added :: tool where
  "tool1_stale_added = tool1_added\<lparr>path_cache := [(7, 9) \<mapsto> [], (0, 1) \<mapsto> seg01_pts]\<rparr>"

definition tool02 :: tool where
  "tool02 = tool0\<lparr>nodes := [0, 1], node_ids := [0, 2], next_actor := 2\<rparr>"

definition tool02_inserted :: tool where
  "tool02_inserted = tool0\<lparr>nodes := [0, 2, 1], node_ids := [0, 1, 2], next_actor := 3,
     actor_position := (\<lambda>a. (0, 0, 0))(2 := (3, 0, 0)),
     path_cache := [(0, 1) \<mapsto> seg01_pts, (1, 2) \<mapsto> seg12_pts]\<rparr>"

definition close_cmd :: cmd where
  "close_cmd = BezierCmdCloseLoop False"

definition tri_closed_cached :: tool where
  "tri_closed_cached = tri_tool\<lparr>path_cache := tri_cache\<rparr>"

definition tri_open_cached :: tool where
  "tri_open_cached = tri_open\<lparr>path_cache := tri_cache\<rparr>"

text \<open>The k-d tree query returns a vertex of least distance to the query point.\<close>

definition kd_nearest :: "env \<Rightarrow> point list \<Rightarrow> bool" where
  "kd_nearest E P \<longleftrightarrow>
     (\<forall>q. kd_query E P q < length P \<and>
          (\<forall>k < length P. dist_sq (P ! kd_query E P q) q \<le> dist_sq (P ! k) q))"

definition line_mesh :: polydata where
  "line_mesh = \<lparr>points = [(0, 0, 0), (43 / 8, 0, 0)], cells = [],
                 point_data = Map.empty, is_unstructured = False\<rparr>"

definition line_pts :: "point list" where
  "line_pts = [(0, 0, 0), (0, 0, 0), (0, 0, 0), (0, 0, 0), (0, 0, 0),
               (43 / 8, 0, 0), (43 / 8, 0, 0), (43 / 8, 0, 0), (43 / 8, 0, 0), (43 / 8, 0, 0)]"

definition line_tool :: tool where
  "line_tool = tool0\<lparr>heap := (\<lambda>a. line_mesh), nodes := [0, 1, 2], node_ids := [0, 1, 0],
                      next_actor := 3\<rparr>"

subsection \<open>The nearest segment, in the words of the specification\<close>

text \<open>
  The squared distances from the hit point to the sub-segments of one polyline, then, over
  the polylines of all curve segments in curve order, every such distance paired with the
  starting anchor index of its segment; and the answer: append (\<open>-1\<close>) unless the least
  distance is below the threshold, else the index of the first segment that attains it.
\<close>

definition spec_seg_dists :: "point \<Rightarrow> point list \<Rightarrow> real list" where
  "spec_seg_dists hit pts =
     map (\<lambda>k. dist_sq_to_segment hit (pts ! k) (pts ! Suc k)) [0..<length pts - 1]"

definition spec_all_dists :: "point \<Rightarrow> (nat \<times> point list) list \<Rightarrow> (real \<times> int) list" where
  "spec_all_dists hit segs =
     concat (map (\<lambda>(i, pts). map (\<lambda>d. (d, int i)) (spec_seg_dists hit pts)) segs)"

definition spec_nearest_segment :: "real \<Rightarrow> (real \<times> int) list \<Rightarrow> int" where
  "spec_nearest_segment threshold_sq ds =
     (if ds = [] then -1
      else let m = Min (set (map fst ds)) in
           if m < threshold_sq then snd (hd (filter (\<lambda>x. fst x = m) ds)) else -1)"

text \<open>
  The polylines \<^verbatim>\<open>_get_segment_points(i, (i+1) % count)\<close> of the segments \<open>i\<close> of a list,
  fetched in order (each fetch may fill the cache).
\<close>

fun collect_segments ::
  "env \<Rightarrow> int \<Rightarrow> nat list \<Rightarrow> tool \<Rightarrow> ((nat \<times> point list) list, tool) result" where
  "collect_segments E count [] t = Ok [] t"
| "collect_segments E count (i # is) t =
     (case get_segment_points E (int i) ((int i + 1) mod count) t of
        Raise e t' \<Rightarrow> Raise e t'
      | Ok pts t' \<Rightarrow>
          (case collect_segments E count is t' of
             Raise e t'' \<Rightarrow> Raise e t''
           | Ok segs t'' \<Rightarrow> Ok ((i, pts) # segs) t''))"

text \<open>One comparison of the inner loop of \<^verbatim>\<open>_resolve_insertion_index\<close>.\<close>

definition scan_step :: "real \<times> int \<Rightarrow> int \<times> real option \<Rightarrow> int \<times> real option" where
  "scan_step x acc =
     (if (case snd acc of None \<Rightarrow> True | Some m \<Rightarrow> fst x < m) then (snd x, Some (fst x)) else acc)"

text \<open>
  The closed triangle's full path and the displayed dataset as region extraction leaves it;
  a tool whose displayed dataset is an UnstructuredGrid, and a tool with no surface at all.
\<close>

definition tri_raw_path :: "point list" where
  "tri_raw_path = seg01_pts @ tl seg12_pts @ tl seg20_pts"

definition tri_with_normals :: polydata where
  "tri_with_normals = tri_mesh\<lparr>point_data := [''Normals'' \<mapsto> VecArray [(0, 0, 1), (0, 0, 1), (0, 0, 1)]]\<rparr>"

definition tri_marked :: polydata where
  "tri_marked = tri_mesh\<lparr>point_data := [''Normals'' \<mapsto> VecArray [(0, 0, 1), (0, 0, 1), (0, 0, 1)],
                                          ''is_barrier'' \<mapsto> IntArray [1, 1, 1]]\<rparr>"

definition tri_after :: tool where
  "tri_after = tri_tool\<lparr>path_cache := tri_cache, heap := (\<lambda>a. tri_mesh)(0 := tri_marked)\<rparr>"

definition grid_mesh :: polydata where
  "grid_mesh = tri_mesh\<lparr>is_unstructured := True\<rparr>"

definition grid_tool :: tool where
  "grid_tool = tri_tool\<lparr>heap := (\<lambda>a. grid_mesh)\<rparr>"

definition bare_tool :: tool where
  "bare_tool = tri_tool\<lparr>mesh := None, target_dataset := None\<rparr>"

section \<open>Verification\<close>

subsection \<open>What the path functions change, and when they succeed\<close>

lemma get_segment_points_frame:
  "\<exists>c. state_of (get_segment_points E i j t) = t\<lparr>path_cache := c\<rparr>"
proof (cases "\<exists>r. get_segment_points E i j t = Ok r (t\<lparr>path_cache := (path_cache t)
      ((min (the (py_get (node_ids t) i)) (the (py_get (node_ids t) j)),
        max (the (py_get (node_ids t) i)) (the (py_get (node_ids t) j))) \<mapsto> r)\<rparr>)")
  case True
  then show ?thesis by (metis state_of.simps(1))
next
  case False
  then have "state_of (get_segment_points E i j t) = t"
    by (auto simp: get_segment_points_def Let_def split: option.splits)
  then have "state_of (get_segment_points E i j t) = t\<lparr>path_cache := path_cache t\<rparr>" by simp
  then show ?thesis by blast
qed

lemma full_path_loop_frame:
  "\<exists>c. state_of (full_path_loop E n is full t) = t\<lparr>path_cache := c\<rparr>"
proof (induction "is" arbitrary: full t)
  case Nil
  have "state_of (full_path_loop E n [] full t) = t\<lparr>path_cache := path_cache t\<rparr>" by simp
  then show ?case by blast
next
  case (Cons i "is")
  obtain c where c: "state_of (get_segment_points E (int i) ((int i + 1) mod n) t) = t\<lparr>path_cache := c\<rparr>"
    using get_segment_points_frame by blast
  show ?case
  proof (cases "get_segment_points E (int i) ((int i + 1) mod n) t")
    case (Ok pts t')
    with c have t': "t' = t\<lparr>path_cache := c\<rparr>" by simp
    obtain c' where "state_of (full_path_loop E n is (full @ [if full \<noteq> [] then tl pts else pts]) t') = t'\<lparr>path_cache := c'\<rparr>"
      using Cons.IH by blast
    then show ?thesis using Ok t' by auto
  next
    case (Raise e t')
    with c show ?thesis by auto
  qed
qed

lemma update_curve_frame: "\<exists>c. state_of (update_curve E t) = t\<lparr>path_cache := c\<rparr>"
proof -
  have triv: "t = t\<lparr>path_cache := path_cache t\<rparr>" by simp
  obtain c where c: "state_of (full_path_loop E (int (length (nodes t)))
       [0..<(if is_closed t then length (nodes t) else length (nodes t) - 1)] [] t) = t\<lparr>path_cache := c\<rparr>"
    using full_path_loop_frame by blast
  show ?thesis
  proof (cases "length (nodes t) < 2")
    case True
    then have "state_of (update_curve E t) = t\<lparr>path_cache := path_cache t\<rparr>"
      by (simp add: update_curve_def get_full_path_points_def)
    then show ?thesis by blast
  next
    case False
    then have "state_of (update_curve E t) = t\<lparr>path_cache := c\<rparr>"
      using c by (auto simp: update_curve_def get_full_path_points_def Let_def split: result.splits)
    then show ?thesis by blast
  qed
qed

lemma nearest_index_less: "P \<noteq> [] \<Longrightarrow> nearest_index P q < length P"
  by (induction P q rule: nearest_index.induct) (auto simp: Let_def)

lemma flat_env_ok: "points M \<noteq> [] \<Longrightarrow> env_ok flat_env M"
  by (simp add: env_ok_def flat_env_def nearest_index_less)

lemma wf_path_cache [simp]: "wf E (t\<lparr>path_cache := c\<rparr>) = wf E t"
  by (simp add: wf_def cong: option.case_cong)

lemma py_get_nat: "i < length xs \<Longrightarrow> py_get xs (int i) = Some (xs ! i)"
  by (simp add: py_get_def)

lemma py_get_in_range: "0 \<le> i \<Longrightarrow> i < int (length xs) \<Longrightarrow> py_get xs i = Some (xs ! nat i)"
  by (simp add: py_get_def)

lemma take_points_ok:
  "\<forall>i \<in> set ids. i < length P \<Longrightarrow> take_points P ids = Some (map (\<lambda>i. P ! i) ids)"
  unfolding take_points_def by (induction ids) auto

lemma get_segment_points_ok:
  assumes "wf E t" "0 \<le> i" "i < int (length (node_ids t))" "0 \<le> j" "j < int (length (node_ids t))"
  shows "is_ok (get_segment_points E i j t)"
proof -
  from assms(1) obtain m where m: "mesh t = Some m" "env_ok E (heap t m)"
    and ids: "\<forall>p \<in> set (node_ids t). 0 \<le> p \<and> p < int (length (points (heap t m)))"
    by (auto simp: wf_def split: option.splits)
  let ?P = "points (heap t m)"
  have gi: "py_get (node_ids t) i = Some (node_ids t ! nat i)"
    and gj: "py_get (node_ids t) j = Some (node_ids t ! nat j)"
    using assms by (simp_all add: py_get_in_range)
  have ri: "0 \<le> node_ids t ! nat i \<and> node_ids t ! nat i < int (length ?P)"
    using ids assms(2,3) by (simp add: nth_mem)
  have rj: "0 \<le> node_ids t ! nat j \<and> node_ids t ! nat j < int (length ?P)"
    using ids assms(4,5) by (simp add: nth_mem)
  have pi: "py_get ?P (node_ids t ! nat i) = Some (?P ! nat (node_ids t ! nat i))"
    and pj: "py_get ?P (node_ids t ! nat j) = Some (?P ! nat (node_ids t ! nat j))"
    using ri rj by (simp_all add: py_get_in_range)
  have tk: "\<And>xs. take_points ?P (map (kd_query E ?P) xs) = Some (map (\<lambda>i. ?P ! i) (map (kd_query E ?P) xs))"
    using m(2) by (intro take_points_ok) (auto simp: env_ok_def)
  show ?thesis
    by (simp add: get_segment_points_def Let_def gi gj m(1) pi pj tk split: option.splits)
qed

lemma full_path_loop_ok:
  assumes "wf E t" "\<forall>i \<in> set is. i < length (node_ids t)" "n = int (length (node_ids t))"
  shows "is_ok (full_path_loop E n is full t)"
  using assms
proof (induction "is" arbitrary: full t)
  case Nil
  then show ?case by simp
next
  case (Cons i "is")
  have pos: "0 < n" using Cons.prems by auto
  have "is_ok (get_segment_points E (int i) ((int i + 1) mod n) t)"
    using Cons.prems pos by (intro get_segment_points_ok) auto
  then obtain pts t' where ok: "get_segment_points E (int i) ((int i + 1) mod n) t = Ok pts t'"
    by (cases "get_segment_points E (int i) ((int i + 1) mod n) t") auto
  obtain c where "state_of (get_segment_points E (int i) ((int i + 1) mod n) t) = t\<lparr>path_cache := c\<rparr>"
    using get_segment_points_frame by blast
  with ok have t': "t' = t\<lparr>path_cache := c\<rparr>" by simp
  have "is_ok (full_path_loop E n is (full @ [if full \<noteq> [] then tl pts else pts]) t')"
    using Cons.prems by (intro Cons.IH) (auto simp: t')
  then show ?case using ok by simp
qed

lemma update_curve_is_ok: "wf E t \<Longrightarrow> is_ok (update_curve E t)"
proof -
  assume w: "wf E t"
  then have len: "length (nodes t) = length (node_ids t)" by (simp add: wf_def)
  have "is_ok (full_path_loop E (int (length (nodes t)))
       [0..<(if is_closed t then length (nodes t) else length (nodes t) - 1)] [] t)"
    using w len by (intro full_path_loop_ok) auto
  then show ?thesis
    by (cases "is_closed t")
       (auto simp: update_curve_def get_full_path_points_def Let_def split: result.splits)
qed

lemma update_curve_ok: "wf E t \<Longrightarrow> \<exists>c. update_curve E t = Ok () (t\<lparr>path_cache := c\<rparr>)"
proof -
  assume "wf E t"
  then have ok: "is_ok (update_curve E t)" by (rule update_curve_is_ok)
  obtain c where c: "state_of (update_curve E t) = t\<lparr>path_cache := c\<rparr>"
    using update_curve_frame by blast
  from ok c have "update_curve E t = Ok () (t\<lparr>path_cache := c\<rparr>)"
    by (cases "update_curve E t") auto
  then show ?thesis by blast
qed

subsection \<open>The two-anchor example\<close>

lemma norm3_axis: "norm3 (x, 0, 0) = \<bar>x\<bar>" "norm3 (0, y, 0) = \<bar>y\<bar>" "norm3 (0, 0, z) = \<bar>z\<bar>"
  by (simp_all add: norm3_def)

lemma upt_10: "[0..<10] = [0, 1, 2, 3, 4, 5, 6, 7, 8, 9]"
  by (simp add: upt_rec)

lemmas segment_eval = get_segment_points_def tri_mesh_def flat_env_def py_get_def
  segment_num_def py_int_def interpolate_def linspace01_def take_points_def dist_sq_def
  Let_def upt_10 norm3_axis

lemma tool2_segment_01:
  "get_segment_points flat_env 0 1 tool2 = Ok seg01_pts (tool2\<lparr>path_cache := [(0, 1) \<mapsto> seg01_pts]\<rparr>)"
  by (simp add: tool2_def tool0_def seg01_pts_def segment_eval)

lemma tool2_update_curve:
  "update_curve flat_env tool2 = Ok () (tool2\<lparr>path_cache := [(0, 1) \<mapsto> seg01_pts]\<rparr>)"
proof -
  have len: "length (nodes tool2) = 2" "\<not> is_closed tool2"
    by (simp_all add: tool2_def tool0_def)
  have "[0..<(1::nat)] = [0]" by simp
  then show ?thesis
    using tool2_segment_01 len
    by (simp add: update_curve_def get_full_path_points_def)
qed

lemma wf_tool2: "wf flat_env tool2"
proof -
  have "points tri_mesh \<noteq> []" by (simp add: tri_mesh_def)
  then have "env_ok flat_env tri_mesh" by (rule flat_env_ok)
  then show ?thesis by (simp add: wf_def tool2_def tool0_def tri_mesh_def)
qed

subsection \<open>Segment symmetry\<close>

text \<open>
  Claim C10. The cache key is the sorted pair of the two vertex ids, so once a call
  \<^verbatim>\<open>_get_segment_points(i, j)\<close> has returned, the calls for \<open>(i, j)\<close> and for
  \<open>(j, i)\<close> both return that same point list, element for element and in the same
  direction, and leave the state as it is.
\<close>

theorem segment_symmetry:
  "get_segment_points E i j t = Ok r t' \<Longrightarrow>
     get_segment_points E i j t' = Ok r t' \<and> get_segment_points E j i t' = Ok r t'"
  by (auto simp: get_segment_points_def Let_def min.commute max.commute split: option.splits)

theorem segment_symmetry_witness:
  "get_segment_points flat_env 0 1 tool2 = Ok seg01_pts (tool2\<lparr>path_cache := [(0, 1) \<mapsto> seg01_pts]\<rparr>)
   \<and> get_segment_points flat_env 0 1 (tool2\<lparr>path_cache := [(0, 1) \<mapsto> seg01_pts]\<rparr>)
       = Ok seg01_pts (tool2\<lparr>path_cache := [(0, 1) \<mapsto> seg01_pts]\<rparr>)
   \<and> get_segment_points flat_env 1 0 (tool2\<lparr>path_cache := [(0, 1) \<mapsto> seg01_pts]\<rparr>)
       = Ok seg01_pts (tool2\<lparr>path_cache := [(0, 1) \<mapsto> seg01_pts]\<rparr>)"
  using segment_symmetry [OF tool2_segment_01] tool2_segment_01 by simp

subsection \<open>Extraction on an open loop\<close>

text \<open>
  Claim C3. On a loop that is not closed \<^verbatim>\<open>get_selected_region\<close> returns None and the
  state of the tool is the one before the call: the anchors, their vertex ids, the closed flag
  and the cached paths are all unchanged.
\<close>

theorem open_loop_declined:
  "\<not> is_closed t \<Longrightarrow> get_selected_region E t = Ok None t"
  by (simp add: get_selected_region_def)

theorem open_loop_declined_witness:
  "\<not> is_closed tool2 \<and> get_selected_region flat_env tool2 = Ok None tool2"
proof -
  have h: "\<not> is_closed tool2" by (simp add: tool2_def tool0_def)
  show ?thesis using h open_loop_declined [OF h, of flat_env] by simp
qed

lemma py_get_last: "xs \<noteq> [] \<Longrightarrow> py_get xs (-1) = Some (last xs)"
  by (simp add: py_get_def last_conv_nth nat_diff_distrib')

lemma wf_is_closed [simp]: "wf E (t\<lparr>is_closed := b\<rparr>) = wf E t"
  by (simp add: wf_def cong: option.case_cong)

lemma wf_tri_open: "wf flat_env tri_open"
proof -
  have "points tri_mesh \<noteq> []" by (simp add: tri_mesh_def)
  then have "env_ok flat_env tri_mesh" by (rule flat_env_ok)
  then show ?thesis by (simp add: wf_def tri_open_def tri_tool_def tool0_def tri_mesh_def)
qed

subsection \<open>Idempotent append\<close>

text \<open>
  Claim C4. On a non-empty store, \<^verbatim>\<open>_internal_add_node\<close> with no insertion index at a
  position whose nearest vertex is the last anchor's vertex returns the last anchor and its
  vertex id and changes nothing. And two consecutive appends resolving to one vertex: the
  second returns what the first returned and leaves the state of the first, so that when the
  first appended (the store was empty or ended on another vertex) exactly one anchor was
  appended by the two.
\<close>

theorem idempotent_append:
  "(mesh t = Some m \<and> nodes t \<noteq> [] \<and> node_ids t \<noteq> [] \<and>
      find_closest_point E (heap t m) pos = last (node_ids t)
     \<longrightarrow> internal_add_node E pos (-1) t = Ok (last (nodes t), last (node_ids t)) t)
   \<and> (mesh t = Some m \<and> internal_add_node E pos (-1) t = Ok r t1 \<and>
      find_closest_point E (heap t m) pos' = find_closest_point E (heap t m) pos
     \<longrightarrow> internal_add_node E pos' (-1) t1 = Ok r t1 \<and>
         (node_ids t = [] \<or> last (node_ids t) \<noteq> find_closest_point E (heap t m) pos
            \<longrightarrow> nodes t1 = nodes t @ [fst r] \<and> node_ids t1 = node_ids t @ [snd r]))"
proof (intro conjI impI)
  assume "mesh t = Some m \<and> nodes t \<noteq> [] \<and> node_ids t \<noteq> [] \<and>
      find_closest_point E (heap t m) pos = last (node_ids t)"
  then show "internal_add_node E pos (-1) t = Ok (last (nodes t), last (node_ids t)) t"
    by (simp add: internal_add_node_def py_get_last)
next
  assume a: "mesh t = Some m \<and> internal_add_node E pos (-1) t = Ok r t1 \<and>
      find_closest_point E (heap t m) pos' = find_closest_point E (heap t m) pos"
  let ?pid = "find_closest_point E (heap t m) pos"
  have second: "internal_add_node E pos' (-1) t1 = Ok r t1
      \<and> (node_ids t = [] \<or> last (node_ids t) \<noteq> ?pid
            \<longrightarrow> nodes t1 = nodes t @ [fst r] \<and> node_ids t1 = node_ids t @ [snd r])"
  proof (cases "node_ids t \<noteq> [] \<and> last (node_ids t) = ?pid")
    case True
    with a have "t1 = t" and "py_get (nodes t) (-1) = Some (fst r)" and "snd r = last (node_ids t)"
      by (auto simp: internal_add_node_def split: option.splits)
    with a True show ?thesis by (cases r) (simp add: internal_add_node_def)
  next
    case False
    let ?t3 = "t\<lparr>next_actor := Suc (next_actor t),
                  actor_position := (actor_position t)(next_actor t := the (py_get (points (heap t m)) ?pid)),
                  nodes := nodes t @ [next_actor t], node_ids := node_ids t @ [?pid]\<rparr>"
    from a False have uc: "update_curve E ?t3 = Ok () t1" and r: "r = (next_actor t, ?pid)"
      by (auto simp: internal_add_node_def Let_def split: option.splits result.splits)
    obtain c where "state_of (update_curve E ?t3) = ?t3\<lparr>path_cache := c\<rparr>"
      using update_curve_frame by blast
    with uc have t1: "t1 = ?t3\<lparr>path_cache := c\<rparr>" by simp
    from a have m: "mesh t = Some m"
      and same: "find_closest_point E (heap t m) pos' = find_closest_point E (heap t m) pos"
      by simp_all
    have "internal_add_node E pos' (-1) t1 = Ok r t1"
      using m same by (simp add: t1 r internal_add_node_def py_get_last Let_def)
    moreover have "nodes t1 = nodes t @ [fst r] \<and> node_ids t1 = node_ids t @ [snd r]"
      by (simp add: t1 r)
    ultimately show ?thesis by simp
  qed
  from second show "internal_add_node E pos' (-1) t1 = Ok r t1" by simp
  from second show "node_ids t = [] \<or> last (node_ids t) \<noteq> ?pid
            \<Longrightarrow> nodes t1 = nodes t @ [fst r]" by simp
  from second show "node_ids t = [] \<or> last (node_ids t) \<noteq> ?pid
            \<Longrightarrow> node_ids t1 = node_ids t @ [snd r]" by simp
qed

lemma tool1_add:
  "internal_add_node flat_env (3, 0, 0) (-1) tool1 = Ok (1, 1) tool1_added"
  by (simp add: internal_add_node_def update_curve_def get_full_path_points_def
      tool1_def tool1_added_def tool0_def seg01_pts_def segment_eval)

theorem idempotent_append_witness:
  "internal_add_node flat_env (3, 0, 0) (-1) tool2 = Ok (1, 1) tool2
   \<and> internal_add_node flat_env (3, 0, 0) (-1) tool1 = Ok (1, 1) tool1_added
   \<and> internal_add_node flat_env (3, 0, 0) (-1) tool1_added = Ok (1, 1) tool1_added
   \<and> nodes tool1_added = nodes tool1 @ [1] \<and> node_ids tool1_added = node_ids tool1 @ [1]"
proof -
  have fcp: "\<And>t. heap t 0 = tri_mesh \<Longrightarrow> find_closest_point flat_env (heap t 0) (3, 0, 0) = 1"
    by (simp add: flat_env_def tri_mesh_def dist_sq_def)
  have a: "mesh tool2 = Some 0 \<and> nodes tool2 \<noteq> [] \<and> node_ids tool2 \<noteq> [] \<and>
      find_closest_point flat_env (heap tool2 0) (3, 0, 0) = last (node_ids tool2)"
    using fcp [of tool2] by (simp add: tool2_def tool0_def)
  have b: "mesh tool1 = Some 0 \<and> internal_add_node flat_env (3, 0, 0) (-1) tool1 = Ok (1, 1) tool1_added \<and>
      find_closest_point flat_env (heap tool1 0) (3, 0, 0) = find_closest_point flat_env (heap tool1 0) (3, 0, 0)"
    using tool1_add by (simp add: tool1_def tool0_def)
  have c: "node_ids tool1 = [] \<or> last (node_ids tool1) \<noteq> find_closest_point flat_env (heap tool1 0) (3, 0, 0)"
    using fcp [of tool1] by (simp add: tool1_def tool0_def)
  have l: "last (nodes tool2) = 1" "last (node_ids tool2) = 1" by (simp_all add: tool2_def tool0_def)
  have 1: "internal_add_node flat_env (3, 0, 0) (-1) tool2 = Ok (last (nodes tool2), last (node_ids tool2)) tool2"
    by (rule idempotent_append [of tool2 0 flat_env "(3, 0, 0)" "(1, 1)" tool2 "(3, 0, 0)",
          THEN conjunct1, THEN mp, OF a])
  note 2 = idempotent_append [of tool1 0 flat_env "(3, 0, 0)" "(1, 1)" tool1_added "(3, 0, 0)",
          THEN conjunct2, THEN mp, OF b]
  have 3: "nodes tool1_added = nodes tool1 @ [fst (1::nat, 1::int)] \<and>
           node_ids tool1_added = node_ids tool1 @ [snd (1::nat, 1::int)]"
    by (rule 2 [THEN conjunct2, THEN mp, OF c])
  show ?thesis
  proof (intro conjI)
    show "internal_add_node flat_env (3, 0, 0) (-1) tool2 = Ok (1, 1) tool2"
      using 1 by (simp only: l)
    show "internal_add_node flat_env (3, 0, 0) (-1) tool1 = Ok (1, 1) tool1_added"
      by (rule tool1_add)
    show "internal_add_node flat_env (3, 0, 0) (-1) tool1_added = Ok (1, 1) tool1_added"
      by (rule 2 [THEN conjunct1])
    show "nodes tool1_added = nodes tool1 @ [1]" using 3 by (simp only: fst_conv)
    show "node_ids tool1_added = node_ids tool1 @ [1]" using 3 by (simp only: snd_conv)
  qed
qed

subsection \<open>The loop-closing guard\<close>

text \<open>
  Claim C5. \<^verbatim>\<open>close_loop\<close> on a store with two anchors (or fewer) does nothing: no
  command reaches the manager and \<open>is_closed\<close> stays as it was. On a well-formed store with
  at least three anchors and an open loop it executes a \<^verbatim>\<open>BezierCmdCloseLoop\<close>, which
  sets \<open>is_closed\<close>, is pushed on the undo stack, and empties the redo stack.
\<close>

theorem close_loop_guard:
  "(length (nodes (bezier a)) \<le> 2 \<longrightarrow> close_loop E a = Ok () a)
   \<and> (wf E (bezier a) \<and> 3 \<le> length (nodes (bezier a)) \<and> \<not> is_closed (bezier a) \<longrightarrow>
       (\<exists>c. close_loop E a =
          Ok () (a\<lparr>bezier := (bezier a)\<lparr>is_closed := True, path_cache := c\<rparr>,
                   undo_stack := undo_stack a @ [BezierCmdCloseLoop False],
                   redo_stack := []\<rparr>)))"
proof (intro conjI impI)
  assume "length (nodes (bezier a)) \<le> 2"
  then show "close_loop E a = Ok () a" by (simp add: close_loop_def)
next
  assume h: "wf E (bezier a) \<and> 3 \<le> length (nodes (bezier a)) \<and> \<not> is_closed (bezier a)"
  then have "wf E ((bezier a)\<lparr>is_closed := True\<rparr>)" by simp
  then obtain c where
    "update_curve E ((bezier a)\<lparr>is_closed := True\<rparr>) = Ok () ((bezier a)\<lparr>is_closed := True\<rparr>\<lparr>path_cache := c\<rparr>)"
    using update_curve_ok by blast
  with h have "close_loop E a =
          Ok () (a\<lparr>bezier := (bezier a)\<lparr>is_closed := True, path_cache := c\<rparr>,
                   undo_stack := undo_stack a @ [BezierCmdCloseLoop False],
                   redo_stack := []\<rparr>)"
    by (simp add: close_loop_def cm_execute_def new_BezierCmdCloseLoop_def)
  then show "\<exists>c. close_loop E a =
          Ok () (a\<lparr>bezier := (bezier a)\<lparr>is_closed := True, path_cache := c\<rparr>,
                   undo_stack := undo_stack a @ [BezierCmdCloseLoop False],
                   redo_stack := []\<rparr>)" by blast
qed

theorem close_loop_guard_witness:
  "length (nodes (bezier (app_of tool2))) \<le> 2
   \<and> close_loop flat_env (app_of tool2) = Ok () (app_of tool2)
   \<and> wf flat_env (bezier (app_of tri_open)) \<and> 3 \<le> length (nodes (bezier (app_of tri_open)))
   \<and> \<not> is_closed (bezier (app_of tri_open))
   \<and> (\<exists>c. close_loop flat_env (app_of tri_open) =
          Ok () ((app_of tri_open)\<lparr>bezier := (bezier (app_of tri_open))\<lparr>is_closed := True, path_cache := c\<rparr>,
                   undo_stack := undo_stack (app_of tri_open) @ [BezierCmdCloseLoop False],
                   redo_stack := []\<rparr>))"
proof -
  have a: "length (nodes (bezier (app_of tool2))) \<le> 2"
    by (simp add: app_of_def tool2_def tool0_def)
  have b: "wf flat_env (bezier (app_of tri_open)) \<and> 3 \<le> length (nodes (bezier (app_of tri_open)))
      \<and> \<not> is_closed (bezier (app_of tri_open))"
    using wf_tri_open by (simp add: app_of_def tri_open_def tri_tool_def tool0_def)
  have 1: "close_loop flat_env (app_of tool2) = Ok () (app_of tool2)"
    by (rule close_loop_guard [of "app_of tool2" flat_env, THEN conjunct1, THEN mp, OF a])
  note 2 = close_loop_guard [of "app_of tri_open" flat_env, THEN conjunct2, THEN mp, OF b]
  show ?thesis
    by (intro conjI a 1 2 b [THEN conjunct1] b [THEN conjunct2, THEN conjunct1]
        b [THEN conjunct2, THEN conjunct2])
qed

subsection \<open>Undoing an append that added nothing\<close>

text \<open>
  Claim C1 says that executing a command and undoing it restores the anchor sequence, also when
  a \<^verbatim>\<open>BezierCmdAdd\<close> resolved to the existing last anchor. The code at that input: the
  store holds one anchor on vertex 0; an add at that vertex with no insertion index appends
  nothing and records the existing anchor as \<^verbatim>\<open>added_actor\<close>; undoing the command removes
  that anchor, so the vertex-id sequence \<open>[0]\<close> before the command is \<open>[]\<close> after the undo.
\<close>

theorem noop_add_undo_drops_anchor:
  "add_node_at flat_env (0, 0, 0) (-1) (app_of tool1)
     = Ok () \<lparr>undo_stack = [noop_add_cmd], redo_stack = [], bezier = tool1\<rparr>
   \<and> cm_undo flat_env \<lparr>undo_stack = [noop_add_cmd], redo_stack = [], bezier = tool1\<rparr>
     = Ok () \<lparr>undo_stack = [], redo_stack = [noop_add_cmd],
              bezier = tool1\<lparr>nodes := [], node_ids := []\<rparr>\<rparr>
   \<and> node_ids tool1 = [0]
   \<and> node_ids (tool1\<lparr>nodes := [], node_ids := []\<rparr>) = []"
proof (intro conjI)
  have fcp: "find_closest_point flat_env tri_mesh (0, 0, 0) = 0"
    by (simp add: flat_env_def tri_mesh_def dist_sq_def)
  have add: "internal_add_node flat_env (0, 0, 0) (-1) tool1 = Ok (0, 0) tool1"
    using fcp by (simp add: internal_add_node_def tool1_def tool0_def py_get_def)
  show "add_node_at flat_env (0, 0, 0) (-1) (app_of tool1)
     = Ok () \<lparr>undo_stack = [noop_add_cmd], redo_stack = [], bezier = tool1\<rparr>"
    using add
    by (simp add: add_node_at_def cm_execute_def new_BezierCmdAdd_def app_of_def noop_add_cmd_def)
       (simp add: tool1_def tool0_def)
  have rem: "internal_remove_node_by_actor flat_env 0 tool1 = Ok () (tool1\<lparr>nodes := [], node_ids := []\<rparr>)"
    by (simp add: internal_remove_node_by_actor_def invalidate_neighbors_def py_pop_def
        update_curve_def get_full_path_points_def tool1_def tool0_def)
  show "cm_undo flat_env \<lparr>undo_stack = [noop_add_cmd], redo_stack = [], bezier = tool1\<rparr>
     = Ok () \<lparr>undo_stack = [], redo_stack = [noop_add_cmd],
              bezier = tool1\<lparr>nodes := [], node_ids := []\<rparr>\<rparr>"
    using rem by (simp add: cm_undo_def noop_add_cmd_def)
  show "node_ids tool1 = [0]" by (simp add: tool1_def tool0_def)
  show "node_ids (tool1\<lparr>nodes := [], node_ids := []\<rparr>) = []" by simp
qed

subsection \<open>What a mutation leaves in the path cache\<close>

lemma py_get_Some_nonneg: "0 \<le> i \<Longrightarrow> py_get xs i = Some v \<Longrightarrow> v = xs ! nat i"
  by (auto simp: py_get_def Let_def split: if_splits)

lemma get_segment_points_cache:
  assumes "0 \<le> i" "0 \<le> j"
  shows "path_cache t \<subseteq>\<^sub>m path_cache (state_of (get_segment_points E i j t)) \<and>
         dom (path_cache (state_of (get_segment_points E i j t))) \<subseteq>
           insert (min (node_ids t ! nat i) (node_ids t ! nat j),
                   max (node_ids t ! nat i) (node_ids t ! nat j)) (dom (path_cache t))"
proof (cases "get_segment_points E i j t")
  case (Raise e t')
  then have "t' = t" by (auto simp: get_segment_points_def Let_def split: option.splits)
  with Raise show ?thesis by auto
next
  case (Ok r t')
  then obtain a b where a: "py_get (node_ids t) i = Some a" and b: "py_get (node_ids t) j = Some b"
    by (auto simp: get_segment_points_def split: option.splits)
  have a': "a = node_ids t ! nat i" using a assms(1) by (rule py_get_Some_nonneg[rotated])
  have b': "b = node_ids t ! nat j" using b assms(2) by (rule py_get_Some_nonneg[rotated])
  show ?thesis
  proof (cases "path_cache t (min a b, max a b)")
    case (Some pts)
    with Ok a b have "t' = t" by (simp add: get_segment_points_def)
    with Ok show ?thesis by auto
  next
    case None
    with Ok a b have "\<exists>v. t' = t\<lparr>path_cache := (path_cache t)((min a b, max a b) \<mapsto> v)\<rparr>"
      by (auto simp: get_segment_points_def Let_def split: option.splits)
    then obtain v where t': "t' = t\<lparr>path_cache := (path_cache t)((min a b, max a b) \<mapsto> v)\<rparr>" by blast
    have "path_cache t \<subseteq>\<^sub>m path_cache t'"
      using None by (auto simp: t' map_le_def)
    moreover have "dom (path_cache t') \<subseteq> insert (min a b, max a b) (dom (path_cache t))"
      by (simp add: t')
    ultimately show ?thesis using a' b' Ok by simp
  qed
qed

lemma full_path_loop_cache:
  assumes "0 < n"
  shows "path_cache t \<subseteq>\<^sub>m path_cache (state_of (full_path_loop E (int n) is full t)) \<and>
         dom (path_cache (state_of (full_path_loop E (int n) is full t)))
           \<subseteq> dom (path_cache t) \<union> seg_key (node_ids t) n ` set is"
proof (induction "is" arbitrary: full t)
  case Nil
  then show ?case by simp
next
  case (Cons i "is")
  let ?j = "(int i + 1) mod int n"
  let ?t1 = "state_of (get_segment_points E (int i) ?j t)"
  have j: "0 \<le> ?j" using assms by simp
  have natj: "nat ?j = (i + 1) mod n"
    by (metis nat_int of_nat_1 of_nat_add zmod_int)
  from get_segment_points_cache[OF _ j, of "int i" t E]
  have c1: "path_cache t \<subseteq>\<^sub>m path_cache ?t1"
    and d1: "dom (path_cache ?t1) \<subseteq> insert (seg_key (node_ids t) n i) (dom (path_cache t))"
    by (simp_all add: seg_key_def natj)
  obtain c where fr: "?t1 = t\<lparr>path_cache := c\<rparr>"
    using get_segment_points_frame by blast
  show ?case
  proof (cases "get_segment_points E (int i) ?j t")
    case (Raise e t1)
    then have "state_of (full_path_loop E (int n) (i # is) full t) = ?t1" by simp
    then show ?thesis using c1 d1 by (simp only: list.set image_insert) blast
  next
    case (Ok pts t1)
    then have t1: "t1 = ?t1" by simp
    have ids: "node_ids t1 = node_ids t" using fr t1 by simp
    let ?acc = "full @ [if full \<noteq> [] then tl pts else pts]"
    let ?t' = "state_of (full_path_loop E (int n) is ?acc t1)"
    have st: "state_of (full_path_loop E (int n) (i # is) full t) = ?t'" using Ok by simp
    from Cons.IH[of t1 ?acc]
    have c2: "path_cache t1 \<subseteq>\<^sub>m path_cache ?t'"
      and d2: "dom (path_cache ?t') \<subseteq> dom (path_cache t1) \<union> seg_key (node_ids t) n ` set is"
      by (simp_all add: ids)
    have "path_cache t \<subseteq>\<^sub>m path_cache ?t'" using c1 c2 t1 by (metis map_le_trans)
    moreover have "dom (path_cache ?t') \<subseteq> dom (path_cache t) \<union> seg_key (node_ids t) n ` set (i # is)"
      using d1 d2 t1 by (simp only: list.set image_insert) blast
    ultimately show ?thesis by (simp only: st)
  qed
qed

lemma update_curve_cache:
  "path_cache t \<subseteq>\<^sub>m path_cache (state_of (update_curve E t)) \<and>
   dom (path_cache (state_of (update_curve E t))) \<subseteq> dom (path_cache t) \<union> segment_keys t \<and>
   segment_keys (state_of (update_curve E t)) = segment_keys t"
proof -
  let ?t' = "state_of (update_curve E t)"
  obtain c where t': "?t' = t\<lparr>path_cache := c\<rparr>"
    using update_curve_frame by blast
  have keys: "segment_keys ?t' = segment_keys t" by (simp add: t' segment_keys_def)
  show ?thesis
  proof (cases "length (nodes t) < 2")
    case True
    then have "?t' = t" by (simp add: update_curve_def get_full_path_points_def)
    then show ?thesis by simp
  next
    case False
    let ?rng = "if is_closed t then length (nodes t) else length (nodes t) - 1"
    have st: "?t' = state_of (full_path_loop E (int (length (nodes t))) [0..<?rng] [] t)"
      using False
      by (cases "full_path_loop E (int (length (nodes t))) [0..<?rng] [] t")
         (simp_all add: update_curve_def get_full_path_points_def Let_def)
    have pos: "0 < length (nodes t)" using False by (cases "nodes t") simp_all
    have sk: "segment_keys t = seg_key (node_ids t) (length (nodes t)) ` set [0..<?rng]"
      using False by (simp only: segment_keys_def if_False)
    from full_path_loop_cache[OF pos, of t E "[0..<?rng]" "[]"]
    show ?thesis using keys by (simp only: sk st)
  qed
qed

lemma py_index_mem: "a \<in> set xs \<Longrightarrow> \<exists>k. py_index xs a = Some k \<and> k < length xs"
  by (induction xs) auto

lemma py_index_Some: "py_index xs a = Some k \<Longrightarrow> k < length xs \<and> xs ! k = a"
  by (induction xs arbitrary: k) (auto split: if_splits option.splits)

lemma state_of_case [simp]:
  "state_of (case r of Ok u s \<Rightarrow> Ok (f u s) s | Raise e s \<Rightarrow> Raise e s) = state_of r"
  by (cases r) simp_all

lemma segment_keys_cache [simp]: "segment_keys (t\<lparr>path_cache := c\<rparr>) = segment_keys t"
  by (simp add: segment_keys_def)

lemma invalidate_twice [simp]:
  "invalidate_neighbors k (invalidate_neighbors k' t) = invalidate_neighbors k t"
  by (simp add: invalidate_neighbors_def)

lemma invalidate_update_commute:
  "invalidate_neighbors k (t\<lparr>node_ids := ids\<rparr>) = (invalidate_neighbors k t)\<lparr>node_ids := ids\<rparr>"
  "invalidate_neighbors k (t\<lparr>nodes := ns\<rparr>) = (invalidate_neighbors k t)\<lparr>nodes := ns\<rparr>"
  "invalidate_neighbors k (t\<lparr>is_closed := b\<rparr>) = (invalidate_neighbors k t)\<lparr>is_closed := b\<rparr>"
  by (simp_all add: invalidate_neighbors_def)

lemma get_segment_points_dom:
  assumes "0 \<le> i" "0 \<le> j" "get_segment_points E i j t = Ok pts t'"
  shows "dom (path_cache t') =
           insert (min (node_ids t ! nat i) (node_ids t ! nat j),
                   max (node_ids t ! nat i) (node_ids t ! nat j)) (dom (path_cache t))"
proof -
  from assms(3) obtain a b where a: "py_get (node_ids t) i = Some a"
      and b: "py_get (node_ids t) j = Some b"
    by (auto simp: get_segment_points_def split: option.splits)
  have a': "a = node_ids t ! nat i" using a assms(1) by (rule py_get_Some_nonneg[rotated])
  have b': "b = node_ids t ! nat j" using b assms(2) by (rule py_get_Some_nonneg[rotated])
  show ?thesis
  proof (cases "path_cache t (min a b, max a b)")
    case (Some v)
    with assms(3) a b have "t' = t" by (simp add: get_segment_points_def)
    moreover have "(min a b, max a b) \<in> dom (path_cache t)" using Some by blast
    ultimately show ?thesis unfolding a' b' by blast
  next
    case None
    with assms(3) a b have "\<exists>v. t' = t\<lparr>path_cache := (path_cache t)((min a b, max a b) \<mapsto> v)\<rparr>"
      by (auto simp: get_segment_points_def Let_def split: option.splits)
    then obtain v where "t' = t\<lparr>path_cache := (path_cache t)((min a b, max a b) \<mapsto> v)\<rparr>"
      by blast
    then show ?thesis unfolding a' b' by simp
  qed
qed

lemma full_path_loop_dom:
  assumes "0 < n"
  shows "full_path_loop E (int n) is full t = Ok r t' \<Longrightarrow>
         dom (path_cache t') = dom (path_cache t) \<union> seg_key (node_ids t) n ` set is"
proof (induction "is" arbitrary: full t)
  case Nil
  then show ?case by simp
next
  case (Cons i "is")
  let ?j = "(int i + 1) mod int n"
  have j: "0 \<le> ?j" using assms by simp
  have natj: "nat ?j = (i + 1) mod n"
    by (metis nat_int of_nat_1 of_nat_add zmod_int)
  from Cons.prems obtain pts t1 where
    seg: "get_segment_points E (int i) ?j t = Ok pts t1" and
    rest: "full_path_loop E (int n) is (full @ [if full \<noteq> [] then tl pts else pts]) t1 = Ok r t'"
    by (cases "get_segment_points E (int i) ?j t") simp_all
  have d1: "dom (path_cache t1) = insert (seg_key (node_ids t) n i) (dom (path_cache t))"
    using get_segment_points_dom[OF _ j seg] by (simp add: seg_key_def natj)
  obtain c where "state_of (get_segment_points E (int i) ?j t) = t\<lparr>path_cache := c\<rparr>"
    using get_segment_points_frame by blast
  then have ids: "node_ids t1 = node_ids t" using seg by simp
  have "dom (path_cache t') = dom (path_cache t1) \<union> seg_key (node_ids t1) n ` set is"
    using rest by (rule Cons.IH)
  then show ?case unfolding d1 ids by simp
qed

lemma update_curve_dom:
  assumes "update_curve E t = Ok u t'"
  shows "dom (path_cache t') = dom (path_cache t) \<union> segment_keys t"
proof (cases "length (nodes t) < 2")
  case True
  with assms have "t' = t" by (simp add: update_curve_def get_full_path_points_def)
  then show ?thesis using True by (simp add: segment_keys_def)
next
  case False
  let ?rng = "if is_closed t then length (nodes t) else length (nodes t) - 1"
  from assms False obtain full where
    lp: "full_path_loop E (int (length (nodes t))) [0..<?rng] [] t = Ok full t'"
    by (cases "full_path_loop E (int (length (nodes t))) [0..<?rng] [] t")
       (simp_all add: update_curve_def get_full_path_points_def Let_def)
  have pos: "0 < length (nodes t)" using False by (cases "nodes t") simp_all
  have sk: "segment_keys t = seg_key (node_ids t) (length (nodes t)) ` set [0..<?rng]"
    using False by (simp only: segment_keys_def if_False)
  show ?thesis unfolding sk by (rule full_path_loop_dom[OF pos lp])
qed

lemma update_curve_refill:
  assumes "path_cache t = Map.empty" "update_curve E t = Ok u t'"
  shows "dom (path_cache t') = segment_keys t'"
proof -
  obtain c where "state_of (update_curve E t) = t\<lparr>path_cache := c\<rparr>"
    using update_curve_frame by blast
  then have "segment_keys t' = segment_keys t" using assms(2) by simp
  then show ?thesis using update_curve_dom[OF assms(2)] assms(1) by simp
qed

lemma segment_keys_nonempty: "2 \<le> length (nodes t) \<Longrightarrow> segment_keys t \<noteq> {}"
  by (auto simp: segment_keys_def)

lemma restore_loop_cache: "path_cache (state_of (restore_loop xs ids t)) = path_cache t"
  by (induction xs ids t rule: restore_loop.induct) (simp_all add: Let_def split: option.splits)

lemma insert_ignores_cache:
  assumes "internal_add_node E pos i t = Ok r t'" "i \<noteq> -1"
  shows "internal_add_node E pos i (t\<lparr>path_cache := c\<rparr>) = Ok r t'"
    and "dom (path_cache t') = segment_keys t'"
proof -
  from assms obtain m where m: "mesh t = Some m"
    by (auto simp: internal_add_node_def split: option.splits)
  let ?pid = "find_closest_point E (heap t m) pos"
  from assms m obtain p where p: "py_get (points (heap t m)) ?pid = Some p"
    by (auto simp: internal_add_node_def Let_def split: option.splits)
  let ?t3 = "invalidate_neighbors (i + 1) (invalidate_neighbors i
       (t\<lparr>next_actor := Suc (next_actor t),
          actor_position := (actor_position t)(next_actor t := p),
          nodes := py_insert (nodes t) (i + 1) (next_actor t),
          node_ids := py_insert (node_ids t) (i + 1) ?pid\<rparr>))"
  have e1: "internal_add_node E pos i t =
      (case update_curve E ?t3 of Raise e t4 \<Rightarrow> Raise e t4
       | Ok u t4 \<Rightarrow> Ok (next_actor t, ?pid) t4)"
    using assms(2) m p by (simp add: internal_add_node_def Let_def)
  have e2: "internal_add_node E pos i (t\<lparr>path_cache := c\<rparr>) =
      (case update_curve E ?t3 of Raise e t4 \<Rightarrow> Raise e t4
       | Ok u t4 \<Rightarrow> Ok (next_actor t, ?pid) t4)"
    using assms(2) m p by (simp add: internal_add_node_def Let_def invalidate_neighbors_def)
  show "internal_add_node E pos i (t\<lparr>path_cache := c\<rparr>) = Ok r t'"
    using assms(1) by (simp only: e1 e2)
  from assms(1) obtain u where uc: "update_curve E ?t3 = Ok u t'"
    unfolding e1 by (cases "update_curve E ?t3") simp_all
  show "dom (path_cache t') = segment_keys t'"
    by (rule update_curve_refill[OF _ uc]) (simp add: invalidate_neighbors_def)
qed

lemma remove_ignores_cache:
  assumes "a \<in> set (nodes t)"
  shows "internal_remove_node_by_actor E a (t\<lparr>path_cache := c\<rparr>)
           = internal_remove_node_by_actor E a t"
    and "internal_remove_node_by_actor E a t = Ok u t' \<Longrightarrow> dom (path_cache t') = segment_keys t'"
proof -
  from assms obtain k where k: "py_index (nodes t) a = Some k" using py_index_mem by fast
  show "internal_remove_node_by_actor E a (t\<lparr>path_cache := c\<rparr>)
           = internal_remove_node_by_actor E a t"
    using k by (simp add: internal_remove_node_by_actor_def invalidate_neighbors_def Let_def)
  assume ok: "internal_remove_node_by_actor E a t = Ok u t'"
  then obtain ids where ids: "py_pop (node_ids t) k = Some ids"
    using k by (cases "py_pop (node_ids t) k")
      (simp_all add: internal_remove_node_by_actor_def invalidate_neighbors_def Let_def)
  have "\<exists>t4. path_cache t4 = Map.empty \<and> update_curve E t4 = Ok u t'"
    using ok k ids
    by (auto simp: internal_remove_node_by_actor_def invalidate_neighbors_def Let_def
        intro!: exI)
  then show "dom (path_cache t') = segment_keys t'" using update_curve_refill by blast
qed

lemma restore_ignores_cache:
  shows "internal_restore_node E a pid idx w (t\<lparr>path_cache := c\<rparr>)
           = internal_restore_node E a pid idx w t"
    and "internal_restore_node E a pid idx w t = Ok u t' \<Longrightarrow> dom (path_cache t') = segment_keys t'"
proof -
  show "internal_restore_node E a pid idx w (t\<lparr>path_cache := c\<rparr>)
           = internal_restore_node E a pid idx w t"
    by (simp add: internal_restore_node_def invalidate_neighbors_def Let_def)
  assume "internal_restore_node E a pid idx w t = Ok u t'"
  then show "dom (path_cache t') = segment_keys t'"
    unfolding internal_restore_node_def Let_def
    by (rule update_curve_refill[rotated]) (simp add: invalidate_neighbors_def)
qed

lemma move_ignores_cache:
  assumes "a \<in> set (nodes t)" "length (nodes t) = length (node_ids t)"
  shows "internal_update_node_pos E a p pid (t\<lparr>path_cache := c\<rparr>)
           = internal_update_node_pos E a p pid t"
    and "wf E (state_of (internal_update_node_pos E a p pid t)) \<Longrightarrow>
         dom (path_cache (state_of (internal_update_node_pos E a p pid t)))
           = segment_keys (state_of (internal_update_node_pos E a p pid t))"
proof -
  from assms(1) obtain k where k: "py_index (nodes t) a = Some k" "k < length (nodes t)"
    using py_index_mem by fast
  then have ps: "py_set (node_ids t) (int k) pid = Some ((node_ids t)[k := pid])"
    using assms(2) by (simp add: py_set_def)
  let ?t2 = "t\<lparr>actor_position := (actor_position t)(a := p), node_ids := (node_ids t)[k := pid],
               path_cache := Map.empty\<rparr>"
  have e1: "internal_update_node_pos E a p pid t = Ok () (state_of (update_curve E ?t2))"
    using k ps by (simp add: internal_update_node_pos_def invalidate_neighbors_def Let_def)
  have e2: "internal_update_node_pos E a p pid (t\<lparr>path_cache := c\<rparr>)
      = Ok () (state_of (update_curve E ?t2))"
    using k ps by (simp add: internal_update_node_pos_def invalidate_neighbors_def Let_def)
  show "internal_update_node_pos E a p pid (t\<lparr>path_cache := c\<rparr>)
           = internal_update_node_pos E a p pid t"
    by (simp only: e1 e2)
  assume w: "wf E (state_of (internal_update_node_pos E a p pid t))"
  obtain c' where c': "state_of (update_curve E ?t2) = ?t2\<lparr>path_cache := c'\<rparr>"
    using update_curve_frame by blast
  from w have "wf E ?t2" unfolding e1 by (simp add: c')
  then obtain c'' where ok: "update_curve E ?t2 = Ok () (?t2\<lparr>path_cache := c''\<rparr>)"
    using update_curve_ok by blast
  have "dom (path_cache (?t2\<lparr>path_cache := c''\<rparr>)) = segment_keys (?t2\<lparr>path_cache := c''\<rparr>)"
    by (rule update_curve_refill[OF _ ok]) simp
  then show "dom (path_cache (state_of (internal_update_node_pos E a p pid t)))
           = segment_keys (state_of (internal_update_node_pos E a p pid t))"
    unfolding e1 by (simp add: ok)
qed

lemma restore_full_ignores_cache:
  shows "internal_restore_full_state E ns ids cl (t\<lparr>path_cache := c\<rparr>)
           = internal_restore_full_state E ns ids cl t"
    and "internal_restore_full_state E ns ids cl t = Ok u t' \<Longrightarrow>
         dom (path_cache t') = segment_keys t'"
proof -
  show "internal_restore_full_state E ns ids cl (t\<lparr>path_cache := c\<rparr>)
           = internal_restore_full_state E ns ids cl t"
    by (simp add: internal_restore_full_state_def internal_hard_reset_def)
  assume ok: "internal_restore_full_state E ns ids cl t = Ok u t'"
  let ?r = "restore_loop (enumerate 0 ns) ids (internal_hard_reset True t)"
  from ok obtain v t1 where r: "?r = Ok v t1"
    by (cases ?r) (simp_all add: internal_restore_full_state_def)
  have "path_cache (state_of ?r) = Map.empty"
    by (simp add: restore_loop_cache internal_hard_reset_def)
  then have pc: "path_cache (t1\<lparr>is_closed := cl\<rparr>) = Map.empty" using r by simp
  from ok r have "update_curve E (t1\<lparr>is_closed := cl\<rparr>) = Ok u t'"
    by (simp add: internal_restore_full_state_def)
  then show "dom (path_cache t') = segment_keys t'" by (rule update_curve_refill[OF pc])
qed


lemma append_keeps_entries:
  "path_cache t \<subseteq>\<^sub>m path_cache (state_of (internal_add_node E pos (-1) t))"
proof (cases "mesh t")
  case None
  then show ?thesis by (simp add: internal_add_node_def)
next
  case (Some m)
  let ?pid = "find_closest_point E (heap t m) pos"
  show ?thesis
  proof (cases "node_ids t \<noteq> [] \<and> last (node_ids t) = ?pid")
    case True
    with Some have "state_of (internal_add_node E pos (-1) t) = t"
      by (simp add: internal_add_node_def split: option.splits)
    then show ?thesis by simp
  next
    case False
    show ?thesis
    proof (cases "py_get (points (heap t m)) ?pid")
      case None
      with Some False have "path_cache (state_of (internal_add_node E pos (-1) t)) = path_cache t"
        by (auto simp: internal_add_node_def Let_def)
      then show ?thesis by simp
    next
      case p: (Some p)
      let ?t3 = "t\<lparr>next_actor := Suc (next_actor t),
                    actor_position := (actor_position t)(next_actor t := p),
                    nodes := nodes t @ [next_actor t], node_ids := node_ids t @ [?pid]\<rparr>"
      from Some False p have "state_of (internal_add_node E pos (-1) t) = state_of (update_curve E ?t3)"
        by (auto simp: internal_add_node_def Let_def)
      moreover have "path_cache ?t3 \<subseteq>\<^sub>m path_cache (state_of (update_curve E ?t3))"
        using update_curve_cache by blast
      ultimately show ?thesis by simp
    qed
  qed
qed

lemma move_cache_bound:
  assumes "a \<in> set (nodes t)" "length (nodes t) = length (node_ids t)"
  shows "dom (path_cache (state_of (internal_update_node_pos E a p pid t)))
          \<subseteq> segment_keys (state_of (internal_update_node_pos E a p pid t))"
proof -
  from assms(1) obtain k where k: "py_index (nodes t) a = Some k" "k < length (nodes t)"
    using py_index_mem by fast
  then have "py_set (node_ids t) (int k) pid = Some ((node_ids t)[k := pid])"
    using assms(2) by (simp add: py_set_def)
  then have "\<exists>t2. path_cache t2 = Map.empty \<and>
      state_of (internal_update_node_pos E a p pid t) = state_of (update_curve E t2)"
    using k by (auto simp: internal_update_node_pos_def invalidate_neighbors_def Let_def
        intro!: exI)
  then obtain t2 where t2: "path_cache t2 = Map.empty"
    "state_of (internal_update_node_pos E a p pid t) = state_of (update_curve E t2)" by blast
  show ?thesis
    using update_curve_cache[of t2 E] t2 by simp
qed

text \<open>
  Claim C9, as amended. A mid-curve insert, a removal of an anchor of the store, a restore of
  one anchor, a move, and a restore of the full state empty the whole cache and then redraw
  the curve: the outcome does not depend on what was cached before the call, and when the
  redraw returns the cached paths are exactly those of the segments of the current curve, one
  under the sorted pair of vertex ids of each segment, so that with two anchors or more the
  cache is not empty. (A move swallows an exception of the redraw; its redraw returns when
  the store it leaves is well-formed, and in any case it caches nothing but segments of the
  current curve.) An append does not empty the cache: what was cached before is still cached
  after it.
\<close>

theorem cache_after_mutation:
  "(internal_add_node E pos i t = Ok r t' \<and> i \<noteq> -1 \<longrightarrow>
      internal_add_node E pos i (t\<lparr>path_cache := c\<rparr>) = Ok r t' \<and>
      dom (path_cache t') = segment_keys t')
   \<and> (a \<in> set (nodes t) \<longrightarrow>
        internal_remove_node_by_actor E a (t\<lparr>path_cache := c\<rparr>)
          = internal_remove_node_by_actor E a t)
   \<and> (a \<in> set (nodes t) \<and> internal_remove_node_by_actor E a t = Ok u t' \<longrightarrow>
        dom (path_cache t') = segment_keys t')
   \<and> internal_restore_node E a pid idx w (t\<lparr>path_cache := c\<rparr>)
        = internal_restore_node E a pid idx w t
   \<and> (internal_restore_node E a pid idx w t = Ok u t' \<longrightarrow>
        dom (path_cache t') = segment_keys t')
   \<and> (a \<in> set (nodes t) \<and> length (nodes t) = length (node_ids t) \<longrightarrow>
        internal_update_node_pos E a p pid (t\<lparr>path_cache := c\<rparr>)
          = internal_update_node_pos E a p pid t \<and>
        dom (path_cache (state_of (internal_update_node_pos E a p pid t)))
          \<subseteq> segment_keys (state_of (internal_update_node_pos E a p pid t)))
   \<and> (a \<in> set (nodes t) \<and> length (nodes t) = length (node_ids t) \<and>
      wf E (state_of (internal_update_node_pos E a p pid t)) \<longrightarrow>
        dom (path_cache (state_of (internal_update_node_pos E a p pid t)))
          = segment_keys (state_of (internal_update_node_pos E a p pid t)))
   \<and> internal_restore_full_state E ns ids cl (t\<lparr>path_cache := c\<rparr>)
        = internal_restore_full_state E ns ids cl t
   \<and> (internal_restore_full_state E ns ids cl t = Ok u t' \<longrightarrow>
        dom (path_cache t') = segment_keys t')
   \<and> (2 \<le> length (nodes t) \<longrightarrow> segment_keys t \<noteq> {})
   \<and> path_cache t \<subseteq>\<^sub>m path_cache (state_of (internal_add_node E pos (-1) t))"
proof (intro conjI impI)
  assume h: "internal_add_node E pos i t = Ok r t' \<and> i \<noteq> -1"
  show "internal_add_node E pos i (t\<lparr>path_cache := c\<rparr>) = Ok r t'"
    by (rule insert_ignores_cache(1)[OF conjunct1[OF h] conjunct2[OF h]])
  show "dom (path_cache t') = segment_keys t'"
    by (rule insert_ignores_cache(2)[OF conjunct1[OF h] conjunct2[OF h]])
next
  assume "a \<in> set (nodes t)"
  then show "internal_remove_node_by_actor E a (t\<lparr>path_cache := c\<rparr>)
          = internal_remove_node_by_actor E a t"
    by (rule remove_ignores_cache(1))
next
  assume h: "a \<in> set (nodes t) \<and> internal_remove_node_by_actor E a t = Ok u t'"
  show "dom (path_cache t') = segment_keys t'"
    by (rule remove_ignores_cache(2)[OF conjunct1[OF h] conjunct2[OF h]])
next
  show "internal_restore_node E a pid idx w (t\<lparr>path_cache := c\<rparr>)
        = internal_restore_node E a pid idx w t"
    by (rule restore_ignores_cache(1))
next
  assume "internal_restore_node E a pid idx w t = Ok u t'"
  then show "dom (path_cache t') = segment_keys t'"
    by (rule restore_ignores_cache(2))
next
  assume h: "a \<in> set (nodes t) \<and> length (nodes t) = length (node_ids t)"
  show "internal_update_node_pos E a p pid (t\<lparr>path_cache := c\<rparr>)
          = internal_update_node_pos E a p pid t"
    by (rule move_ignores_cache(1)[OF conjunct1[OF h] conjunct2[OF h]])
  show "dom (path_cache (state_of (internal_update_node_pos E a p pid t)))
          \<subseteq> segment_keys (state_of (internal_update_node_pos E a p pid t))"
    by (rule move_cache_bound[OF conjunct1[OF h] conjunct2[OF h]])
next
  assume h: "a \<in> set (nodes t) \<and> length (nodes t) = length (node_ids t) \<and>
      wf E (state_of (internal_update_node_pos E a p pid t))"
  show "dom (path_cache (state_of (internal_update_node_pos E a p pid t)))
          = segment_keys (state_of (internal_update_node_pos E a p pid t))"
    by (rule move_ignores_cache(2)[OF conjunct1[OF h] conjunct1[OF conjunct2[OF h]]
          conjunct2[OF conjunct2[OF h]]])
next
  show "internal_restore_full_state E ns ids cl (t\<lparr>path_cache := c\<rparr>)
        = internal_restore_full_state E ns ids cl t"
    by (rule restore_full_ignores_cache(1))
next
  assume "internal_restore_full_state E ns ids cl t = Ok u t'"
  then show "dom (path_cache t') = segment_keys t'"
    by (rule restore_full_ignores_cache(2))
next
  assume "2 \<le> length (nodes t)"
  then show "segment_keys t \<noteq> {}" by (rule segment_keys_nonempty)
next
  show "path_cache t \<subseteq>\<^sub>m path_cache (state_of (internal_add_node E pos (-1) t))"
    by (rule append_keeps_entries)
qed

subsection \<open>The triangle example\<close>

lemma norm3_345: "norm3 (- 3, 4, 0) = 5" "norm3 (3, - 4, 0) = 5"
proof -
  have "sqrt 25 = 5" by (rule real_sqrt_unique) simp_all
  then show "norm3 (- 3, 4, 0) = 5" "norm3 (3, - 4, 0) = 5" by (simp_all add: norm3_def)
qed

lemma tri_segment_01:
  "path_cache t (0, 1) = None \<Longrightarrow> mesh t = Some 0 \<Longrightarrow> heap t 0 = tri_mesh \<Longrightarrow>
   node_ids t = [0, 1, 2] \<Longrightarrow>
   get_segment_points flat_env 0 1 t = Ok seg01_pts (t\<lparr>path_cache := (path_cache t)((0, 1) \<mapsto> seg01_pts)\<rparr>)"
  by (simp add: seg01_pts_def segment_eval)

lemma tri_segment_12:
  "path_cache t (1, 2) = None \<Longrightarrow> mesh t = Some 0 \<Longrightarrow> heap t 0 = tri_mesh \<Longrightarrow>
   node_ids t = [0, 1, 2] \<Longrightarrow>
   get_segment_points flat_env 1 2 t = Ok seg12_pts (t\<lparr>path_cache := (path_cache t)((1, 2) \<mapsto> seg12_pts)\<rparr>)"
  by (simp add: seg12_pts_def segment_eval norm3_345)

lemma tri_segment_20:
  "path_cache t (0, 2) = None \<Longrightarrow> mesh t = Some 0 \<Longrightarrow> heap t 0 = tri_mesh \<Longrightarrow>
   node_ids t = [0, 1, 2] \<Longrightarrow>
   get_segment_points flat_env 2 0 t = Ok seg20_pts (t\<lparr>path_cache := (path_cache t)((0, 2) \<mapsto> seg20_pts)\<rparr>)"
  by (simp add: seg20_pts_def segment_eval)

lemma upt_3: "[0..<3] = [0, 1, 2]" "[0..<2] = [0, 1]"
  by (simp_all add: upt_rec)

lemma tri_full_path_closed:
  assumes "path_cache t = Map.empty" "mesh t = Some 0" "heap t 0 = tri_mesh"
    "node_ids t = [0, 1, 2]" "length (nodes t) = 3" "is_closed t"
  shows "get_full_path_points flat_env t
           = Ok (seg01_pts @ tl seg12_pts @ tl seg20_pts) (t\<lparr>path_cache := tri_cache\<rparr>)"
proof -
  let ?t1 = "t\<lparr>path_cache := [(0, 1) \<mapsto> seg01_pts]\<rparr>"
  let ?t2 = "t\<lparr>path_cache := [(0, 1) \<mapsto> seg01_pts, (1, 2) \<mapsto> seg12_pts]\<rparr>"
  have s1: "get_segment_points flat_env 0 1 t = Ok seg01_pts ?t1"
    using tri_segment_01[of t] assms by simp
  have s2: "get_segment_points flat_env 1 2 ?t1 = Ok seg12_pts ?t2"
    using tri_segment_12[of ?t1] assms by simp
  have s3: "get_segment_points flat_env 2 0 ?t2 = Ok seg20_pts (t\<lparr>path_cache := tri_cache\<rparr>)"
    using tri_segment_20[of ?t2] assms by (simp add: tri_cache_def)
  show ?thesis
    using assms(5,6) s1 s2 s3 by (simp add: get_full_path_points_def upt_3)
qed

lemma tri_full_path_open:
  assumes "path_cache t = Map.empty" "mesh t = Some 0" "heap t 0 = tri_mesh"
    "node_ids t = [0, 1, 2]" "length (nodes t) = 3" "\<not> is_closed t"
  shows "get_full_path_points flat_env t
           = Ok (seg01_pts @ tl seg12_pts)
               (t\<lparr>path_cache := [(0, 1) \<mapsto> seg01_pts, (1, 2) \<mapsto> seg12_pts]\<rparr>)"
proof -
  let ?t1 = "t\<lparr>path_cache := [(0, 1) \<mapsto> seg01_pts]\<rparr>"
  let ?t2 = "t\<lparr>path_cache := [(0, 1) \<mapsto> seg01_pts, (1, 2) \<mapsto> seg12_pts]\<rparr>"
  have s1: "get_segment_points flat_env 0 1 t = Ok seg01_pts ?t1"
    using tri_segment_01[of t] assms by simp
  have s2: "get_segment_points flat_env 1 2 ?t1 = Ok seg12_pts ?t2"
    using tri_segment_12[of ?t1] assms by simp
  show ?thesis
    using assms(5,6) s1 s2 by (simp add: get_full_path_points_def upt_3)
qed

lemma tool02_insert:
  "internal_add_node flat_env (3, 0, 0) 0 tool02 = Ok (2, 1) tool02_inserted"
proof -
  have fcp: "find_closest_point flat_env tri_mesh (3, 0, 0) = 1"
    by (simp add: flat_env_def tri_mesh_def dist_sq_def)
  let ?t3 = "tool0\<lparr>nodes := [0, 2, 1], node_ids := [0, 1, 2], next_actor := 3,
     actor_position := (\<lambda>a. (0, 0, 0))(2 := (3, 0, 0))\<rparr>"
  have "get_full_path_points flat_env ?t3 = Ok (seg01_pts @ tl seg12_pts)
          (?t3\<lparr>path_cache := [(0, 1) \<mapsto> seg01_pts, (1, 2) \<mapsto> seg12_pts]\<rparr>)"
    by (rule tri_full_path_open) (simp_all add: tool0_def)
  then have uc: "update_curve flat_env ?t3 = Ok () tool02_inserted"
    by (simp add: update_curve_def tool02_inserted_def tool0_def)
  have pts: "py_get (points tri_mesh) 1 = Some (3, 0, 0)"
    by (simp add: py_get_def tri_mesh_def)
  have t3: "invalidate_neighbors 1 (invalidate_neighbors 0
      (tool02\<lparr>next_actor := Suc (next_actor tool02),
          actor_position := (actor_position tool02)(next_actor tool02 := (3, 0, 0)),
          nodes := py_insert (nodes tool02) 1 (next_actor tool02),
          node_ids := py_insert (node_ids tool02) 1 1\<rparr>)) = ?t3"
    by (simp add: invalidate_neighbors_def tool02_def tool0_def py_insert_def)
  have m: "mesh tool02 = Some 0" "heap tool02 0 = tri_mesh" "node_ids tool02 \<noteq> []"
    "next_actor tool02 = 2"
    by (simp_all add: tool02_def tool0_def)
  show ?thesis
    unfolding internal_add_node_def
    using fcp pts uc m t3 by (simp add: Let_def)
qed

lemma two_anchor_curve:
  assumes "path_cache t = Map.empty" "mesh t = Some 0" "heap t 0 = tri_mesh"
    "node_ids t = [0, 1]" "length (nodes t) = 2" "\<not> is_closed t"
  shows "update_curve flat_env t = Ok () (t\<lparr>path_cache := [(0, 1) \<mapsto> seg01_pts]\<rparr>)"
proof -
  have "get_segment_points flat_env 0 1 t = Ok seg01_pts (t\<lparr>path_cache := [(0, 1) \<mapsto> seg01_pts]\<rparr>)"
    using assms(1-4) by (simp add: seg01_pts_def segment_eval)
  then show ?thesis
    using assms(5,6) by (simp add: update_curve_def get_full_path_points_def)
qed

lemma tri_open_remove:
  "internal_remove_node_by_actor flat_env 2 tri_open
     = Ok () (tool2\<lparr>next_actor := 3, path_cache := [(0, 1) \<mapsto> seg01_pts]\<rparr>)"
proof -
  let ?t4 = "tool0\<lparr>nodes := [0, 1], node_ids := [0, 1], next_actor := 3\<rparr>"
  have "internal_remove_node_by_actor flat_env 2 tri_open = update_curve flat_env ?t4"
    by (simp add: internal_remove_node_by_actor_def invalidate_neighbors_def py_pop_def
        tri_open_def tri_tool_def tool0_def Let_def)
  moreover have "update_curve flat_env ?t4 = Ok () (?t4\<lparr>path_cache := [(0, 1) \<mapsto> seg01_pts]\<rparr>)"
    by (rule two_anchor_curve) (simp_all add: tool0_def)
  ultimately show ?thesis by (simp add: tool2_def tool0_def)
qed

lemma tool1_restore:
  "internal_restore_node flat_env 1 1 1 False tool1
     = Ok () (tool2\<lparr>next_actor := 1, path_cache := [(0, 1) \<mapsto> seg01_pts]\<rparr>)"
proof -
  let ?t2 = "tool0\<lparr>nodes := [0, 1], node_ids := [0, 1], next_actor := 1\<rparr>"
  have "internal_restore_node flat_env 1 1 1 False tool1 = update_curve flat_env ?t2"
    by (simp add: internal_restore_node_def invalidate_neighbors_def py_insert_def
        tool1_def tool0_def Let_def)
  moreover have "update_curve flat_env ?t2 = Ok () (?t2\<lparr>path_cache := [(0, 1) \<mapsto> seg01_pts]\<rparr>)"
    by (rule two_anchor_curve) (simp_all add: tool0_def)
  ultimately show ?thesis by (simp add: tool2_def tool0_def)
qed

lemma tool02_move:
  "internal_update_node_pos flat_env 1 (3, 0, 0) 1 tool02
     = Ok () (tool2\<lparr>actor_position := (\<lambda>a. (0, 0, 0))(1 := (3, 0, 0)),
                    path_cache := [(0, 1) \<mapsto> seg01_pts]\<rparr>)"
proof -
  let ?t2 = "tool0\<lparr>nodes := [0, 1], node_ids := [0, 1], next_actor := 2,
                   actor_position := (\<lambda>a. (0, 0, 0))(1 := (3, 0, 0))\<rparr>"
  have "internal_update_node_pos flat_env 1 (3, 0, 0) 1 tool02
      = Ok () (state_of (update_curve flat_env ?t2))"
    by (simp add: internal_update_node_pos_def invalidate_neighbors_def py_set_def
        tool02_def tool0_def Let_def)
  moreover have "update_curve flat_env ?t2 = Ok () (?t2\<lparr>path_cache := [(0, 1) \<mapsto> seg01_pts]\<rparr>)"
    by (rule two_anchor_curve) (simp_all add: tool0_def)
  ultimately show ?thesis by (simp add: tool2_def tool0_def)
qed

lemma tool2_restore_full:
  "internal_restore_full_state flat_env [0, 1] [0, 1] False tool2
     = Ok () (tool2\<lparr>path_cache := [(0, 1) \<mapsto> seg01_pts]\<rparr>)"
proof -
  have "internal_restore_full_state flat_env [0, 1] [0, 1] False tool2 = update_curve flat_env tool2"
    by (simp add: internal_restore_full_state_def internal_hard_reset_def py_get_def
        tool2_def tool0_def Let_def)
  moreover have "update_curve flat_env tool2 = Ok () (tool2\<lparr>path_cache := [(0, 1) \<mapsto> seg01_pts]\<rparr>)"
    by (rule two_anchor_curve) (simp_all add: tool2_def tool0_def)
  ultimately show ?thesis by simp
qed


text \<open>
  Claim C9 as stated fails already for an append: the store holds one anchor and a cached
  path under the key \<open>(7, 9)\<close>; appending an anchor on vertex 1 leaves that entry in the
  cache and adds the path of the new segment, so the cache is not empty after the mutation.
\<close>

theorem append_keeps_cache:
  "path_cache tool1_stale (7, 9) = Some []
   \<and> internal_add_node flat_env (3, 0, 0) (-1) tool1_stale = Ok (1, 1) tool1_stale_added
   \<and> path_cache tool1_stale_added (7, 9) = Some []
   \<and> path_cache tool1_stale_added (0, 1) = Some seg01_pts
   \<and> path_cache tool1_stale_added \<noteq> Map.empty"
proof (intro conjI)
  show "path_cache tool1_stale (7, 9) = Some []" by (simp add: tool1_stale_def)
  show "internal_add_node flat_env (3, 0, 0) (-1) tool1_stale = Ok (1, 1) tool1_stale_added"
    by (simp add: internal_add_node_def update_curve_def get_full_path_points_def
      tool1_stale_def tool1_stale_added_def tool1_def tool1_added_def tool0_def seg01_pts_def
      segment_eval)
  show a: "path_cache tool1_stale_added (7, 9) = Some []" by (simp add: tool1_stale_added_def)
  show "path_cache tool1_stale_added (0, 1) = Some seg01_pts" by (simp add: tool1_stale_added_def)
  show "path_cache tool1_stale_added \<noteq> Map.empty" using a by auto
qed

theorem cache_after_mutation_witness:
  "internal_add_node flat_env (3, 0, 0) 0 (tool02\<lparr>path_cache := [(7, 9) \<mapsto> []]\<rparr>)
     = Ok (2, 1) tool02_inserted
   \<and> dom (path_cache tool02_inserted) = segment_keys tool02_inserted
   \<and> internal_remove_node_by_actor flat_env 2 (tri_open\<lparr>path_cache := [(7, 9) \<mapsto> []]\<rparr>)
     = internal_remove_node_by_actor flat_env 2 tri_open
   \<and> dom (path_cache (tool2\<lparr>next_actor := 3, path_cache := [(0, 1) \<mapsto> seg01_pts]\<rparr>))
     = segment_keys (tool2\<lparr>next_actor := 3, path_cache := [(0, 1) \<mapsto> seg01_pts]\<rparr>)
   \<and> dom (path_cache (tool2\<lparr>next_actor := 1, path_cache := [(0, 1) \<mapsto> seg01_pts]\<rparr>))
     = segment_keys (tool2\<lparr>next_actor := 1, path_cache := [(0, 1) \<mapsto> seg01_pts]\<rparr>)
   \<and> internal_update_node_pos flat_env 1 (3, 0, 0) 1 (tool02\<lparr>path_cache := [(7, 9) \<mapsto> []]\<rparr>)
     = internal_update_node_pos flat_env 1 (3, 0, 0) 1 tool02
   \<and> dom (path_cache (state_of (internal_update_node_pos flat_env 1 (3, 0, 0) 1 tool02)))
     = segment_keys (state_of (internal_update_node_pos flat_env 1 (3, 0, 0) 1 tool02))
   \<and> dom (path_cache (tool2\<lparr>path_cache := [(0, 1) \<mapsto> seg01_pts]\<rparr>))
     = segment_keys (tool2\<lparr>path_cache := [(0, 1) \<mapsto> seg01_pts]\<rparr>)
   \<and> segment_keys tool2 \<noteq> {}"
proof -
  have h1: "internal_add_node flat_env (3, 0, 0) 0 tool02 = Ok (2, 1) tool02_inserted \<and> (0::int) \<noteq> -1"
    using tool02_insert by simp
  have h2: "2 \<in> set (nodes tri_open)" by (simp add: tri_open_def tri_tool_def tool0_def)
  have h3: "2 \<in> set (nodes tri_open) \<and> internal_remove_node_by_actor flat_env 2 tri_open
      = Ok () (tool2\<lparr>next_actor := 3, path_cache := [(0, 1) \<mapsto> seg01_pts]\<rparr>)"
    using h2 tri_open_remove by (rule conjI)
  have h6: "1 \<in> set (nodes tool02) \<and> length (nodes tool02) = length (node_ids tool02)"
    by (simp add: tool02_def tool0_def)
  have "wf flat_env (tool2\<lparr>actor_position := (\<lambda>a. (0, 0, 0))(1 := (3, 0, 0)),
                    path_cache := [(0, 1) \<mapsto> seg01_pts]\<rparr>)"
    using wf_tool2 by (simp add: wf_def cong: option.case_cong)
  then have w: "wf flat_env (state_of (internal_update_node_pos flat_env 1 (3, 0, 0) 1 tool02))"
    by (simp only: tool02_move state_of.simps)
  have h7: "1 \<in> set (nodes tool02) \<and> length (nodes tool02) = length (node_ids tool02) \<and>
      wf flat_env (state_of (internal_update_node_pos flat_env 1 (3, 0, 0) 1 tool02))"
    using h6 w by simp
  have h10: "2 \<le> length (nodes tool2)" by (simp add: tool2_def tool0_def)
  note c1 = cache_after_mutation[where E = flat_env and pos = "(3, 0, 0)" and i = 0
      and t = tool02 and r = "(2, 1)" and t' = tool02_inserted and c = "[(7, 9) \<mapsto> []]",
      THEN conjunct1, THEN mp, OF h1]
  note c2 = cache_after_mutation[where E = flat_env and a = 2 and t = tri_open
      and c = "[(7, 9) \<mapsto> []]", THEN conjunct2, THEN conjunct1, THEN mp, OF h2]
  note c3 = cache_after_mutation[where E = flat_env and a = 2 and t = tri_open and u = "()"
      and t' = "tool2\<lparr>next_actor := 3, path_cache := [(0, 1) \<mapsto> seg01_pts]\<rparr>",
      THEN conjunct2, THEN conjunct2, THEN conjunct1, THEN mp, OF h3]
  note c5 = cache_after_mutation[where E = flat_env and a = 1 and pid = 1 and idx = 1
      and w = False and t = tool1 and u = "()"
      and t' = "tool2\<lparr>next_actor := 1, path_cache := [(0, 1) \<mapsto> seg01_pts]\<rparr>",
      THEN conjunct2, THEN conjunct2, THEN conjunct2, THEN conjunct2, THEN conjunct1, THEN mp, OF tool1_restore]
  note c6 = cache_after_mutation[where E = flat_env and a = 1 and p = "(3, 0, 0)" and pid = 1
      and t = tool02 and c = "[(7, 9) \<mapsto> []]", THEN conjunct2, THEN conjunct2, THEN conjunct2, THEN conjunct2, THEN conjunct2, THEN conjunct1, THEN mp, OF h6]
  note c7 = cache_after_mutation[where E = flat_env and a = 1 and p = "(3, 0, 0)" and pid = 1
      and t = tool02, THEN conjunct2, THEN conjunct2, THEN conjunct2, THEN conjunct2, THEN conjunct2, THEN conjunct2, THEN conjunct1, THEN mp, OF h7]
  note c9 = cache_after_mutation[where E = flat_env and ns = "[0, 1]" and ids = "[0, 1]"
      and cl = False and t = tool2 and u = "()"
      and t' = "tool2\<lparr>path_cache := [(0, 1) \<mapsto> seg01_pts]\<rparr>",
      THEN conjunct2, THEN conjunct2, THEN conjunct2, THEN conjunct2, THEN conjunct2, THEN conjunct2, THEN conjunct2, THEN conjunct2, THEN conjunct1, THEN mp, OF tool2_restore_full]
  note c10 = cache_after_mutation[where t = tool2, THEN conjunct2, THEN conjunct2, THEN conjunct2, THEN conjunct2, THEN conjunct2, THEN conjunct2, THEN conjunct2, THEN conjunct2, THEN conjunct2, THEN conjunct1, THEN mp, OF h10]
  show ?thesis
    by (intro conjI) (rule c1[THEN conjunct1] c1[THEN conjunct2] c2 c3 c5 c6[THEN conjunct1]
        c7 c9 c10)+
qed

subsection \<open>Closed loops and the number of anchors\<close>

text \<open>
  The first two sentences of claim C6 hold: removing an anchor that is in the store leaves one
  anchor less, and when fewer than three are left the loop is open afterwards; so removing
  any anchor of a closed three-anchor loop opens it.
\<close>

lemma remove_clears_closed:
  assumes "a \<in> set (nodes t)" "length (nodes t) = length (node_ids t)"
  shows "length (nodes (state_of (internal_remove_node_by_actor E a t))) = length (nodes t) - 1
         \<and> (length (nodes (state_of (internal_remove_node_by_actor E a t))) < 3
              \<longrightarrow> \<not> is_closed (state_of (internal_remove_node_by_actor E a t)))"
proof -
  from assms(1) obtain k where k: "py_index (nodes t) a = Some k" "k < length (nodes t)"
    using py_index_mem by fast
  let ?ns = "take k (nodes t) @ drop (Suc k) (nodes t)"
  let ?ids = "take k (node_ids t) @ drop (Suc k) (node_ids t)"
  let ?t3 = "t\<lparr>path_cache := Map.empty, nodes := ?ns, node_ids := ?ids\<rparr>"
  let ?t4 = "if length ?ns < 3 then ?t3\<lparr>is_closed := False\<rparr> else ?t3"
  have pop: "py_pop (node_ids t) k = Some ?ids" using k assms(2) by (simp add: py_pop_def)
  have r: "internal_remove_node_by_actor E a t = update_curve E ?t4"
    using k pop by (simp add: internal_remove_node_by_actor_def invalidate_neighbors_def Let_def)
  obtain c where c: "state_of (update_curve E ?t4) = ?t4\<lparr>path_cache := c\<rparr>"
    using update_curve_frame by blast
  have len: "length ?ns = length (nodes t) - 1" using k by simp
  show ?thesis
    unfolding r c using len by (simp split: if_splits)
qed

text \<open>
  Claim C6 says that every operation keeps a closed loop at three anchors or more. The code
  guards \<^verbatim>\<open>close_loop\<close> and clears the flag on removal, but re-executing a
  \<^verbatim>\<open>BezierCmdCloseLoop\<close> from the redo stack sets the flag with no check. At this input:
  three anchors, open loop; \<^verbatim>\<open>close_loop()\<close>; undo; \<^verbatim>\<open>clear_all_markup()\<close> (which
  resets the tool without going through the command manager); redo. The loop is then closed
  with no anchor at all.
\<close>

theorem redo_closes_empty_loop:
  "\<not> is_closed tri_open \<and> length (nodes tri_open) = 3
   \<and> close_loop flat_env (app_of tri_open)
       = Ok () \<lparr>undo_stack = [close_cmd], redo_stack = [], bezier = tri_closed_cached\<rparr>
   \<and> cm_undo flat_env \<lparr>undo_stack = [close_cmd], redo_stack = [], bezier = tri_closed_cached\<rparr>
       = Ok () \<lparr>undo_stack = [], redo_stack = [close_cmd], bezier = tri_open_cached\<rparr>
   \<and> cm_redo flat_env \<lparr>undo_stack = [], redo_stack = [close_cmd],
                         bezier = clear_all_markup tri_open_cached\<rparr>
       = Ok () \<lparr>undo_stack = [close_cmd], redo_stack = [],
                bezier = (clear_all_markup tri_open_cached)\<lparr>is_closed := True\<rparr>\<rparr>
   \<and> is_closed ((clear_all_markup tri_open_cached)\<lparr>is_closed := True\<rparr>)
   \<and> nodes ((clear_all_markup tri_open_cached)\<lparr>is_closed := True\<rparr>) = []"
proof (intro conjI)
  show "\<not> is_closed tri_open" by (simp add: tri_open_def)
  show "length (nodes tri_open) = 3" by (simp add: tri_open_def tri_tool_def tool0_def)
  have "get_full_path_points flat_env tri_tool
      = Ok (seg01_pts @ tl seg12_pts @ tl seg20_pts) (tri_tool\<lparr>path_cache := tri_cache\<rparr>)"
    by (rule tri_full_path_closed) (simp_all add: tri_tool_def tool0_def)
  then have uc: "update_curve flat_env (tri_open\<lparr>is_closed := True\<rparr>) = Ok () tri_closed_cached"
    by (simp add: update_curve_def tri_closed_cached_def tri_open_def tri_tool_def tool0_def)
  have g: "2 < length (nodes tri_open)" "\<not> is_closed tri_open"
    by (simp_all add: tri_open_def tri_tool_def tool0_def)
  show "close_loop flat_env (app_of tri_open)
       = Ok () \<lparr>undo_stack = [close_cmd], redo_stack = [], bezier = tri_closed_cached\<rparr>"
    using uc g
    by (simp add: close_loop_def cm_execute_def new_BezierCmdCloseLoop_def app_of_def close_cmd_def)
  have uo: "update_curve flat_env (tri_closed_cached\<lparr>is_closed := False\<rparr>) = Ok () tri_open_cached"
    by (simp add: update_curve_def get_full_path_points_def get_segment_points_def py_get_def
        tri_closed_cached_def tri_open_cached_def tri_open_def tri_tool_def tool0_def tri_cache_def
        upt_3)
  show "cm_undo flat_env \<lparr>undo_stack = [close_cmd], redo_stack = [], bezier = tri_closed_cached\<rparr>
       = Ok () \<lparr>undo_stack = [], redo_stack = [close_cmd], bezier = tri_open_cached\<rparr>"
    using uo by (simp add: cm_undo_def close_cmd_def)
  have n: "nodes (clear_all_markup tri_open_cached) = []"
    by (simp add: clear_all_markup_def internal_hard_reset_def)
  then have ue: "update_curve flat_env ((clear_all_markup tri_open_cached)\<lparr>is_closed := True\<rparr>)
      = Ok () ((clear_all_markup tri_open_cached)\<lparr>is_closed := True\<rparr>)"
    by (simp add: update_curve_def get_full_path_points_def)
  show "cm_redo flat_env \<lparr>undo_stack = [], redo_stack = [close_cmd],
                         bezier = clear_all_markup tri_open_cached\<rparr>
       = Ok () \<lparr>undo_stack = [close_cmd], redo_stack = [],
                bezier = (clear_all_markup tri_open_cached)\<lparr>is_closed := True\<rparr>\<rparr>"
    using ue by (simp add: cm_redo_def close_cmd_def)
  show "is_closed ((clear_all_markup tri_open_cached)\<lparr>is_closed := True\<rparr>)" by simp
  show "nodes ((clear_all_markup tri_open_cached)\<lparr>is_closed := True\<rparr>) = []" using n by simp
qed

subsection \<open>The points of a segment path\<close>

lemma dist_sq_zero: "dist_sq p q = 0 \<longleftrightarrow> p = q"
proof -
  obtain x1 y1 z1 where p: "p = (x1, y1, z1)" by (cases p) auto
  obtain x2 y2 z2 where q: "q = (x2, y2, z2)" by (cases q) auto
  have "(x1 - x2) * (x1 - x2) + (y1 - y2) * (y1 - y2) + (z1 - z2) * (z1 - z2) = 0
        \<longleftrightarrow> x1 = x2 \<and> y1 = y2 \<and> z1 = z2"
    by (simp add: add_nonneg_eq_0_iff)
  then show ?thesis by (simp add: p q dist_sq_def)
qed

lemma dist_sq_nonneg: "0 \<le> dist_sq p q"
proof -
  obtain x1 y1 z1 where p: "p = (x1, y1, z1)" by (cases p) auto
  obtain x2 y2 z2 where q: "q = (x2, y2, z2)" by (cases q) auto
  show ?thesis by (simp add: p q dist_sq_def)
qed

lemma nearest_index_min:
  "k < length P \<Longrightarrow> dist_sq (P ! nearest_index P q) q \<le> dist_sq (P ! k) q"
proof (induction P q arbitrary: k rule: nearest_index.induct)
  case (1 q)
  then show ?case by simp
next
  case (2 p q)
  then show ?case by simp
next
  case (3 p p' ps q)
  let ?r = "nearest_index (p' # ps) q"
  show ?case
  proof (cases k)
    case 0
    then show ?thesis by (simp add: Let_def)
  next
    case (Suc k')
    with "3.prems" have "k' < length (p' # ps)" by simp
    then have "dist_sq ((p' # ps) ! ?r) q \<le> dist_sq ((p' # ps) ! k') q" by (rule "3.IH")
    then show ?thesis using Suc by (auto simp: Let_def)
  qed
qed

lemma flat_env_nearest: "P \<noteq> [] \<Longrightarrow> kd_nearest flat_env P"
  by (simp add: kd_nearest_def flat_env_def nearest_index_less nearest_index_min)

lemma py_get_Some_nth:
  assumes "py_get xs i = Some v"
  shows "\<exists>k < length xs. xs ! k = v"
proof -
  let ?j = "if i < 0 then int (length xs) + i else i"
  from assms have j: "0 \<le> ?j" "?j < int (length xs)" "v = xs ! nat ?j"
    by (auto simp: py_get_def Let_def split: if_splits)
  then have "nat ?j < length xs" by linarith
  with j(3) show ?thesis by blast
qed

lemma snap_vertex:
  assumes "kd_nearest E P" "k < length P"
  shows "P ! kd_query E P (P ! k) = P ! k"
proof -
  have "dist_sq (P ! kd_query E P (P ! k)) (P ! k) \<le> dist_sq (P ! k) (P ! k)"
    using assms unfolding kd_nearest_def by blast
  moreover have "dist_sq (P ! k) (P ! k) = 0" by (simp add: dist_sq_zero)
  ultimately have "dist_sq (P ! kd_query E P (P ! k)) (P ! k) = 0"
    using dist_sq_nonneg[of "P ! kd_query E P (P ! k)" "P ! k"] by linarith
  then show ?thesis by (simp add: dist_sq_zero)
qed

lemma norm3_nonneg: "0 \<le> norm3 v"
proof -
  obtain x y z where "v = (x, y, z)" by (cases v) auto
  then show ?thesis by (simp add: norm3_def)
qed

lemma trunc_max_10: "nat (py_int (max 10 x)) = max 10 (nat \<lfloor>x\<rfloor>)"
proof (cases "x \<le> 10")
  case True
  then have "\<lfloor>x\<rfloor> \<le> 10" by (simp add: floor_le_iff)
  then have "nat \<lfloor>x\<rfloor> \<le> 10" by linarith
  moreover have "nat (py_int (max 10 x)) = 10" using True by (simp add: py_int_def max_def)
  ultimately show ?thesis by simp
next
  case False
  then have "10 \<le> \<lfloor>x\<rfloor>" by (simp add: le_floor_iff)
  then have "10 \<le> nat \<lfloor>x\<rfloor>" by linarith
  moreover have "nat (py_int (max 10 x)) = nat \<lfloor>x\<rfloor>"
    using False by (simp add: py_int_def max_def)
  ultimately show ?thesis by simp
qed

lemma segment_num_eq: "segment_num E p_a p_b = max 10 (nat \<lfloor>point_dist E p_a p_b / 0.5\<rfloor>)"
  unfolding segment_num_def by (rule trunc_max_10)

text \<open>
  The number of points follows the computed distance: a distance that floating-point
  arithmetic returns as \<open>6\<close> gives 12 points, one returned just below \<open>6\<close> gives 11.
\<close>

lemma segment_num_follows_rounding:
  "point_dist E p_a p_b = 6 \<Longrightarrow> segment_num E p_a p_b = 12"
  "11 / 2 \<le> point_dist E p_a p_b \<Longrightarrow> point_dist E p_a p_b < 6 \<Longrightarrow> segment_num E p_a p_b = 11"
proof -
  assume "point_dist E p_a p_b = 6"
  then show "segment_num E p_a p_b = 12" by (simp add: segment_num_eq)
next
  assume a: "11 / 2 \<le> point_dist E p_a p_b" "point_dist E p_a p_b < 6"
  then have "\<lfloor>point_dist E p_a p_b / 0.5\<rfloor> = 11" by (simp add: floor_eq_iff)
  then show "segment_num E p_a p_b = 11" by (simp add: segment_num_eq)
qed

lemma interpolate_ends:
  assumes "2 \<le> num"
  shows "length (interpolate p_a p_b num) = num"
    and "hd (interpolate p_a p_b num) = p_a"
    and "last (interpolate p_a p_b num) = p_b"
proof -
  obtain x1 y1 z1 where a: "p_a = (x1, y1, z1)" by (cases p_a) auto
  obtain x2 y2 z2 where b: "p_b = (x2, y2, z2)" by (cases p_b) auto
  have ls: "linspace01 num = map (\<lambda>k. real k / real (num - 1)) [0..<num]"
    using assms by (simp add: linspace01_def)
  show "length (interpolate p_a p_b num) = num" by (simp add: interpolate_def ls)
  have ne: "[0..<num] \<noteq> []" using assms by simp
  have "hd (map (\<lambda>k. real k / real (num - 1)) [0..<num]) = 0"
    using assms by (simp add: hd_map ne hd_upt)
  then show "hd (interpolate p_a p_b num) = p_a"
    using ne by (simp add: interpolate_def ls hd_map a b)
  have "last (map (\<lambda>k. real k / real (num - 1)) [0..<num]) = 1"
    using assms ne by (simp add: last_map last_upt)
  then show "last (interpolate p_a p_b num) = p_b"
    using ne by (simp add: interpolate_def ls last_map a b)
qed

text \<open>
  Claim C7 as stated fails on two counts. The surface has the vertices \<open>(0, 0, 0)\<close> and
  \<open>(43/8, 0, 0)\<close>, the anchors sit on the vertices 0, 1, 0. The segment from anchor 0 to
  anchor 1 has length \<open>43/8\<close> (a dyadic number, which the floating-point computation of
  the distance returns exactly), so \<open>|b - a| / 0.5 = 10.75\<close>: the path has 10 points
  (\<^verbatim>\<open>int\<close> truncates), not the 11 of rounding. The segment from anchor 1 to anchor 2 has the
  same pair of vertex ids, so the call returns the cached path of the first segment, whose
  first point is the position of vertex 0 and not that of anchor 1.
\<close>

theorem segment_count_and_direction:
  "get_segment_points flat_env 0 1 line_tool
     = Ok line_pts (line_tool\<lparr>path_cache := [(0, 1) \<mapsto> line_pts]\<rparr>)
   \<and> length line_pts = 10
   \<and> max 10 (round (norm3 (vsub (43 / 8, 0, 0) (0, 0, 0)) / 0.5)) = 11
   \<and> get_segment_points flat_env 1 2 (line_tool\<lparr>path_cache := [(0, 1) \<mapsto> line_pts]\<rparr>)
     = Ok line_pts (line_tool\<lparr>path_cache := [(0, 1) \<mapsto> line_pts]\<rparr>)
   \<and> py_get (node_ids line_tool) 1 = Some 1
   \<and> py_get (points line_mesh) 1 = Some (43 / 8, 0, 0)
   \<and> hd line_pts = (0, 0, 0)"
proof (intro conjI)
  show "get_segment_points flat_env 0 1 line_tool
     = Ok line_pts (line_tool\<lparr>path_cache := [(0, 1) \<mapsto> line_pts]\<rparr>)"
    by (simp add: get_segment_points_def line_tool_def tool0_def line_mesh_def line_pts_def
        flat_env_def py_get_def segment_num_def py_int_def interpolate_def linspace01_def
        take_points_def dist_sq_def Let_def upt_10 norm3_axis)
  show "length line_pts = 10" by (simp add: line_pts_def)
  show "max 10 (round (norm3 (vsub (43 / 8, 0, 0) (0, 0, 0)) / 0.5)) = 11"
    by (simp add: norm3_axis round_def)
  show "get_segment_points flat_env 1 2 (line_tool\<lparr>path_cache := [(0, 1) \<mapsto> line_pts]\<rparr>)
     = Ok line_pts (line_tool\<lparr>path_cache := [(0, 1) \<mapsto> line_pts]\<rparr>)"
    by (simp add: get_segment_points_def line_tool_def tool0_def py_get_def)
  show "py_get (node_ids line_tool) 1 = Some 1" by (simp add: line_tool_def tool0_def py_get_def)
  show "py_get (points line_mesh) 1 = Some (43 / 8, 0, 0)" by (simp add: line_mesh_def py_get_def)
  show "hd line_pts = (0, 0, 0)" by (simp add: line_pts_def)
qed

text \<open>
  Claim C7, as amended. When no path is cached for the two vertex ids and the k-d tree returns
  nearest vertices, \<^verbatim>\<open>_get_segment_points(i, j)\<close> returns \<open>max 10 \<lfloor>d / 0.5\<rfloor>\<close> points,
  \<open>d\<close> the distance of the two positions as \<^verbatim>\<open>np.linalg.norm\<close> returns it (the quotient
  truncated, not rounded), the first the surface position of anchor \<open>i\<close> and the last that
  of anchor \<open>j\<close>. When a path is cached for the pair, the call returns it as it is stored.
\<close>

theorem segment_points_on_miss:
  "(mesh t = Some m \<and> py_get (node_ids t) i = Some a \<and> py_get (node_ids t) j = Some b \<and>
    path_cache t (min a b, max a b) = None \<and>
    py_get (points (heap t m)) a = Some p_a \<and> py_get (points (heap t m)) b = Some p_b \<and>
    kd_nearest E (points (heap t m))
    \<longrightarrow> (\<exists>pts t'. get_segment_points E i j t = Ok pts t' \<and>
          length pts = max 10 (nat \<lfloor>point_dist E p_a p_b / 0.5\<rfloor>) \<and>
          hd pts = p_a \<and> last pts = p_b))
   \<and> (py_get (node_ids t) i = Some a \<and> py_get (node_ids t) j = Some b \<and>
      path_cache t (min a b, max a b) = Some cached
      \<longrightarrow> get_segment_points E i j t = Ok cached t)"
proof (intro conjI impI)
  assume h: "mesh t = Some m \<and> py_get (node_ids t) i = Some a \<and> py_get (node_ids t) j = Some b \<and>
    path_cache t (min a b, max a b) = None \<and>
    py_get (points (heap t m)) a = Some p_a \<and> py_get (points (heap t m)) b = Some p_b \<and>
    kd_nearest E (points (heap t m))"
  let ?P = "points (heap t m)"
  let ?num = "segment_num E p_a p_b"
  let ?interp = "interpolate p_a p_b ?num"
  let ?pts = "map (\<lambda>q. ?P ! kd_query E ?P q) ?interp"
  from h have kd: "kd_nearest E ?P" by simp
  have num: "?num = max 10 (nat \<lfloor>point_dist E p_a p_b / 0.5\<rfloor>)" by (rule segment_num_eq)
  then have two: "2 \<le> ?num" by simp
  note ends = interpolate_ends[OF two, of p_a p_b]
  have ne: "?interp \<noteq> []" using ends(1) two by auto
  have "take_points ?P (map (kd_query E ?P) ?interp) = Some (map (\<lambda>i. ?P ! i) (map (kd_query E ?P) ?interp))"
    using kd by (intro take_points_ok) (auto simp: kd_nearest_def)
  then have tk: "take_points ?P (map (kd_query E ?P) ?interp) = Some ?pts"
    by (simp add: comp_def)
  have res: "get_segment_points E i j t
      = Ok ?pts (t\<lparr>path_cache := (path_cache t)((min a b, max a b) \<mapsto> ?pts)\<rparr>)"
    using h tk by (simp add: get_segment_points_def Let_def)
  from h have ga: "py_get ?P a = Some p_a" and gb: "py_get ?P b = Some p_b" by simp_all
  obtain ka where ka: "ka < length ?P" "?P ! ka = p_a" using py_get_Some_nth[OF ga] by blast
  obtain kb where kb: "kb < length ?P" "?P ! kb = p_b" using py_get_Some_nth[OF gb] by blast
  have "hd ?pts = ?P ! kd_query E ?P (hd ?interp)" using ne by (simp add: hd_map)
  also have "\<dots> = p_a" using snap_vertex[OF kd ka(1)] by (simp only: ka(2) ends(2))
  finally have hd: "hd ?pts = p_a" .
  have "last ?pts = ?P ! kd_query E ?P (last ?interp)" using ne by (simp add: last_map)
  also have "\<dots> = p_b" using snap_vertex[OF kd kb(1)] by (simp only: kb(2) ends(3))
  finally have lst: "last ?pts = p_b" .
  have len: "length ?pts = max 10 (nat \<lfloor>point_dist E p_a p_b / 0.5\<rfloor>)"
    using ends(1) num by (simp only: length_map)
  show "\<exists>pts t'. get_segment_points E i j t = Ok pts t' \<and>
          length pts = max 10 (nat \<lfloor>point_dist E p_a p_b / 0.5\<rfloor>) \<and>
          hd pts = p_a \<and> last pts = p_b"
    by (intro exI conjI) (rule res hd lst len)+
next
  assume "py_get (node_ids t) i = Some a \<and> py_get (node_ids t) j = Some b \<and>
      path_cache t (min a b, max a b) = Some cached"
  then show "get_segment_points E i j t = Ok cached t"
    by (simp add: get_segment_points_def)
qed

theorem segment_points_on_miss_witness:
  "mesh tool2 = Some 0 \<and> py_get (node_ids tool2) 0 = Some 0 \<and> py_get (node_ids tool2) 1 = Some 1
   \<and> path_cache tool2 (min 0 1, max 0 1) = None
   \<and> py_get (points (heap tool2 0)) 0 = Some (0, 0, 0)
   \<and> py_get (points (heap tool2 0)) 1 = Some (3, 0, 0)
   \<and> kd_nearest flat_env (points (heap tool2 0))
   \<and> (\<exists>pts t'. get_segment_points flat_env 0 1 tool2 = Ok pts t' \<and>
          length pts = max 10 (nat \<lfloor>point_dist flat_env (0, 0, 0) (3, 0, 0) / 0.5\<rfloor>) \<and>
          hd pts = (0, 0, 0) \<and> last pts = (3, 0, 0))
   \<and> path_cache (tool2\<lparr>path_cache := [(0, 1) \<mapsto> seg01_pts]\<rparr>) (min 0 1, max 0 1) = Some seg01_pts
   \<and> get_segment_points flat_env 0 1 (tool2\<lparr>path_cache := [(0, 1) \<mapsto> seg01_pts]\<rparr>)
       = Ok seg01_pts (tool2\<lparr>path_cache := [(0, 1) \<mapsto> seg01_pts]\<rparr>)"
proof -
  have kd: "kd_nearest flat_env (points (heap tool2 0))"
    by (rule flat_env_nearest) (simp add: tool2_def tool0_def tri_mesh_def)
  have h1: "mesh tool2 = Some 0 \<and> py_get (node_ids tool2) 0 = Some 0 \<and> py_get (node_ids tool2) 1 = Some 1
     \<and> path_cache tool2 (min 0 1, max 0 1) = None
     \<and> py_get (points (heap tool2 0)) 0 = Some (0, 0, 0)
     \<and> py_get (points (heap tool2 0)) 1 = Some (3, 0, 0)
     \<and> kd_nearest flat_env (points (heap tool2 0))"
    using kd by (simp add: tool2_def tool0_def tri_mesh_def py_get_def)
  let ?t = "tool2\<lparr>path_cache := [(0, 1) \<mapsto> seg01_pts]\<rparr>"
  have h2: "py_get (node_ids ?t) 0 = Some 0 \<and> py_get (node_ids ?t) 1 = Some 1
     \<and> path_cache ?t (min 0 1, max 0 1) = Some seg01_pts"
    by (simp add: tool2_def tool0_def py_get_def)
  note c1 = segment_points_on_miss [of tool2 0 0 0 1 1 "(0, 0, 0)" "(3, 0, 0)" flat_env,
      THEN conjunct1, THEN mp, OF h1]
  note c2 = segment_points_on_miss [of ?t _ 0 0 1 1 _ _ _ seg01_pts,
      THEN conjunct2, THEN mp, OF h2]
  show ?thesis
    using h1 c1 c2 h2 by (intro conjI) (simp_all only:)
qed

subsection \<open>Resolving the insertion index\<close>

lemma spec_seg_dists_Cons:
  "spec_seg_dists hit (p # q # rest) = dist_sq_to_segment hit p q # spec_seg_dists hit (q # rest)"
proof -
  have "[0..<length (p # q # rest) - 1] = 0 # map Suc [0..<length (q # rest) - 1]"
    by (simp add: upt_conv_Cons map_Suc_upt del: upt_Suc)
  then show ?thesis by (simp add: spec_seg_dists_def comp_def del: upt_Suc)
qed

lemma spec_seg_dists_short: "length pts < 2 \<Longrightarrow> spec_seg_dists hit pts = []"
  by (simp add: spec_seg_dists_def)

lemma scan_polyline_fold:
  "scan_polyline hit i pts acc = fold scan_step (map (\<lambda>d. (d, i)) (spec_seg_dists hit pts)) acc"
proof (induction hit i pts acc rule: scan_polyline.induct)
  case (1 hit i p q rest best_idx min_dist_sq)
  have st: "scan_step (dist_sq_to_segment hit p q, i) (best_idx, min_dist_sq)
      = (if (case min_dist_sq of None \<Rightarrow> True | Some m \<Rightarrow> dist_sq_to_segment hit p q < m)
         then (i, Some (dist_sq_to_segment hit p q)) else (best_idx, min_dist_sq))"
    by (simp add: scan_step_def split: option.splits)
  from 1 show ?case
    by (simp add: spec_seg_dists_Cons Let_def st)
qed (simp_all add: spec_seg_dists_def)

lemma resolve_loop_collect:
  "resolve_loop E hit count is acc t =
     (case collect_segments E count is t of
        Raise e t' \<Rightarrow> Raise e t'
      | Ok segs t' \<Rightarrow> Ok (fold scan_step (spec_all_dists hit segs) acc) t')"
proof (induction "is" arbitrary: acc t)
  case Nil
  then show ?case by (simp add: spec_all_dists_def)
next
  case (Cons i "is")
  show ?case
  proof (cases "get_segment_points E (int i) ((int i + 1) mod count) t")
    case (Raise e t')
    then show ?thesis by simp
  next
    case (Ok pts t')
    have step: "(if length pts < 2 then acc else scan_polyline hit (int i) pts acc)
        = fold scan_step (map (\<lambda>d. (d, int i)) (spec_seg_dists hit pts)) acc"
      by (simp add: scan_polyline_fold spec_seg_dists_short)
    show ?thesis
      using Ok by (simp add: Cons.IH step spec_all_dists_def split: result.splits)
  qed
qed

lemma fold_scan_step:
  "ds \<noteq> [] \<Longrightarrow>
   fold scan_step ds (b0, None) =
     (snd (hd (filter (\<lambda>x. fst x = Min (set (map fst ds))) ds)), Some (Min (set (map fst ds))))"
proof (induction ds rule: rev_induct)
  case Nil
  then show ?case by simp
next
  case (snoc x ds)
  show ?case
  proof (cases "ds = []")
    case True
    then show ?thesis by (simp add: scan_step_def)
  next
    case False
    let ?m = "Min (set (map fst ds))"
    have IH: "fold scan_step ds (b0, None) = (snd (hd (filter (\<lambda>x. fst x = ?m) ds)), Some ?m)"
      using snoc.IH False by simp
    have fin: "finite (set (map fst ds))" "set (map fst ds) \<noteq> {}" using False by simp_all
    have newmin: "Min (set (map fst (ds @ [x]))) = min (fst x) ?m"
      using fin by simp
    have attained: "filter (\<lambda>y. fst y = ?m) ds \<noteq> []"
    proof -
      have "?m \<in> set (map fst ds)" using fin by (rule Min_in)
      then obtain y where "y \<in> set ds" "fst y = ?m" by auto
      then show ?thesis by (auto simp: filter_empty_conv)
    qed
    show ?thesis
    proof (cases "fst x < ?m")
      case True
      have "\<And>y. y \<in> set ds \<Longrightarrow> fst y \<noteq> fst x"
      proof -
        fix y assume "y \<in> set ds"
        then have "?m \<le> fst y" using fin by simp
        with True show "fst y \<noteq> fst x" by simp
      qed
      then have "filter (\<lambda>y. fst y = fst x) ds = []" by (auto simp: filter_empty_conv)
      moreover have "min (fst x) ?m = fst x" using True by simp
      ultimately show ?thesis
        using True by (simp only: fold_append comp_apply IH newmin fold.simps id_apply)
          (simp add: scan_step_def)
    next
      case F: False
      have "min (fst x) ?m = ?m" using F by simp
      then show ?thesis
        using F attained
        by (simp only: fold_append comp_apply IH newmin fold.simps id_apply)
           (simp add: scan_step_def)
    qed
  qed
qed


lemma resolve_insertion_index_spec:
  assumes "2 \<le> length (nodes t)"
  shows "resolve_insertion_index E hit t =
     (case collect_segments E (int (length (nodes t)))
             [0..<(if is_closed t then length (nodes t) else length (nodes t) - 1)] t of
        Raise e t' \<Rightarrow> Raise e t'
      | Ok segs t' \<Rightarrow>
          Ok (spec_nearest_segment ((3.5 * node_radius t)\<^sup>2) (spec_all_dists hit segs)) t')"
proof -
  let ?is = "[0..<(if is_closed t then length (nodes t) else length (nodes t) - 1)]"
  let ?thr = "(node_radius t * 3.5)\<^sup>2"
  have thr: "(3.5 * node_radius t)\<^sup>2 = ?thr" by (simp add: mult.commute)
  have fin: "\<And>ds. (case fold scan_step ds (-1, None) of
        (best_idx, min_dist_sq) \<Rightarrow>
          (case min_dist_sq of None \<Rightarrow> - 1
           | Some m \<Rightarrow> if m < ?thr then best_idx else - 1)) = spec_nearest_segment ?thr ds"
  proof -
    fix ds :: "(real \<times> int) list"
    show "(case fold scan_step ds (-1, None) of
        (best_idx, min_dist_sq) \<Rightarrow>
          (case min_dist_sq of None \<Rightarrow> - 1
           | Some m \<Rightarrow> if m < ?thr then best_idx else - 1)) = spec_nearest_segment ?thr ds"
    proof (cases "ds = []")
      case True
      then show ?thesis by (simp add: spec_nearest_segment_def)
    next
      case False
      then show ?thesis
        by (simp add: fold_scan_step spec_nearest_segment_def Let_def)
    qed
  qed
  show ?thesis
  proof (cases "collect_segments E (int (length (nodes t))) ?is t")
    case (Raise e t')
    then show ?thesis
      using assms by (simp add: resolve_insertion_index_def resolve_loop_collect Let_def)
  next
    case (Ok segs t')
    obtain b m where f: "fold scan_step (spec_all_dists hit segs) (-1, None) = (b, m)"
      by (cases "fold scan_step (spec_all_dists hit segs) (-1, None)") auto
    have "resolve_insertion_index E hit t
        = Ok (case m of None \<Rightarrow> - 1 | Some d \<Rightarrow> if d < ?thr then b else - 1) t'"
      using assms Ok f
      by (simp add: resolve_insertion_index_def resolve_loop_collect Let_def split: option.splits)
    moreover have "(case m of None \<Rightarrow> - 1 | Some d \<Rightarrow> if d < ?thr then b else - 1)
        = spec_nearest_segment ?thr (spec_all_dists hit segs)"
      using fin[of "spec_all_dists hit segs"] by (simp only: f prod.case)
    ultimately show ?thesis using Ok by (simp only: thr result.case)
  qed
qed

lemma quad_clamp:
  fixes A c L s :: real
  assumes "0 < L" "0 \<le> s" "s \<le> 1"
  shows "A - 2 * max 0 (min 1 (c / L)) * c + (max 0 (min 1 (c / L)))\<^sup>2 * L
         \<le> A - 2 * s * c + s\<^sup>2 * L"
proof -
  let ?t = "max 0 (min 1 (c / L))"
  have diff: "\<And>t. (A - 2 * s * c + s\<^sup>2 * L) - (A - 2 * t * c + t\<^sup>2 * L)
      = (s - t) * (L * (s + t) - 2 * c)"
    by (simp add: algebra_simps power2_eq_square)
  have "0 \<le> (s - ?t) * (L * (s + ?t) - 2 * c)"
  proof (cases "c \<le> 0")
    case True
    then have "c / L \<le> 0" using assms(1) by (simp add: divide_nonpos_pos)
    then have t: "?t = 0" by simp
    have "0 \<le> L * s" using assms by simp
    then have "0 \<le> L * s - 2 * c" using True by linarith
    then have "0 \<le> s * (L * s - 2 * c)" using assms(2) by (rule mult_nonneg_nonneg[rotated])
    then show ?thesis by (simp add: t)
  next
    case cpos: False
    show ?thesis
    proof (cases "L \<le> c")
      case True
      then have "1 \<le> c / L" using assms(1) by (simp add: le_divide_eq)
      then have t: "?t = 1" by simp
      have "L * (s + 1) \<le> L * 2" using assms by (intro mult_left_mono) simp_all
      then have a: "L * (s + 1) - 2 * c \<le> 0" using True by linarith
      have b: "s - 1 \<le> 0" using assms(3) by simp
      have "0 \<le> (s - 1) * (L * (s + 1) - 2 * c)" using b a by (rule mult_nonpos_nonpos)
      then show ?thesis by (simp add: t)
    next
      case False
      then have "0 \<le> c / L" "c / L \<le> 1" using cpos assms(1) by (simp_all add: divide_le_eq)
      then have t: "?t = c / L" by simp
      have "L * (s + c / L) - 2 * c = L * (s - c / L)" using assms(1) by (simp add: algebra_simps)
      then have "(s - c / L) * (L * (s + c / L) - 2 * c) = L * (s - c / L)\<^sup>2"
        by (simp add: power2_eq_square)
      moreover have "0 \<le> L * (s - c / L)\<^sup>2" using assms(1) by simp
      ultimately show ?thesis by (simp only: t)
    qed
  qed
  then show ?thesis using diff[of ?t] by linarith
qed

lemma dist_sq_along:
  "dist_sq p (vadd a (smul s (vsub b a)))
     = dot (vsub p a) (vsub p a) - 2 * s * dot (vsub p a) (vsub b a)
       + s\<^sup>2 * dot (vsub b a) (vsub b a)"
proof -
  obtain x1 y1 z1 where p: "p = (x1, y1, z1)" by (cases p) auto
  obtain x2 y2 z2 where a: "a = (x2, y2, z2)" by (cases a) auto
  obtain x3 y3 z3 where b: "b = (x3, y3, z3)" by (cases b) auto
  show ?thesis by (simp add: p a b dist_sq_def power2_eq_square algebra_simps)
qed

lemma dot_self_zero: "dot v v = 0 \<Longrightarrow> v = (0, 0, 0)"
proof -
  obtain x y z where v: "v = (x, y, z)" by (cases v) auto
  assume "dot v v = 0"
  then have "x * x + y * y + z * z = 0" by (simp add: v)
  then have "x = 0 \<and> y = 0 \<and> z = 0" by (simp add: add_nonneg_eq_0_iff)
  then show ?thesis by (simp add: v)
qed

lemma dot_self_nonneg: "0 \<le> dot v v"
proof -
  obtain x y z where v: "v = (x, y, z)" by (cases v) auto
  show ?thesis by (simp add: v)
qed

lemma dist_sq_to_segment_clamped:
  "dist_sq_to_segment p a b =
     dist_sq p (vadd a (smul (if dot (vsub b a) (vsub b a) = 0 then 0
        else max 0 (min 1 (dot (vsub p a) (vsub b a) / dot (vsub b a) (vsub b a)))) (vsub b a)))"
proof (cases "dot (vsub b a) (vsub b a) = 0")
  case True
  then show ?thesis by (simp add: dist_sq_to_segment_def dist_sq_along Let_def)
next
  case False
  then show ?thesis by (simp add: dist_sq_to_segment_def dist_sq_def Let_def)
qed

lemma dist_sq_to_segment_least:
  assumes "0 \<le> s" "s \<le> 1"
  shows "dist_sq_to_segment p a b \<le> dist_sq p (vadd a (smul s (vsub b a)))"
proof (cases "dot (vsub b a) (vsub b a) = 0")
  case True
  then have "vsub b a = (0, 0, 0)" by (rule dot_self_zero)
  then show ?thesis
    using True by (simp add: dist_sq_to_segment_clamped dist_sq_along)
next
  case False
  then have L: "0 < dot (vsub b a) (vsub b a)"
    using dot_self_nonneg[of "vsub b a"] by linarith
  show ?thesis
    using quad_clamp[OF L assms, of "dot (vsub p a) (vsub p a)" "dot (vsub p a) (vsub b a)"] False
    by (simp add: dist_sq_to_segment_clamped dist_sq_along)
qed


text \<open>
  Claim C8. On a store with at least two anchors \<^verbatim>\<open>_resolve_insertion_index\<close> fetches
  the polyline of every curve segment (the closing one exactly when the loop is closed) and
  returns what the specification describes: over all sub-segments of all polylines the least
  squared distance to the hit point decides; below \<open>(3.5 * node_radius)\<^sup>2\<close> the result is the
  starting anchor index of the first segment attaining it, otherwise \<open>-1\<close>. The distance the
  code computes for a sub-segment from \<open>a\<close> to \<open>b\<close> is the squared distance to the point
  \<open>a + s (b - a)\<close> for a parameter \<open>s\<close> in \<open>[0, 1]\<close>, and no point of the sub-segment is
  nearer.
\<close>

theorem insertion_index_resolution:
  "(2 \<le> length (nodes t) \<longrightarrow>
      resolve_insertion_index E hit t =
        (case collect_segments E (int (length (nodes t)))
                [0..<(if is_closed t then length (nodes t) else length (nodes t) - 1)] t of
           Raise e t' \<Rightarrow> Raise e t'
         | Ok segs t' \<Rightarrow>
             Ok (spec_nearest_segment ((3.5 * node_radius t)\<^sup>2) (spec_all_dists hit segs)) t'))
   \<and> (0 \<le> s \<and> s \<le> 1 \<longrightarrow>
        dist_sq_to_segment p a b \<le> dist_sq p (vadd a (smul s (vsub b a))))
   \<and> (\<exists>s'. 0 \<le> s' \<and> s' \<le> 1 \<and>
        dist_sq_to_segment p a b = dist_sq p (vadd a (smul s' (vsub b a))))"
proof (intro conjI impI)
  assume "2 \<le> length (nodes t)"
  then show "resolve_insertion_index E hit t =
        (case collect_segments E (int (length (nodes t)))
                [0..<(if is_closed t then length (nodes t) else length (nodes t) - 1)] t of
           Raise e t' \<Rightarrow> Raise e t'
         | Ok segs t' \<Rightarrow>
             Ok (spec_nearest_segment ((3.5 * node_radius t)\<^sup>2) (spec_all_dists hit segs)) t')"
    by (rule resolve_insertion_index_spec)
next
  assume "0 \<le> s \<and> s \<le> 1"
  then show "dist_sq_to_segment p a b \<le> dist_sq p (vadd a (smul s (vsub b a)))"
    using dist_sq_to_segment_least by blast
next
  let ?s = "if dot (vsub b a) (vsub b a) = 0 then 0
        else max 0 (min 1 (dot (vsub p a) (vsub b a) / dot (vsub b a) (vsub b a)))"
  have "0 \<le> ?s \<and> ?s \<le> 1" by simp
  moreover have "dist_sq_to_segment p a b = dist_sq p (vadd a (smul ?s (vsub b a)))"
    by (rule dist_sq_to_segment_clamped)
  ultimately show "\<exists>s'. 0 \<le> s' \<and> s' \<le> 1 \<and>
        dist_sq_to_segment p a b = dist_sq p (vadd a (smul s' (vsub b a)))"
    by blast
qed

lemma tool2_collect:
  "collect_segments flat_env 2 [0] tool2
     = Ok [(0, seg01_pts)] (tool2\<lparr>path_cache := [(0, 1) \<mapsto> seg01_pts]\<rparr>)"
  using tool2_segment_01 by simp

lemma upt_9: "[0..<9] = [0, 1, 2, 3, 4, 5, 6, 7, 8]"
  by (simp add: upt_rec)

lemma tool2_nearest:
  "spec_nearest_segment ((3.5 * (1 / 10))\<^sup>2) (spec_all_dists (1, 1 / 10, 0) [(0, seg01_pts)]) = 0"
  by (simp add: spec_nearest_segment_def spec_all_dists_def spec_seg_dists_def seg01_pts_def
      dist_sq_to_segment_def upt_9 Let_def power2_eq_square)

theorem insertion_index_resolution_witness:
  "2 \<le> length (nodes tool2)
   \<and> resolve_insertion_index flat_env (1, 1 / 10, 0) tool2
       = Ok 0 (tool2\<lparr>path_cache := [(0, 1) \<mapsto> seg01_pts]\<rparr>)
   \<and> (0::real) \<le> 1 / 2 \<and> (1 / 2 :: real) \<le> 1
   \<and> dist_sq_to_segment (1, 1 / 10, 0) (0, 0, 0) (3, 0, 0)
       \<le> dist_sq (1, 1 / 10, 0) (vadd (0, 0, 0) (smul (1 / 2) (vsub (3, 0, 0) (0, 0, 0))))"
proof -
  have h1: "2 \<le> length (nodes tool2)" by (simp add: tool2_def tool0_def)
  have h2: "(0::real) \<le> 1 / 2 \<and> (1 / 2 :: real) \<le> 1" by simp
  note th = insertion_index_resolution [of tool2 flat_env "(1, 1 / 10, 0)" "1 / 2"
      "(1, 1 / 10, 0)" "(0, 0, 0)" "(3, 0, 0)"]
  have f: "length (nodes tool2) = 2" "\<not> is_closed tool2" "node_radius tool2 = 1 / 10"
    by (simp_all add: tool2_def tool0_def)
  have "resolve_insertion_index flat_env (1, 1 / 10, 0) tool2
       = Ok 0 (tool2\<lparr>path_cache := [(0, 1) \<mapsto> seg01_pts]\<rparr>)"
    using th [THEN conjunct1, THEN mp, OF h1] tool2_collect tool2_nearest
    by (simp add: f)
  then show ?thesis
    using h1 h2 th [THEN conjunct2, THEN conjunct1, THEN mp, OF h2] by (intro conjI) simp_all
qed

subsection \<open>What region extraction writes\<close>

lemma tri_loop_normal: "loop_normal tri_raw_path = ((27 / 28, 9 / 7, 0), (0, 0, 1))"
  by (simp add: loop_normal_def mean_point_def tri_raw_path_def seg01_pts_def seg12_pts_def
      seg20_pts_def Let_def norm3_axis)

lemma tri_candidates:
  "clean_path_loop [(0, 0, 1), (0, 0, 1), (0, 0, 1)] (0, 0, 1)
     (map (k_nearest (points tri_mesh) 5) tri_raw_path)
   = Some [0, 0, 0, 0, 0, 1, 1, 1, 1, 1, 1, 1, 1, 1, 2, 2, 2, 2, 2, 2, 2, 2, 2, 0, 0, 0, 0, 0]"
  by (simp add: tri_raw_path_def seg01_pts_def seg12_pts_def seg20_pts_def k_nearest_def
      tri_mesh_def dist_sq_def upt_3 upt_rec)

lemma tri_barrier:
  "make_barrier_watertight [[0, 1, 2]]
     [0, 0, 0, 0, 0, 1, 1, 1, 1, 1, 1, 1, 1, 1, 2, 2, 2, 2, 2, 2, 2, 2, 2, 0, 0, 0, 0, 0]
   = [0, 1, 2, 0]"
  by (simp add: make_barrier_watertight_def)


lemma region_after_cut_all_marked:
  "point_data M ''is_barrier'' = Some (IntArray [1, 1, 1]) \<Longrightarrow> length (points M) = 3 \<Longrightarrow>
   region_after_cut flat_env seed M t = Raise IndexError t"
  by (simp add: region_after_cut_def flat_env_def keep_by_def restrict_vertices_def
      region_labels_def py_get_def upt_3 Let_def)

lemma tri_extraction: "get_selected_region flat_env tri_tool = Raise IndexError tri_after"
proof -
  have sel: "select_current_mesh flat_env tri_tool = tri_tool"
    by (simp add: select_current_mesh_def tri_tool_def tool0_def tri_mesh_def)
  have path: "get_full_path_points flat_env tri_tool
      = Ok tri_raw_path (tri_tool\<lparr>path_cache := tri_cache\<rparr>)"
    unfolding tri_raw_path_def
    by (rule tri_full_path_closed) (simp_all add: tri_tool_def tool0_def)
  have len: "\<not> length tri_raw_path < 3"
    by (simp add: tri_raw_path_def seg01_pts_def seg12_pts_def seg20_pts_def)
  have m: "is_closed tri_tool" "mesh tri_tool = Some 0" "heap tri_tool = (\<lambda>a. tri_mesh)"
    by (simp_all add: tri_tool_def tool0_def)
  have ray: "ray_trace flat_env tri_mesh (27 / 28, 9 / 7, 200) (27 / 28, 9 / 7, - 200)
      = Some [(27 / 28, 9 / 7, 0)]"
    by (simp add: flat_env_def ray_plane_def Let_def)
  have kd: "kd_query_k flat_env (points tri_mesh) tri_raw_path 5
      = Some (map (k_nearest (points tri_mesh) 5) tri_raw_path)"
    by (simp add: flat_env_def tri_mesh_def)
  have nn: "point_data tri_mesh ''Normals'' = None" by (simp add: tri_mesh_def)
  have cn: "compute_normals flat_env tri_mesh = tri_with_normals"
    by (simp add: flat_env_def tri_with_normals_def tri_mesh_def)
  have pn: "point_data tri_with_normals ''Normals'' = Some (VecArray [(0, 0, 1), (0, 0, 1), (0, 0, 1)])"
    "cells tri_with_normals = [[0, 1, 2]]" "length (points tri_with_normals) = 3"
    by (simp_all add: tri_with_normals_def tri_mesh_def)
  let ?ids = "[0, 0, 0, 0, 0, 1, 1, 1, 1, 1, 1, 1, 1, 1, 2, 2, 2, 2, 2, 2, 2, 2, 2, 0, 0, 0, 0, 0] :: nat list"
  let ?marked = "tri_with_normals\<lparr>point_data := (point_data tri_with_normals)(''is_barrier'' \<mapsto>
        IntArray (map (\<lambda>i. if i \<in> set (make_barrier_watertight [[0, 1, 2]] ?ids) then 1 else 0)
          [0..<3]))\<rparr>"
  have mark: "?marked = tri_marked"
    by (simp only: tri_barrier) (simp add: tri_with_normals_def tri_marked_def tri_mesh_def upt_3)
  let ?t4 = "tri_tool\<lparr>path_cache := tri_cache, heap := (\<lambda>a. tri_mesh)(0 := tri_marked)\<rparr>"
  have cut: "region_after_cut flat_env (27 / 28, 9 / 7, 0) tri_marked ?t4 = Raise IndexError ?t4"
    by (rule region_after_cut_all_marked) (simp_all add: tri_marked_def tri_mesh_def)
  have "get_selected_region flat_env tri_tool
      = region_after_cut flat_env (27 / 28, 9 / 7, 0) ?marked
          (tri_tool\<lparr>path_cache := tri_cache, heap := (\<lambda>a. tri_mesh)(0 := ?marked)\<rparr>)"
    unfolding get_selected_region_def mark_barrier_def
    by (simp add: sel m path len tri_loop_normal ray kd nn cn pn tri_candidates Let_def
        del: upt_Suc set_simps list.set)
  then show ?thesis by (simp only: mark cut tri_after_def)
qed


lemma region_after_cut_state: "state_of (region_after_cut E seed M t) = t"
  by (simp add: region_after_cut_def Let_def split: option.splits array.splits)

lemma get_full_path_points_frame:
  "\<exists>c. state_of (get_full_path_points E t) = t\<lparr>path_cache := c\<rparr>"
proof -
  have "state_of (update_curve E t) = state_of (get_full_path_points E t)"
    by (cases "get_full_path_points E t") (simp_all add: update_curve_def)
  then show ?thesis using update_curve_frame[of E t] by simp
qed

lemma mark_barrier_cases:
  "state_of (mark_barrier E m normal seed cands t2)
     = (if point_data (heap t2 m) ''Normals'' = None
        then t2\<lparr>heap := (heap t2)(m := compute_normals E (heap t2 m))\<rparr> else t2)
   \<or> (\<exists>sc. state_of (mark_barrier E m normal seed cands t2)
        = t2\<lparr>heap := (heap t2)
             (m := (if point_data (heap t2 m) ''Normals'' = None
                    then compute_normals E (heap t2 m) else heap t2 m)
                \<lparr>point_data :=
                   (point_data (if point_data (heap t2 m) ''Normals'' = None
                                then compute_normals E (heap t2 m) else heap t2 m))
                   (''is_barrier'' \<mapsto> IntArray sc)\<rparr>)\<rparr>)"
proof -
  define N where "N = (if point_data (heap t2 m) ''Normals'' = None
                       then compute_normals E (heap t2 m) else heap t2 m)"
  define t3 where "t3 = (if point_data (heap t2 m) ''Normals'' = None
                then t2\<lparr>heap := (heap t2)(m := compute_normals E (heap t2 m))\<rparr>
                else t2)"
  have h3: "heap t3 m = N" by (simp add: t3_def N_def)
  have u3: "\<And>X. t3\<lparr>heap := (heap t3)(m := X)\<rparr> = t2\<lparr>heap := (heap t2)(m := X)\<rparr>"
    by (simp add: t3_def)
  have mb: "mark_barrier E m normal seed cands t2 =
     (case point_data N ''Normals'' of
           None \<Rightarrow> Raise KeyError t3
         | Some (IntArray xs) \<Rightarrow> Raise LibraryError t3
         | Some (VecArray mesh_normals) \<Rightarrow>
         case clean_path_loop mesh_normals normal cands of
           None \<Rightarrow> Raise IndexError t3
         | Some clean_path_ids \<Rightarrow>
         let barrier_ids = make_barrier_watertight (cells N) clean_path_ids;
             n_points = length (points N);
             scalars = map (\<lambda>i. if i \<in> set barrier_ids then 1 else 0) [0..<n_points];
             t4 = t2\<lparr>heap := (heap t2)(m := N
                    \<lparr>point_data := (point_data N)(''is_barrier'' \<mapsto> IntArray scalars)\<rparr>)\<rparr>
         in region_after_cut E seed (heap t4 m) t4)"
    unfolding mark_barrier_def t3_def[symmetric] Let_def h3 u3 ..
  have "state_of (mark_barrier E m normal seed cands t2) = t3
     \<or> (\<exists>sc. state_of (mark_barrier E m normal seed cands t2)
          = t2\<lparr>heap := (heap t2)(m := N
                    \<lparr>point_data := (point_data N)(''is_barrier'' \<mapsto> IntArray sc)\<rparr>)\<rparr>)"
  proof (cases "point_data N ''Normals''")
    case None
    then show ?thesis by (simp add: mb)
  next
    case (Some a)
    show ?thesis
    proof (cases a)
      case (IntArray xs)
      with Some show ?thesis by (simp add: mb)
    next
      case (VecArray ns)
      show ?thesis
      proof (cases "clean_path_loop ns normal cands")
        case None
        with Some VecArray show ?thesis by (simp add: mb)
      next
        case (Some ids)
        show ?thesis
          apply (rule disjI2)
          apply (rule exI)
          apply (simp only: mb \<open>point_data N ''Normals'' = Some a\<close> VecArray Some
              option.case array.case Let_def region_after_cut_state)
          done
      qed
    qed
  qed
  then show ?thesis unfolding t3_def N_def .
qed

lemma extraction_heap:
  assumes cl: "is_closed t" and me: "mesh (select_current_mesh E t) = Some m"
  shows "\<exists>X. heap (state_of (get_selected_region E t)) = (heap (select_current_mesh E t))(m := X) \<and>
           (X = heap (select_current_mesh E t) m
            \<or> point_data (heap (select_current_mesh E t) m) ''Normals'' = None \<and>
              X = compute_normals E (heap (select_current_mesh E t) m)
            \<or> (\<exists>sc. X = (heap (select_current_mesh E t) m)
                  \<lparr>point_data := (point_data (heap (select_current_mesh E t) m))
                     (''is_barrier'' \<mapsto> IntArray sc)\<rparr>)
            \<or> (\<exists>sc. point_data (heap (select_current_mesh E t) m) ''Normals'' = None \<and>
                  X = (compute_normals E (heap (select_current_mesh E t) m))
                  \<lparr>point_data := (point_data (compute_normals E (heap (select_current_mesh E t) m)))
                     (''is_barrier'' \<mapsto> IntArray sc)\<rparr>))"
proof -
  define t1 where "t1 = select_current_mesh E t"
  obtain c where fr: "state_of (get_full_path_points E t1) = t1\<lparr>path_cache := c\<rparr>"
    using get_full_path_points_frame by blast
  define t2 where "t2 = t1\<lparr>path_cache := c\<rparr>"
  have me1: "mesh t1 = Some m" using me by (simp add: t1_def)
  have gsr: "get_selected_region E t =
     (case get_full_path_points E t1 of Raise e t2 \<Rightarrow> Raise e t2 | Ok raw_path_points t2 \<Rightarrow>
           if length raw_path_points < 3 then Ok None t2
           else
             case ray_trace E (heap t2 m)
                    (vadd (fst (loop_normal raw_path_points)) (smul 200 (snd (loop_normal raw_path_points))))
                    (vsub (fst (loop_normal raw_path_points)) (smul 200 (snd (loop_normal raw_path_points))))
             of None \<Rightarrow> Ok None t2
                | Some pts \<Rightarrow>
                case kd_query_k E (points (heap t2 m)) raw_path_points 5 of None \<Rightarrow> Ok None t2
                | Some candidates \<Rightarrow>
                    mark_barrier E m (snd (loop_normal raw_path_points))
                      (if length pts > 0 then hd pts else fst (loop_normal raw_path_points))
                      candidates t2)"
    unfolding get_selected_region_def t1_def[symmetric] Let_def
    by (simp only: cl me1 not_True_eq_False if_False option.case)
  have "state_of (get_selected_region E t) = t2
      \<or> (\<exists>normal seed cands. state_of (get_selected_region E t)
            = state_of (mark_barrier E m normal seed cands t2))"
  proof (cases "get_full_path_points E t1")
    case (Raise e s)
    with fr show ?thesis by (simp add: gsr t2_def)
  next
    case (Ok raw s)
    with fr have s: "s = t2" by (simp add: t2_def)
    show ?thesis
    proof (cases "length raw < 3")
      case True
      then show ?thesis by (simp add: gsr Ok s)
    next
      case False
      note len = this
      show ?thesis
      proof (cases "ray_trace E (heap t2 m)
                    (vadd (fst (loop_normal raw)) (smul 200 (snd (loop_normal raw))))
                    (vsub (fst (loop_normal raw)) (smul 200 (snd (loop_normal raw))))")
        case None
        then show ?thesis using len by (simp add: gsr Ok s)
      next
        case (Some pts)
        note ray = this
        show ?thesis
        proof (cases "kd_query_k E (points (heap t2 m)) raw 5")
          case None
          then show ?thesis using len ray by (simp add: gsr Ok s)
        next
          case (Some cands)
          have eq: "state_of (get_selected_region E t) = state_of (mark_barrier E m
                      (snd (loop_normal raw))
                      (if length pts > 0 then hd pts else fst (loop_normal raw)) cands t2)"
            using len ray Some by (simp add: gsr Ok s)
          show ?thesis by (rule disjI2, (rule exI)+, rule eq)
        qed
      qed
    qed
  qed
  then show ?thesis
  proof
    assume a: "state_of (get_selected_region E t) = t2"
    have "heap (state_of (get_selected_region E t)) = (heap t1)(m := heap t1 m)"
      by (simp add: a t2_def)
    then show ?thesis unfolding t1_def by blast
  next
    assume "\<exists>normal seed cands. state_of (get_selected_region E t)
            = state_of (mark_barrier E m normal seed cands t2)"
    then obtain normal seed cands where st: "state_of (get_selected_region E t)
            = state_of (mark_barrier E m normal seed cands t2)" by blast
    have hp: "heap t2 = heap t1" by (simp add: t2_def)
    show ?thesis
    proof (cases "point_data (heap t1 m) ''Normals'' = None")
      case True
      from mark_barrier_cases[of E m normal seed cands t2]
      have "state_of (get_selected_region E t)
              = t2\<lparr>heap := (heap t1)(m := compute_normals E (heap t1 m))\<rparr>
          \<or> (\<exists>sc. state_of (get_selected_region E t)
               = t2\<lparr>heap := (heap t1)(m := (compute_normals E (heap t1 m))
                   \<lparr>point_data := (point_data (compute_normals E (heap t1 m)))
                      (''is_barrier'' \<mapsto> IntArray sc)\<rparr>)\<rparr>)"
        unfolding st hp by (simp only: True if_True simp_thms)
      then have "heap (state_of (get_selected_region E t))
              = (heap t1)(m := compute_normals E (heap t1 m))
          \<or> (\<exists>sc. heap (state_of (get_selected_region E t))
               = (heap t1)(m := (compute_normals E (heap t1 m))
                   \<lparr>point_data := (point_data (compute_normals E (heap t1 m)))
                      (''is_barrier'' \<mapsto> IntArray sc)\<rparr>))"
        by auto
      then show ?thesis using True unfolding t1_def by blast
    next
      case False
      from mark_barrier_cases[of E m normal seed cands t2]
      have "state_of (get_selected_region E t) = t2
          \<or> (\<exists>sc. state_of (get_selected_region E t)
               = t2\<lparr>heap := (heap t1)(m := (heap t1 m)
                   \<lparr>point_data := (point_data (heap t1 m))
                      (''is_barrier'' \<mapsto> IntArray sc)\<rparr>)\<rparr>)"
        unfolding st hp by (simp only: False if_False simp_thms)
      then have "heap (state_of (get_selected_region E t)) = (heap t1)(m := heap t1 m)
          \<or> (\<exists>sc. heap (state_of (get_selected_region E t))
               = (heap t1)(m := (heap t1 m)
                   \<lparr>point_data := (point_data (heap t1 m))
                      (''is_barrier'' \<mapsto> IntArray sc)\<rparr>))"
        by (auto simp: t2_def)
      then show ?thesis unfolding t1_def by blast
    qed
  qed
qed

lemma select_current_mesh_none:
  "mesh (select_current_mesh E t) = None \<Longrightarrow> select_current_mesh E t = t"
  by (simp add: select_current_mesh_def split: option.splits if_splits)

text \<open>
  Claim C2, as the code contradicts it. The displayed surface of the example is a PolyData
  triangle with no point data, so \<^verbatim>\<open>self.mesh\<close> is the displayed dataset itself. After
  \<^verbatim>\<open>get_selected_region\<close> on the closed loop through its three vertices the displayed
  dataset carries the arrays \<^verbatim>\<open>Normals\<close> and \<^verbatim>\<open>is_barrier\<close>; the extraction itself fails,
  every vertex being on the barrier.
\<close>

theorem extraction_marks_live_surface:
  "target_dataset tri_tool = Some 0 \<and> mesh tri_tool = Some 0
   \<and> \<not> is_unstructured (heap tri_tool 0)
   \<and> point_data (heap tri_tool 0) ''Normals'' = None
   \<and> point_data (heap tri_tool 0) ''is_barrier'' = None
   \<and> get_selected_region flat_env tri_tool = Raise IndexError tri_after
   \<and> point_data (heap tri_after 0) ''Normals'' = Some (VecArray [(0, 0, 1), (0, 0, 1), (0, 0, 1)])
   \<and> point_data (heap tri_after 0) ''is_barrier'' = Some (IntArray [1, 1, 1])"
  by (simp add: tri_extraction)
    (simp add: tri_after_def tri_marked_def tri_tool_def tool0_def tri_mesh_def)

text \<open>
  Claim C2, as amended. \<^verbatim>\<open>get_selected_region\<close> writes to no dataset other than the one
  \<^verbatim>\<open>self.mesh\<close> refers to once the mesh is selected, and to that one only by
  \<^verbatim>\<open>compute_normals(inplace=True)\<close>, called when it has no array \<^verbatim>\<open>Normals\<close>, and by storing
  the point-data array \<^verbatim>\<open>is_barrier\<close>: the dataset ends as it was, or with its normals
  computed, or as one of these two with \<^verbatim>\<open>is_barrier\<close> stored. That dataset is the displayed
  one when the displayed dataset is PolyData; when it is an UnstructuredGrid the mesh is a
  new surface extracted from it and the displayed grid is not written. On an open loop, and
  when there is no mesh, the state of the tool is the one before the call.
\<close>

theorem extraction_writes:
  "(\<not> is_closed t \<longrightarrow> state_of (get_selected_region E t) = t) \<and>
   (is_closed t \<and> mesh (select_current_mesh E t) = None \<longrightarrow>
      state_of (get_selected_region E t) = t) \<and>
   (is_closed t \<and> mesh (select_current_mesh E t) = Some m \<longrightarrow>
      (\<exists>X. heap (state_of (get_selected_region E t)) = (heap (select_current_mesh E t))(m := X) \<and>
           (X = heap (select_current_mesh E t) m
            \<or> point_data (heap (select_current_mesh E t) m) ''Normals'' = None \<and>
              X = compute_normals E (heap (select_current_mesh E t) m)
            \<or> (\<exists>sc. X = (heap (select_current_mesh E t) m)
                  \<lparr>point_data := (point_data (heap (select_current_mesh E t) m))
                     (''is_barrier'' \<mapsto> IntArray sc)\<rparr>)
            \<or> (\<exists>sc. point_data (heap (select_current_mesh E t) m) ''Normals'' = None \<and>
                  X = (compute_normals E (heap (select_current_mesh E t) m))
                  \<lparr>point_data := (point_data (compute_normals E (heap (select_current_mesh E t) m)))
                     (''is_barrier'' \<mapsto> IntArray sc)\<rparr>)))) \<and>
   (target_dataset t = Some d \<and> \<not> is_unstructured (heap t d) \<longrightarrow>
      mesh (select_current_mesh E t) = Some d \<and> heap (select_current_mesh E t) = heap t) \<and>
   (target_dataset t = Some d \<and> is_unstructured (heap t d) \<and> d \<noteq> next_addr t \<longrightarrow>
      mesh (select_current_mesh E t) = Some (next_addr t) \<and>
      heap (select_current_mesh E t) d = heap t d)"
proof (intro conjI impI)
  assume "\<not> is_closed t"
  then show "state_of (get_selected_region E t) = t"
    by (simp add: get_selected_region_def)
next
  assume a: "is_closed t \<and> mesh (select_current_mesh E t) = None"
  then have "select_current_mesh E t = t" by (simp add: select_current_mesh_none)
  with a show "state_of (get_selected_region E t) = t"
    by (simp add: get_selected_region_def)
next
  assume a: "is_closed t \<and> mesh (select_current_mesh E t) = Some m"
  show "\<exists>X. heap (state_of (get_selected_region E t)) = (heap (select_current_mesh E t))(m := X) \<and>
           (X = heap (select_current_mesh E t) m
            \<or> point_data (heap (select_current_mesh E t) m) ''Normals'' = None \<and>
              X = compute_normals E (heap (select_current_mesh E t) m)
            \<or> (\<exists>sc. X = (heap (select_current_mesh E t) m)
                  \<lparr>point_data := (point_data (heap (select_current_mesh E t) m))
                     (''is_barrier'' \<mapsto> IntArray sc)\<rparr>)
            \<or> (\<exists>sc. point_data (heap (select_current_mesh E t) m) ''Normals'' = None \<and>
                  X = (compute_normals E (heap (select_current_mesh E t) m))
                  \<lparr>point_data := (point_data (compute_normals E (heap (select_current_mesh E t) m)))
                     (''is_barrier'' \<mapsto> IntArray sc)\<rparr>))"
    by (rule extraction_heap[OF conjunct1[OF a] conjunct2[OF a]])
next
  assume "target_dataset t = Some d \<and> \<not> is_unstructured (heap t d)"
  then show "mesh (select_current_mesh E t) = Some d"
    by (simp add: select_current_mesh_def)
next
  assume "target_dataset t = Some d \<and> \<not> is_unstructured (heap t d)"
  then show "heap (select_current_mesh E t) = heap t"
    by (simp add: select_current_mesh_def)
next
  assume "target_dataset t = Some d \<and> is_unstructured (heap t d) \<and> d \<noteq> next_addr t"
  then show "mesh (select_current_mesh E t) = Some (next_addr t)"
    by (simp add: select_current_mesh_def)
next
  assume "target_dataset t = Some d \<and> is_unstructured (heap t d) \<and> d \<noteq> next_addr t"
  then show "heap (select_current_mesh E t) d = heap t d"
    by (simp add: select_current_mesh_def)
qed

theorem extraction_writes_witness:
  "state_of (get_selected_region flat_env tool2) = tool2
   \<and> state_of (get_selected_region flat_env bare_tool) = bare_tool
   \<and> mesh (select_current_mesh flat_env tri_tool) = Some 0
   \<and> heap (select_current_mesh flat_env tri_tool) = heap tri_tool
   \<and> heap (state_of (get_selected_region flat_env tri_tool)) 1 = tri_mesh
   \<and> mesh (select_current_mesh flat_env grid_tool) = Some 1
   \<and> heap (select_current_mesh flat_env grid_tool) 0 = grid_mesh"
proof -
  have h1: "\<not> is_closed tool2" by (simp add: tool2_def tool0_def)
  have h2: "is_closed bare_tool \<and> mesh (select_current_mesh flat_env bare_tool) = None"
    by (simp add: select_current_mesh_def bare_tool_def tri_tool_def tool0_def)
  have h4: "target_dataset tri_tool = Some 0 \<and> \<not> is_unstructured (heap tri_tool 0)"
    by (simp add: tri_tool_def tool0_def tri_mesh_def)
  have h5: "target_dataset grid_tool = Some 0 \<and> is_unstructured (heap grid_tool 0)
      \<and> 0 \<noteq> next_addr grid_tool"
    by (simp add: grid_tool_def grid_mesh_def tri_tool_def tool0_def)
  note w1 = extraction_writes[where t = tool2 and E = flat_env, THEN conjunct1, THEN mp, OF h1]
  note w2 = extraction_writes[where t = bare_tool and E = flat_env,
      THEN conjunct2, THEN conjunct1, THEN mp, OF h2]
  note w4 = extraction_writes[where t = tri_tool and E = flat_env and d = 0,
      THEN conjunct2, THEN conjunct2, THEN conjunct2, THEN conjunct1, THEN mp, OF h4]
  have h3: "is_closed tri_tool \<and> mesh (select_current_mesh flat_env tri_tool) = Some 0"
    using w4 by (simp add: tri_tool_def tool0_def)
  note w3 = extraction_writes[where t = tri_tool and E = flat_env and m = 0,
      THEN conjunct2, THEN conjunct2, THEN conjunct1, THEN mp, OF h3]
  note w5 = extraction_writes[where t = grid_tool and E = flat_env and d = 0,
      THEN conjunct2, THEN conjunct2, THEN conjunct2, THEN conjunct2, THEN mp, OF h5]
  from w3 obtain X where hx:
    "heap (state_of (get_selected_region flat_env tri_tool))
       = (heap (select_current_mesh flat_env tri_tool))(0 := X)" by blast
  have "heap (state_of (get_selected_region flat_env tri_tool)) 1 = ((heap tri_tool)(0 := X)) 1"
    by (simp only: hx conjunct2[OF w4])
  also have "\<dots> = tri_mesh" by (simp add: tri_tool_def tool0_def)
  finally have w3': "heap (state_of (get_selected_region flat_env tri_tool)) 1 = tri_mesh" .
  have n5: "next_addr grid_tool = 1" "heap grid_tool 0 = grid_mesh"
    by (simp_all add: grid_tool_def tri_tool_def tool0_def)
  show ?thesis
    using w1 w2 w4 w3' w5 by (simp add: n5)
qed

end
